(* ===== verification/Go_Prelude.thy ===== *)
theory Go_Prelude
  imports Main "HOL-Library.Word" "HOL-Library.Finite_Map" "HOL-Library.List_Lexorder"
    "HOL-Library.Char_ord" "HOL-Library.Product_Lexorder"
begin

text \<open>
  What the components share: the Go values the sources compute with and the lemmas about them.

  \<^item> Errors. A Go error is the list of the sentinel errors it wraps, outermost first; messages are
    not modelled. \<open>errors_is\<close> is \<^verbatim>\<open>errors.Is\<close>. A function that returns only an error
    returns an \<open>error option\<close> (\<open>None\<close> is \<^verbatim>\<open>nil\<close>); a function that returns a value or
    an error returns \<open>error + 'a\<close>.
  \<^item> Integers. \<^verbatim>\<open>uint64\<close> is \<open>64 word\<close>; \<^verbatim>\<open>int64\<close> products are wrapped by
    \<open>wrap_int64\<close>.
  \<^item> Time. A \<^verbatim>\<open>time.Time\<close> is its instant in nanoseconds since the zero time, which is 0;
    monotonic readings and locations are not modelled, so \<^verbatim>\<open>==\<close> and \<^verbatim>\<open>Equal\<close> agree.
  \<^item> Maps. A Go map is a finite map; \<open>sorted_list_of_fmap\<close> enumerates it in key order. Where the
    source ranges over a map, the order it takes does not change the modelled result, as the
    comments at each definition say.
\<close>

named_theorems val_simps \<open>validation chains, read as conjunctions of their conditions\<close>

type_synonym u64 = "64 word"
type_synonym time = int

section \<open>Errors\<close>

text \<open>
  The sentinel errors, one constructor each, package by package, and \<open>RuntimePanic\<close> for a Go
  run-time panic (an index or slice bound out of range). Packages use the same names for different errors, so
  the errors of the gateway, of its edge and of the exec packages have constructors of their own.
\<close>

datatype edge_sentinel =
    EdgeInvalidOptions | EdgeUnavailable | EdgeCapacityExhausted | EdgeRateLimited

datatype gateway_sentinel =
    GatewayInvalidRequest | GatewayInvalidGrant | GatewayCapacityExhausted | GatewayCapacityUnavailable
  | CapacityLeaseLost | CapacityLeaseUnavailable

datatype exec_sentinel =
    ExecInvalidRequest | ExecDeadlineExpired | ExecDispatchUnknown | ExecExecutionNotFound
  | ExecInvalidDispatch | ExecInvalidObservation | ExecInvalidResult | ExecInvalidCancellation
  | ExecNotFound | ExecAlreadyExists | ExecConflict | ExecIdempotencyConflict | ExecPending | ExecExpired
  | ExecCorrupt | ExecDurability | ExecClosed | ExecInvalidCoordinator | ExecInvalidApplication
  | ExecSandboxNotReady | ExecSandboxExpired

datatype operation_sentinel = OperationNotFound | OperationConflict | OperationUnavailable | OperationInvalidView

datatype usage_sentinel =
    UsageInvalidEvidence | UsageEvidenceNotFound | UsageEvidenceUnavailable | UsageEvidenceExpired
  | UsageConflict | UsageClosed | UsageCorrupt | UsageDurability

datatype sentinel =
    ErrInvalidIdentifier | ErrInvalidDigest | ErrInvalidSpec | ErrInvalidState
  | ErrInvalidTransition | ErrGenerationConflict | ErrStaleFencingToken | ErrDeadlineExpired
  | ErrInvalidDeadline | ErrInvalidLease | ErrTerminalOperation | ErrCancellationRequired
  | ErrNotFound | ErrAlreadyExists | ErrConflict | ErrIdempotencyConflict | ErrCorrupt
  | ErrDurability | ErrClosed | ErrInvalidCursor | ErrCursorExpired | ErrCursorAhead
  | ErrInvalidCoordinator | ErrUnknownRuntime | ErrInvalidDriver | ErrInvalidApplication
  | ContextCanceled | ContextDeadlineExceeded
  | EdgeErr edge_sentinel | GatewayErr gateway_sentinel | ExecErr exec_sentinel
  | OperationErr operation_sentinel | UsageErr usage_sentinel
  | ErrOther
  | RuntimePanic

type_synonym error = "sentinel list"

definition errors_is :: "error \<Rightarrow> sentinel \<Rightarrow> bool" where
  "errors_is e s \<longleftrightarrow> s \<in> set e"

text \<open>A validation is a chain of checks of which the first that fails is returned.\<close>

definition fail_if :: "bool \<Rightarrow> error \<Rightarrow> error option" where
  "fail_if b e = (if b then Some e else None)"

fun first_err :: "error option list \<Rightarrow> error option" where
  "first_err [] = None"
| "first_err (None # cs) = first_err cs"
| "first_err (Some e # cs) = Some e"

definition on_ok :: "'e + 'a \<Rightarrow> ('a \<Rightarrow> 'e + 'b) \<Rightarrow> 'e + 'b" where
  "on_ok r k = (case r of Inl e \<Rightarrow> Inl e | Inr x \<Rightarrow> k x)"

definition unless_err :: "'e option \<Rightarrow> 'e + 'a \<Rightarrow> 'e + 'a" where
  "unless_err c r = (case c of None \<Rightarrow> r | Some e \<Rightarrow> Inl e)"

fun fold_res :: "('a \<Rightarrow> 's \<Rightarrow> 'e + 's) \<Rightarrow> 'a list \<Rightarrow> 's \<Rightarrow> 'e + 's" where
  "fold_res f [] s = Inr s"
| "fold_res f (x # xs) s = on_ok (f x s) (fold_res f xs)"

lemma errors_is_simps [simp]:
  "errors_is [] s \<longleftrightarrow> False"
  "errors_is (t # e) s \<longleftrightarrow> s = t \<or> errors_is e s"
  by (auto simp: errors_is_def)

lemma fail_if_simps [simp]: "fail_if True e = Some e" "fail_if False e = None"
  by (simp_all add: fail_if_def)

lemma fail_if_None [simp]: "fail_if b e = None \<longleftrightarrow> \<not> b"
  by (simp add: fail_if_def)

lemma fail_if_Some [simp]: "fail_if b e = Some e' \<longleftrightarrow> b \<and> e' = e"
  by (auto simp: fail_if_def)

lemma first_err_None [simp]: "first_err cs = None \<longleftrightarrow> (\<forall>c \<in> set cs. c = None)"
  by (induction cs rule: first_err.induct) auto

lemma first_err_in: "first_err cs = Some e \<Longrightarrow> Some e \<in> set cs"
  by (induction cs rule: first_err.induct) auto

lemma on_ok_simps [simp]:
  "on_ok (Inl e) k = Inl e"
  "on_ok (Inr x) k = k x"
  by (simp_all add: on_ok_def)

lemma on_ok_Inr_iff [simp]: "on_ok r k = Inr y \<longleftrightarrow> (\<exists>x. r = Inr x \<and> k x = Inr y)"
  by (cases r) auto

lemma on_ok_Inl_iff [simp]:
  "on_ok r k = Inl e \<longleftrightarrow> r = Inl e \<or> (\<exists>x. r = Inr x \<and> k x = Inl e)"
  by (cases r) auto

lemma unless_err_simps [simp]:
  "unless_err None r = r"
  "unless_err (Some e) r = Inl e"
  by (simp_all add: unless_err_def)

lemma unless_err_Inr_iff [simp]: "unless_err c r = Inr x \<longleftrightarrow> c = None \<and> r = Inr x"
  by (cases c) auto

lemma unless_err_Inl_iff [simp]:
  "unless_err c r = Inl e \<longleftrightarrow> c = Some e \<or> (c = None \<and> r = Inl e)"
  by (cases c) auto

lemma fold_res_append: "fold_res f (xs @ ys) s = on_ok (fold_res f xs s) (fold_res f ys)"
proof (induction xs arbitrary: s)
  case (Cons x xs)
  then show ?case by (cases "f x s") auto
qed simp

lemma fold_res_map: "fold_res f (map g xs) s = fold_res (\<lambda>x. f (g x)) xs s"
proof (induction xs arbitrary: s)
  case (Cons x xs)
  then show ?case by (cases "f (g x) s") auto
qed simp

lemma fold_res_concat: "fold_res f (concat xss) s = fold_res (fold_res f) xss s"
proof (induction xss arbitrary: s)
  case (Cons xs xss)
  then show ?case by (cases "fold_res f xs s") (auto simp: fold_res_append)
qed simp

lemma fold_res_check: "(\<And>x. x \<in> set xs \<Longrightarrow> f x s = Inr s) \<Longrightarrow> fold_res f xs s = Inr s"
  by (induction xs) auto

text \<open>A loop keeps what each of its steps keeps.\<close>

lemma fold_res_invariant:
  assumes "fold_res f xs s = Inr s'" and "P s"
    and "\<And>x s s'. x \<in> set xs \<Longrightarrow> P s \<Longrightarrow> f x s = Inr s' \<Longrightarrow> P s'"
  shows "P s'"
  using assms
proof (induction xs arbitrary: s)
  case (Cons x xs)
  then obtain t where "f x s = Inr t" "fold_res f xs t = Inr s'" by auto
  with Cons show ?case by (metis list.set_intros)
qed simp

section \<open>Integers and time\<close>

text \<open>The value of an \<^verbatim>\<open>int64\<close> expression whose mathematical value is \<open>x\<close>.\<close>

definition wrap_int64 :: "int \<Rightarrow> int" where
  "wrap_int64 x = (x + 2 ^ 63) mod 2 ^ 64 - 2 ^ 63"

lemma wrap_int64_id: "- (2 ^ 63) \<le> x \<Longrightarrow> x < 2 ^ 63 \<Longrightarrow> wrap_int64 x = x"
  by (simp add: wrap_int64_def)

lemma wrap_int64_range: "- (2 ^ 63) \<le> wrap_int64 x" "wrap_int64 x < 2 ^ 63"
  unfolding wrap_int64_def by (simp_all add: pos_mod_sign pos_mod_bound)

definition nanos_per_second :: int where
  "nanos_per_second = 1000000000"

text \<open>\<^verbatim>\<open>time.Duration(s) * time.Second\<close> for an \<^verbatim>\<open>int64\<close> number of seconds.\<close>

definition seconds :: "int \<Rightarrow> int" where
  "seconds s = wrap_int64 (s * nanos_per_second)"

lemma seconds_exact: "0 \<le> s \<Longrightarrow> s \<le> 9223372036 \<Longrightarrow> seconds s = s * nanos_per_second"
  by (simp add: seconds_def nanos_per_second_def wrap_int64_id)

definition is_zero_time :: "time \<Rightarrow> bool" where
  "is_zero_time t \<longleftrightarrow> t = 0"

lemma word_succ_neq_0: "(w :: u64) \<noteq> - 1 \<Longrightarrow> w + 1 \<noteq> 0"
  by (metis add_eq_0_iff2 add.commute)

lemma unat_succ: "(w :: u64) \<noteq> - 1 \<Longrightarrow> unat (w + 1) = Suc (unat w)"
  using word_succ_neq_0 unatSuc by (metis add.commute)

text \<open>\<^verbatim>\<open>Time.Sub\<close>: the difference, saturated at the bounds of a 64-bit duration.\<close>

definition time_sub :: "time \<Rightarrow> time \<Rightarrow> int" where
  "time_sub t u = max (- (2 ^ 63)) (min (2 ^ 63 - 1) (t - u))"

section \<open>Strings\<close>

text \<open>
  \<^verbatim>\<open>strings.TrimSpace(s) == ""\<close>: the string is a sequence of white space in UTF-8, the
  code points U+0009 to U+000D, U+0020, U+0085, U+00A0, U+1680, U+2000 to U+200A, U+2028, U+2029,
  U+202F, U+205F and U+3000. \<open>trim_left_space\<close> is what trimming on the left leaves.
\<close>

definition byte :: "char \<Rightarrow> nat" where
  "byte c = of_char c"

definition ascii_space :: "nat \<Rightarrow> bool" where
  "ascii_space b \<longleftrightarrow> 9 \<le> b \<and> b \<le> 13 \<or> b = 32"

definition space2 :: "nat \<Rightarrow> nat \<Rightarrow> bool" where
  "space2 a b \<longleftrightarrow> a = 194 \<and> (b = 133 \<or> b = 160)"

definition space3 :: "nat \<Rightarrow> nat \<Rightarrow> nat \<Rightarrow> bool" where
  "space3 a b c \<longleftrightarrow>
     a = 225 \<and> b = 154 \<and> c = 128 \<or>
     a = 226 \<and> b = 128 \<and> (128 \<le> c \<and> c \<le> 138 \<or> c = 168 \<or> c = 169 \<or> c = 175) \<or>
     a = 226 \<and> b = 129 \<and> c = 159 \<or>
     a = 227 \<and> b = 128 \<and> c = 128"

function trim_left_space :: "string \<Rightarrow> string" where
  "trim_left_space s =
     (if s \<noteq> [] \<and> ascii_space (byte (s ! 0)) then trim_left_space (drop 1 s)
      else if 2 \<le> length s \<and> space2 (byte (s ! 0)) (byte (s ! 1)) then trim_left_space (drop 2 s)
      else if 3 \<le> length s \<and> space3 (byte (s ! 0)) (byte (s ! 1)) (byte (s ! 2))
        then trim_left_space (drop 3 s)
      else s)"
  by pat_completeness auto
termination
  by (relation "measure length") auto

declare trim_left_space.simps [simp del]

definition blank :: "string \<Rightarrow> bool" where
  "blank s \<longleftrightarrow> trim_left_space s = []"

lemma blank_empty [simp]: "blank []"
  by (simp add: blank_def trim_left_space.simps)

lemma not_blank_Cons:
  "33 \<le> byte c \<Longrightarrow> byte c < 128 \<Longrightarrow> \<not> blank (c # s)"
  by (simp add: blank_def trim_left_space.simps [of "c # s"] ascii_space_def space2_def space3_def)

text \<open>
  A separator that the left part does not contain splits a string in one way only. The repositories
  build the keys of their maps like that, with a NUL byte.
\<close>

lemma separator_inject:
  assumes "x @ c # y = x' @ c # y'" and "c \<notin> set x" and "c \<notin> set x'"
  shows "x = x' \<and> y = y'"
  using assms
proof (induction x arbitrary: x')
  case Nil
  then show ?case by (cases x') auto
next
  case (Cons a x)
  then show ?case by (cases x') auto
qed

section \<open>Finite maps\<close>

text \<open>Reading a Go map of numbers: an absent key reads as zero.\<close>

definition fmget :: "('k, 'v::zero) fmap \<Rightarrow> 'k \<Rightarrow> 'v" where
  "fmget m k = (case fmlookup m k of None \<Rightarrow> 0 | Some v \<Rightarrow> v)"

text \<open>Reading a Go map of slices: an absent key reads as the empty slice.\<close>

definition fmlist :: "('k, 'v list) fmap \<Rightarrow> 'k \<Rightarrow> 'v list" where
  "fmlist m k = (case fmlookup m k of None \<Rightarrow> [] | Some vs \<Rightarrow> vs)"

text \<open>The values of a map, in key order.\<close>

definition fmvals :: "('k::linorder, 'v) fmap \<Rightarrow> 'v list" where
  "fmvals m = map snd (sorted_list_of_fmap m)"

lemma fmget_upd [simp]: "fmget (fmupd k v m) k' = (if k' = k then v else fmget m k')"
  by (simp add: fmget_def)

lemma fmlist_upd [simp]: "fmlist (fmupd k v m) k' = (if k' = k then v else fmlist m k')"
  by (simp add: fmlist_def)

lemma fmget_empty [simp]: "fmget fmempty k = 0"
  by (simp add: fmget_def)

lemma fmlist_empty [simp]: "fmlist fmempty k = []"
  by (simp add: fmlist_def)

lemma fmap_of_sorted_list [simp]: "fmap_of_list (sorted_list_of_fmap m) = m"
proof (rule fmap_ext)
  fix k
  have "map_of (map (\<lambda>k. (k, the (fmlookup m k))) (sorted_list_of_fset (fmdom m))) k = fmlookup m k"
    by (cases "fmlookup m k") (auto simp: map_of_map_restrict restrict_map_def fmdomI fmdom_notI)
  then show "fmlookup (fmap_of_list (sorted_list_of_fmap m)) k = fmlookup m k"
    by (simp add: fmap_of_list.rep_eq sorted_list_of_fmap_def)
qed

lemma set_sorted_list_of_fmap:
  "(k, v) \<in> set (sorted_list_of_fmap m) \<longleftrightarrow> fmlookup m k = Some v"
  by (auto simp: sorted_list_of_fmap_def fmlookup_dom_iff)

lemma map_fst_sorted_list_of_fmap:
  "map fst (sorted_list_of_fmap m) = sorted_list_of_fset (fmdom m)"
  by (simp add: sorted_list_of_fmap_def comp_def)

lemma distinct_sorted_list_of_fmap: "distinct (map fst (sorted_list_of_fmap m))"
  by (simp add: map_fst_sorted_list_of_fmap sorted_list_of_fset.rep_eq)

lemma sorted_sorted_list_of_fmap: "sorted (map fst (sorted_list_of_fmap m))"
  by (simp add: map_fst_sorted_list_of_fmap sorted_list_of_fset.rep_eq)

lemma set_fmvals: "v \<in> set (fmvals m) \<longleftrightarrow> (\<exists>k. fmlookup m k = Some v)"
proof -
  have "v \<in> set (fmvals m) \<longleftrightarrow> (\<exists>k. (k, v) \<in> set (sorted_list_of_fmap m))"
    by (force simp: fmvals_def)
  then show ?thesis by (simp add: set_sorted_list_of_fmap)
qed

lemma fmvals_empty [simp]: "fmvals fmempty = []"
  by (simp add: fmvals_def sorted_list_of_fmap_def sorted_list_of_fset.rep_eq)

text \<open>Where every value carries its own key, the values are enumerated in the order of the keys.\<close>

lemma map_key_fmvals:
  assumes "\<And>k v. fmlookup m k = Some v \<Longrightarrow> key v = k"
  shows "map key (fmvals m) = sorted_list_of_fset (fmdom m)"
proof -
  have "map (key \<circ> snd) (sorted_list_of_fmap m) = map fst (sorted_list_of_fmap m)"
    using assms by (auto simp: set_sorted_list_of_fmap)
  then show ?thesis by (simp add: fmvals_def map_fst_sorted_list_of_fmap)
qed

lemma sort_key_fmvals:
  assumes "\<And>k v. fmlookup m k = Some v \<Longrightarrow> key v = k"
  shows "sort_key key (fmvals m) = fmvals m"
  by (rule sort_key_id_if_sorted)
    (simp add: map_key_fmvals [OF assms] sorted_list_of_fset.rep_eq)

text \<open>
  The loader's loop: every element is stored under its key, and a key stored twice is refused. Over
  the values of a map it rebuilds the map. \<open>mk\<close> is the state seen as a function of the field
  being filled.
\<close>

lemma fold_res_load:
  assumes "distinct (map key xs)" and "\<forall>x \<in> set xs. key x |\<notin>| fmdom m"
    and "\<And>x m'. x \<in> set xs \<Longrightarrow> key x |\<notin>| fmdom m' \<Longrightarrow> f x (mk m') = Inr (mk (fmupd (key x) (val x) m'))"
  shows "fold_res f xs (mk m) = Inr (mk (m ++\<^sub>f fmap_of_list (map (\<lambda>x. (key x, val x)) xs)))"
  using assms
proof (induction xs arbitrary: m)
  case (Cons x xs)
  have "fold_res f xs (mk (fmupd (key x) (val x) m)) =
      Inr (mk (fmupd (key x) (val x) m ++\<^sub>f fmap_of_list (map (\<lambda>x. (key x, val x)) xs)))"
    using Cons.prems by (intro Cons.IH) (auto simp: image_iff)
  moreover have "fmupd (key x) (val x) m ++\<^sub>f fmap_of_list (map (\<lambda>x. (key x, val x)) xs)
      = m ++\<^sub>f fmap_of_list (map (\<lambda>x. (key x, val x)) (x # xs))"
    using Cons.prems(1)
    by (intro fmap_ext) (auto simp: fmap_of_list.rep_eq map_of_eq_None_iff fset_of_list_elem)
  ultimately show ?case using Cons.prems by simp
qed simp

lemma fold_res_load_fmvals:
  assumes "\<And>k v. fmlookup m k = Some v \<Longrightarrow> key v = k"
    and "\<And>k v m'. fmlookup m k = Some v \<Longrightarrow> k |\<notin>| fmdom m' \<Longrightarrow> f v (mk m') = Inr (mk (fmupd k v m'))"
  shows "fold_res f (fmvals m) (mk fmempty) = Inr (mk m)"
proof -
  have "map (\<lambda>v. (key v, v)) (fmvals m) = sorted_list_of_fmap m"
    unfolding fmvals_def map_map
    by (rule map_idI) (use assms(1) in \<open>auto simp: set_sorted_list_of_fmap\<close>)
  moreover have "distinct (map key (fmvals m))"
    by (simp add: map_key_fmvals [OF assms(1)] sorted_list_of_fset.rep_eq)
  ultimately show ?thesis
    using fold_res_load [of key "fmvals m" fmempty f mk "\<lambda>v. v"] assms
    by (simp add: set_fmvals) blast
qed

lemma fold_res_load_fmap:
  assumes "\<And>k v m'. fmlookup m k = Some v \<Longrightarrow> k |\<notin>| fmdom m' \<Longrightarrow> f (k, v) (mk m') = Inr (mk (fmupd k v m'))"
  shows "fold_res f (sorted_list_of_fmap m) (mk fmempty) = Inr (mk m)"
  using fold_res_load [of fst "sorted_list_of_fmap m" fmempty f mk snd]
    distinct_sorted_list_of_fmap [of m] assms
  by (auto simp: set_sorted_list_of_fmap)

end
