(* ===== verification/Lifecycle_Model.thy ===== *)
theory Lifecycle_Model
  imports Go_Prelude
begin

text \<open>
  The values of the sandbox lifecycle, \<^verbatim>\<open>src/provider/lifecycle/model.go\<close>: the state
  enumerations, the records and the validation of each. A Go string type with constants is a
  datatype with one constructor per constant and one more (\<open>...Unknown\<close>) for every other string, so
  that the \<open>valid\<close> methods say what the code's say.
\<close>

section \<open>Bounded identifiers\<close>

definition MaxIdentifierLength :: nat where
  "MaxIdentifierLength = 200"

definition MaxSlotKeyLength :: nat where
  "MaxSlotKeyLength = 128"

definition BrowserRuntimeProfile :: string where
  "BrowserRuntimeProfile = ''sandbox-runtime-browser-v1''"

definition DesktopRuntimeProfile :: string where
  "DesktopRuntimeProfile = ''sandbox-runtime-desktop-v1''"

definition digit :: "char \<Rightarrow> bool" where
  "digit c \<longleftrightarrow> 48 \<le> byte c \<and> byte c \<le> 57"

definition lower :: "char \<Rightarrow> bool" where
  "lower c \<longleftrightarrow> 97 \<le> byte c \<and> byte c \<le> 122"

definition upper :: "char \<Rightarrow> bool" where
  "upper c \<longleftrightarrow> 65 \<le> byte c \<and> byte c \<le> 90"

definition hex_digit :: "char \<Rightarrow> bool" where
  "hex_digit c \<longleftrightarrow> digit c \<or> 97 \<le> byte c \<and> byte c \<le> 102"

text \<open>The three patterns of the package, as predicates on the whole string.\<close>

definition identifier_char :: "char \<Rightarrow> bool" where
  "identifier_char c \<longleftrightarrow> upper c \<or> lower c \<or> digit c \<or> c \<in> set ''._:-''"

definition identifierPattern :: "string \<Rightarrow> bool" where
  "identifierPattern s \<longleftrightarrow>
     (case s of [] \<Rightarrow> False
      | c # cs \<Rightarrow> (upper c \<or> lower c \<or> digit c) \<and> length cs \<le> 199 \<and> list_all identifier_char cs)"

definition slotKeyPattern :: "string \<Rightarrow> bool" where
  "slotKeyPattern s \<longleftrightarrow>
     (case s of [] \<Rightarrow> False
      | c # cs \<Rightarrow> (lower c \<or> digit c) \<and> length cs \<le> 127 \<and>
          list_all (\<lambda>d. lower d \<or> digit d \<or> d \<in> set ''/_-'') cs)"

definition digestPattern :: "string \<Rightarrow> bool" where
  "digestPattern s \<longleftrightarrow>
     take 7 s = ''sha256:'' \<and> length s = 71 \<and> list_all hex_digit (drop 7 s)"

definition ValidateIdentifier :: "string \<Rightarrow> error option" where
  "ValidateIdentifier v = fail_if (\<not> identifierPattern v) [ErrInvalidIdentifier]"

definition ValidateSlotKey :: "string \<Rightarrow> error option" where
  "ValidateSlotKey v =
     fail_if (\<not> slotKeyPattern v \<or> length v > MaxSlotKeyLength) [ErrInvalidIdentifier]"

definition ValidateDigest :: "string \<Rightarrow> error option" where
  "ValidateDigest v = fail_if (\<not> digestPattern v) [ErrInvalidDigest]"

definition ValidateDeadline :: "time \<Rightarrow> time \<Rightarrow> error option" where
  "ValidateDeadline now deadline = first_err
     [fail_if (is_zero_time now \<or> is_zero_time deadline) [ErrInvalidDeadline],
      fail_if (\<not> now < deadline) [ErrDeadlineExpired]]"

definition CheckDeadline :: "time \<Rightarrow> time \<Rightarrow> error option" where
  "CheckDeadline now deadline = ValidateDeadline now deadline"

section \<open>State enumerations\<close>

datatype DesiredState = DesiredReady | DesiredSuspended | DesiredTerminated | DesiredUnknown string

definition DesiredState_valid :: "DesiredState \<Rightarrow> bool" where
  "DesiredState_valid s \<longleftrightarrow> s = DesiredReady \<or> s = DesiredSuspended \<or> s = DesiredTerminated"

datatype ObservedState =
    ObservedRequested | ObservedProvisioning | ObservedReady | ObservedSuspending
  | ObservedSuspended | ObservedResuming | ObservedTerminating | ObservedTerminated
  | ObservedExpired | ObservedFailed | ObservedUnknown string

fun ObservedState_valid :: "ObservedState \<Rightarrow> bool" where
  "ObservedState_valid (ObservedUnknown _) = False"
| "ObservedState_valid _ = True"

definition ObservedState_terminal :: "ObservedState \<Rightarrow> bool" where
  "ObservedState_terminal s \<longleftrightarrow> s = ObservedTerminated \<or> s = ObservedExpired"

datatype OperationType =
    OperationCreate | OperationExtendLease | OperationSuspend | OperationResume
  | OperationTerminate | OperationTypeUnknown string

fun OperationType_valid :: "OperationType \<Rightarrow> bool" where
  "OperationType_valid (OperationTypeUnknown _) = False"
| "OperationType_valid _ = True"

datatype OperationState =
    OperationAccepted | OperationRunning | OperationSucceeded | OperationFailed
  | OperationCancelled | OperationOutcomeUnknown | OperationStateUnknown string

fun OperationState_valid :: "OperationState \<Rightarrow> bool" where
  "OperationState_valid (OperationStateUnknown _) = False"
| "OperationState_valid _ = True"

definition OperationState_terminal :: "OperationState \<Rightarrow> bool" where
  "OperationState_terminal s \<longleftrightarrow>
     s = OperationSucceeded \<or> s = OperationFailed \<or> s = OperationCancelled \<or>
     s = OperationOutcomeUnknown"

datatype FailureOutcome = FailureKnown | FailureUnknown | FailureOutcomeOther string

definition FailureOutcome_valid :: "FailureOutcome \<Rightarrow> bool" where
  "FailureOutcome_valid f \<longleftrightarrow> f = FailureKnown \<or> f = FailureUnknown"

datatype NetworkMode = NetworkUnset | NetworkNone | NetworkRestricted | NetworkModeUnknown string

section \<open>Records\<close>

record Failure =
  fl_Code :: string
  fl_Retryable :: bool
  fl_Outcome :: FailureOutcome

record Lease =
  ls_SandboxID :: string
  ls_ExpiresAt :: time
  ls_Generation :: u64
  ls_FencingToken :: u64

record Event =
  ev_ID :: string
  ev_SandboxID :: string
  ev_OperationID :: string
  ev_Sequence :: u64
  ev_Generation :: u64
  ev_FencingToken :: u64
  ev_Kind :: string
  ev_DataDigest :: string
  ev_OccurredAt :: time

record NetworkPolicy =
  np_Mode :: NetworkMode
  np_PolicyReference :: string
  np_EgressGatewayRequired :: bool

record SandboxSpec =
  sp_SandboxID :: string
  sp_TenantID :: string
  sp_WorkOrderID :: string
  sp_WorkspaceID :: string
  sp_ProviderRevisionID :: string
  sp_RuntimeProfile :: string
  sp_Network :: NetworkPolicy
  sp_SandboxSlotKey :: string
  sp_LeaseExpiresAt :: time

record CreateRequest =
  cr_OperationID :: string
  cr_AttemptID :: string
  cr_FencingToken :: u64
  cr_IdempotencyKey :: string
  cr_RequestDigest :: string
  cr_Deadline :: time
  cr_Spec :: SandboxSpec

record MutationRequest =
  mr_OperationID :: string
  mr_AttemptID :: string
  mr_FencingToken :: u64
  mr_IdempotencyKey :: string
  mr_RequestDigest :: string
  mr_Deadline :: time
  mr_ExpectedGeneration :: u64

record DesiredStateRequest = MutationRequest +
  dr_DesiredState :: DesiredState

record LeaseRequest = MutationRequest +
  lr_ExtendSeconds :: int

record TerminateRequest = MutationRequest +
  tr_Reason :: string

record Sandbox =
  sb_ID :: string
  sb_TenantID :: string
  sb_WorkOrderID :: string
  sb_WorkspaceID :: string
  sb_ProviderRevisionID :: string
  sb_RuntimeProfile :: string
  sb_Network :: NetworkPolicy
  sb_SandboxSlotKey :: string
  sb_DesiredState :: DesiredState
  sb_ObservedState :: ObservedState
  sb_Generation :: u64
  sb_ObservedGeneration :: u64
  sb_LeaseExpiresAt :: time
  sb_CreatedAt :: time
  sb_UpdatedAt :: time

record Operation =
  op_ID :: string
  op_AttemptID :: string
  op_FencingToken :: u64
  op_SandboxID :: string
  op_Type :: OperationType
  op_State :: OperationState
  op_Deadline :: time
  op_ObservedAt :: time
  op_CancelRequested :: bool
  op_Failure :: "Failure option"
  op_IdempotencyKey :: string
  op_RequestDigest :: string

section \<open>Validation\<close>

definition Lease_Validate :: "Lease \<Rightarrow> error option" where
  "Lease_Validate l = first_err
     [ValidateIdentifier (ls_SandboxID l),
      fail_if (is_zero_time (ls_ExpiresAt l) \<or> ls_Generation l = 0 \<or> ls_FencingToken l = 0)
        [ErrInvalidLease]]"

definition Event_Validate :: "Event \<Rightarrow> error option" where
  "Event_Validate e = first_err
     [ValidateIdentifier (ev_ID e),
      ValidateIdentifier (ev_SandboxID e),
      ValidateIdentifier (ev_OperationID e),
      ValidateIdentifier (ev_Kind e),
      fail_if (ev_Generation e = 0 \<or> ev_FencingToken e = 0 \<or> is_zero_time (ev_OccurredAt e))
        [ErrInvalidSpec],
      if ev_DataDigest e \<noteq> [] then ValidateDigest (ev_DataDigest e) else None]"

definition NetworkPolicy_Validate :: "NetworkPolicy \<Rightarrow> string \<Rightarrow> error option" where
  "NetworkPolicy_Validate p runtimeProfile =
     (case np_Mode p of
        NetworkUnset \<Rightarrow>
          fail_if (np_PolicyReference p \<noteq> [] \<or> np_EgressGatewayRequired p \<or>
              runtimeProfile = BrowserRuntimeProfile \<or> runtimeProfile = DesktopRuntimeProfile)
            [ErrInvalidSpec]
      | NetworkNone \<Rightarrow>
          fail_if (np_PolicyReference p \<noteq> [] \<or> np_EgressGatewayRequired p \<or>
              runtimeProfile = BrowserRuntimeProfile \<or> runtimeProfile = DesktopRuntimeProfile)
            [ErrInvalidSpec]
      | NetworkRestricted \<Rightarrow>
          fail_if (runtimeProfile \<noteq> BrowserRuntimeProfile \<and> runtimeProfile \<noteq> DesktopRuntimeProfile \<or>
              \<not> np_EgressGatewayRequired p \<or> ValidateIdentifier (np_PolicyReference p) \<noteq> None)
            [ErrInvalidSpec]
      | NetworkModeUnknown _ \<Rightarrow> Some [ErrInvalidSpec])"

text \<open>
  The identifier fields of a specification and of a sandbox are checked in the order of a Go map
  range; every failure wraps the same two sentinels, so the order is immaterial.
\<close>

definition spec_identifier :: "string \<Rightarrow> error option" where
  "spec_identifier v = map_option (\<lambda>e. ErrInvalidSpec # e) (ValidateIdentifier v)"

definition SandboxSpec_Validate :: "SandboxSpec \<Rightarrow> time \<Rightarrow> error option" where
  "SandboxSpec_Validate s now = first_err
     [fail_if (is_zero_time now) [ErrInvalidSpec],
      spec_identifier (sp_SandboxID s),
      spec_identifier (sp_TenantID s),
      spec_identifier (sp_WorkOrderID s),
      spec_identifier (sp_WorkspaceID s),
      spec_identifier (sp_ProviderRevisionID s),
      spec_identifier (sp_RuntimeProfile s),
      map_option (\<lambda>e. ErrInvalidSpec # e) (ValidateSlotKey (sp_SandboxSlotKey s)),
      NetworkPolicy_Validate (sp_Network s) (sp_RuntimeProfile s),
      fail_if (is_zero_time (sp_LeaseExpiresAt s) \<or> \<not> now < sp_LeaseExpiresAt s)
        [ErrInvalidSpec]]"

definition MutationRequest_Validate :: "'a MutationRequest_scheme \<Rightarrow> time \<Rightarrow> error option" where
  "MutationRequest_Validate r now = first_err
     [spec_identifier (mr_OperationID r),
      spec_identifier (mr_AttemptID r),
      fail_if (mr_FencingToken r = 0 \<or> mr_ExpectedGeneration r = 0) [ErrInvalidSpec],
      fail_if (blank (mr_IdempotencyKey r) \<or> length (mr_IdempotencyKey r) > MaxIdentifierLength)
        [ErrInvalidSpec],
      map_option (\<lambda>e. ErrInvalidSpec # e) (ValidateDigest (mr_RequestDigest r)),
      map_option (\<lambda>e. ErrInvalidSpec # e) (ValidateDeadline now (mr_Deadline r))]"

definition DesiredStateRequest_Validate :: "DesiredStateRequest \<Rightarrow> time \<Rightarrow> error option" where
  "DesiredStateRequest_Validate r now = first_err
     [MutationRequest_Validate r now,
      fail_if (dr_DesiredState r \<noteq> DesiredReady \<and> dr_DesiredState r \<noteq> DesiredSuspended)
        [ErrInvalidState]]"

definition LeaseRequest_Validate :: "LeaseRequest \<Rightarrow> time \<Rightarrow> int \<Rightarrow> error option" where
  "LeaseRequest_Validate r now maxLeaseSeconds = first_err
     [MutationRequest_Validate r now,
      fail_if (lr_ExtendSeconds r \<le> 0 \<or> maxLeaseSeconds \<le> 0 \<or> lr_ExtendSeconds r > maxLeaseSeconds)
        [ErrInvalidLease]]"

definition TerminateRequest_Validate :: "TerminateRequest \<Rightarrow> time \<Rightarrow> error option" where
  "TerminateRequest_Validate r now = first_err
     [MutationRequest_Validate r now,
      fail_if (blank (tr_Reason r) \<or> length (tr_Reason r) > 256) [ErrInvalidSpec]]"

definition CreateRequest_Validate :: "CreateRequest \<Rightarrow> time \<Rightarrow> error option" where
  "CreateRequest_Validate r now = first_err
     [spec_identifier (cr_OperationID r),
      spec_identifier (cr_AttemptID r),
      fail_if (cr_FencingToken r = 0) [ErrInvalidSpec],
      fail_if (blank (cr_IdempotencyKey r) \<or> length (cr_IdempotencyKey r) > MaxIdentifierLength)
        [ErrInvalidSpec],
      map_option (\<lambda>e. ErrInvalidSpec # e) (ValidateDigest (cr_RequestDigest r)),
      map_option (\<lambda>e. ErrInvalidSpec # e) (ValidateDeadline now (cr_Deadline r)),
      SandboxSpec_Validate (cr_Spec r) now]"

definition Sandbox_Validate :: "Sandbox \<Rightarrow> error option" where
  "Sandbox_Validate s = first_err
     [spec_identifier (sb_ID s),
      spec_identifier (sb_TenantID s),
      spec_identifier (sb_WorkOrderID s),
      spec_identifier (sb_WorkspaceID s),
      spec_identifier (sb_ProviderRevisionID s),
      spec_identifier (sb_RuntimeProfile s),
      map_option (\<lambda>e. ErrInvalidSpec # e) (ValidateSlotKey (sb_SandboxSlotKey s)),
      NetworkPolicy_Validate (sb_Network s) (sb_RuntimeProfile s),
      fail_if (\<not> DesiredState_valid (sb_DesiredState s) \<or> \<not> ObservedState_valid (sb_ObservedState s))
        [ErrInvalidState],
      fail_if (sb_Generation s = 0 \<or> sb_Generation s < sb_ObservedGeneration s)
        [ErrGenerationConflict],
      fail_if (is_zero_time (sb_LeaseExpiresAt s) \<or> is_zero_time (sb_CreatedAt s) \<or>
          is_zero_time (sb_UpdatedAt s)) [ErrInvalidSpec],
      fail_if (sb_UpdatedAt s < sb_CreatedAt s) [ErrInvalidSpec]]"

definition Operation_Validate :: "Operation \<Rightarrow> error option" where
  "Operation_Validate p = first_err
     [ValidateIdentifier (op_ID p),
      ValidateIdentifier (op_AttemptID p),
      ValidateIdentifier (op_SandboxID p),
      fail_if (op_FencingToken p = 0 \<or> \<not> OperationType_valid (op_Type p) \<or>
          \<not> OperationState_valid (op_State p) \<or> is_zero_time (op_Deadline p) \<or>
          is_zero_time (op_ObservedAt p)) [ErrInvalidSpec],
      fail_if ((op_IdempotencyKey p = []) \<noteq> (op_RequestDigest p = [])) [ErrInvalidSpec],
      fail_if (op_IdempotencyKey p \<noteq> [] \<and>
          (blank (op_IdempotencyKey p) \<or> length (op_IdempotencyKey p) > MaxIdentifierLength \<or>
           ValidateDigest (op_RequestDigest p) \<noteq> None)) [ErrInvalidSpec],
      fail_if (op_State p = OperationFailed \<and>
          (case op_Failure p of None \<Rightarrow> True | Some f \<Rightarrow> fl_Outcome f \<noteq> FailureKnown))
        [ErrInvalidSpec],
      fail_if (op_State p = OperationOutcomeUnknown \<and>
          (case op_Failure p of None \<Rightarrow> True | Some f \<Rightarrow> fl_Outcome f \<noteq> FailureUnknown))
        [ErrInvalidSpec],
      fail_if (case op_Failure p of None \<Rightarrow> False
          | Some f \<Rightarrow> \<not> FailureOutcome_valid (fl_Outcome f) \<or> blank (fl_Code f) \<or>
              length (fl_Code f) > 64) [ErrInvalidSpec],
      fail_if (op_Failure p \<noteq> None \<and> op_State p \<noteq> OperationFailed \<and>
          op_State p \<noteq> OperationOutcomeUnknown) [ErrInvalidSpec]]"

section \<open>What validation means\<close>

lemma ValidateIdentifier_None [val_simps]:
  "ValidateIdentifier v = None \<longleftrightarrow> identifierPattern v"
  by (simp add: ValidateIdentifier_def)

lemma spec_identifier_None [val_simps]: "spec_identifier v = None \<longleftrightarrow> identifierPattern v"
  by (simp add: spec_identifier_def ValidateIdentifier_def)

lemma ValidateSlotKey_None [val_simps]: "ValidateSlotKey v = None \<longleftrightarrow> slotKeyPattern v"
  by (auto simp: ValidateSlotKey_def slotKeyPattern_def MaxSlotKeyLength_def split: list.splits)

lemma ValidateDigest_None [val_simps]: "ValidateDigest v = None \<longleftrightarrow> digestPattern v"
  by (simp add: ValidateDigest_def)

lemma ValidateDeadline_None [val_simps]:
  "ValidateDeadline now d = None \<longleftrightarrow> now \<noteq> 0 \<and> d \<noteq> 0 \<and> now < d"
  by (auto simp: ValidateDeadline_def is_zero_time_def)

lemma pattern_Nil [simp]: "\<not> identifierPattern []" "\<not> digestPattern []"
  by (simp_all add: identifierPattern_def digestPattern_def)

lemma identifier_nonempty: "identifierPattern v \<Longrightarrow> v \<noteq> []"
  by (auto simp: identifierPattern_def)

lemma identifier_length: "identifierPattern v \<Longrightarrow> length v \<le> MaxIdentifierLength"
  by (auto simp: identifierPattern_def MaxIdentifierLength_def split: list.splits)

lemma identifier_chars: "identifierPattern v \<Longrightarrow> c \<in> set v \<Longrightarrow> identifier_char c"
  by (auto simp: identifierPattern_def identifier_char_def list_all_iff split: list.splits)

text \<open>No identifier contains a NUL byte, which is what makes the scope keys unambiguous.\<close>

lemma identifier_no_NUL: "identifierPattern v \<Longrightarrow> CHR 0x00 \<notin> set v"
  by (auto dest!: identifier_chars [where c = "CHR 0x00"]
      simp: identifier_char_def upper_def lower_def digit_def byte_def)

lemma identifier_not_blank: "identifierPattern v \<Longrightarrow> \<not> blank v"
  using not_blank_Cons
  by (auto simp: identifierPattern_def upper_def lower_def digit_def split: list.splits)

lemma digest_nonempty: "digestPattern v \<Longrightarrow> v \<noteq> []"
  by (auto simp: digestPattern_def)

lemma ObservedState_terminal_simps [simp]:
  "ObservedState_terminal ObservedTerminated" "ObservedState_terminal ObservedExpired"
  by (simp_all add: ObservedState_terminal_def)

lemma Sandbox_Validate_None [val_simps]:
  "Sandbox_Validate s = None \<longleftrightarrow>
     identifierPattern (sb_ID s) \<and> identifierPattern (sb_TenantID s) \<and>
     identifierPattern (sb_WorkOrderID s) \<and> identifierPattern (sb_WorkspaceID s) \<and>
     identifierPattern (sb_ProviderRevisionID s) \<and> identifierPattern (sb_RuntimeProfile s) \<and>
     slotKeyPattern (sb_SandboxSlotKey s) \<and>
     NetworkPolicy_Validate (sb_Network s) (sb_RuntimeProfile s) = None \<and>
     DesiredState_valid (sb_DesiredState s) \<and> ObservedState_valid (sb_ObservedState s) \<and>
     sb_Generation s \<noteq> 0 \<and> sb_ObservedGeneration s \<le> sb_Generation s \<and>
     sb_LeaseExpiresAt s \<noteq> 0 \<and> sb_CreatedAt s \<noteq> 0 \<and> sb_UpdatedAt s \<noteq> 0 \<and>
     sb_CreatedAt s \<le> sb_UpdatedAt s"
  unfolding Sandbox_Validate_def first_err_None
  by (simp add: val_simps is_zero_time_def not_less)

lemma Lease_Validate_None [val_simps]:
  "Lease_Validate l = None \<longleftrightarrow>
     identifierPattern (ls_SandboxID l) \<and> ls_ExpiresAt l \<noteq> 0 \<and> ls_Generation l \<noteq> 0 \<and>
     ls_FencingToken l \<noteq> 0"
  unfolding Lease_Validate_def first_err_None by (simp add: val_simps is_zero_time_def)

lemma Event_Validate_None [val_simps]:
  "Event_Validate e = None \<longleftrightarrow>
     identifierPattern (ev_ID e) \<and> identifierPattern (ev_SandboxID e) \<and>
     identifierPattern (ev_OperationID e) \<and> identifierPattern (ev_Kind e) \<and>
     ev_Generation e \<noteq> 0 \<and> ev_FencingToken e \<noteq> 0 \<and> ev_OccurredAt e \<noteq> 0 \<and>
     (ev_DataDigest e = [] \<or> digestPattern (ev_DataDigest e))"
  unfolding Event_Validate_def first_err_None by (simp add: val_simps is_zero_time_def)

text \<open>
  The failure that a valid operation carries: exactly the failed and the unknown outcomes carry one,
  and it says which of the two it is.
\<close>

definition failure_ok :: "OperationState \<Rightarrow> Failure option \<Rightarrow> bool" where
  "failure_ok st f \<longleftrightarrow>
     (case f of
        None \<Rightarrow> st \<noteq> OperationFailed \<and> st \<noteq> OperationOutcomeUnknown
      | Some x \<Rightarrow> \<not> blank (fl_Code x) \<and> length (fl_Code x) \<le> 64 \<and>
          (st = OperationFailed \<and> fl_Outcome x = FailureKnown \<or>
           st = OperationOutcomeUnknown \<and> fl_Outcome x = FailureUnknown))"

definition idempotency_ok :: "string \<Rightarrow> string \<Rightarrow> bool" where
  "idempotency_ok key digest \<longleftrightarrow>
     key = [] \<and> digest = [] \<or>
     \<not> blank key \<and> length key \<le> MaxIdentifierLength \<and> digestPattern digest"

lemma Operation_Validate_None [val_simps]:
  "Operation_Validate p = None \<longleftrightarrow>
     identifierPattern (op_ID p) \<and> identifierPattern (op_AttemptID p) \<and>
     identifierPattern (op_SandboxID p) \<and> op_FencingToken p \<noteq> 0 \<and>
     OperationType_valid (op_Type p) \<and> OperationState_valid (op_State p) \<and>
     op_Deadline p \<noteq> 0 \<and> op_ObservedAt p \<noteq> 0 \<and>
     idempotency_ok (op_IdempotencyKey p) (op_RequestDigest p) \<and>
     failure_ok (op_State p) (op_Failure p)"
  unfolding Operation_Validate_def first_err_None
  by (auto simp: val_simps is_zero_time_def failure_ok_def idempotency_ok_def FailureOutcome_valid_def
      not_less dest: digest_nonempty split: option.splits)

lemma MutationRequest_Validate_None [val_simps]:
  "MutationRequest_Validate r now = None \<longleftrightarrow>
     identifierPattern (mr_OperationID r) \<and> identifierPattern (mr_AttemptID r) \<and>
     mr_FencingToken r \<noteq> 0 \<and> mr_ExpectedGeneration r \<noteq> 0 \<and> \<not> blank (mr_IdempotencyKey r) \<and>
     length (mr_IdempotencyKey r) \<le> MaxIdentifierLength \<and> digestPattern (mr_RequestDigest r) \<and>
     now \<noteq> 0 \<and> mr_Deadline r \<noteq> 0 \<and> now < mr_Deadline r"
  unfolding MutationRequest_Validate_def first_err_None by (simp add: val_simps not_less)

lemma SandboxSpec_Validate_None [val_simps]:
  "SandboxSpec_Validate s now = None \<longleftrightarrow>
     now \<noteq> 0 \<and> identifierPattern (sp_SandboxID s) \<and> identifierPattern (sp_TenantID s) \<and>
     identifierPattern (sp_WorkOrderID s) \<and> identifierPattern (sp_WorkspaceID s) \<and>
     identifierPattern (sp_ProviderRevisionID s) \<and> identifierPattern (sp_RuntimeProfile s) \<and>
     slotKeyPattern (sp_SandboxSlotKey s) \<and>
     NetworkPolicy_Validate (sp_Network s) (sp_RuntimeProfile s) = None \<and>
     sp_LeaseExpiresAt s \<noteq> 0 \<and> now < sp_LeaseExpiresAt s"
  unfolding SandboxSpec_Validate_def first_err_None
  by (simp add: val_simps is_zero_time_def)

lemma CreateRequest_Validate_None [val_simps]:
  "CreateRequest_Validate r now = None \<longleftrightarrow>
     identifierPattern (cr_OperationID r) \<and> identifierPattern (cr_AttemptID r) \<and>
     cr_FencingToken r \<noteq> 0 \<and> \<not> blank (cr_IdempotencyKey r) \<and>
     length (cr_IdempotencyKey r) \<le> MaxIdentifierLength \<and> digestPattern (cr_RequestDigest r) \<and>
     now \<noteq> 0 \<and> cr_Deadline r \<noteq> 0 \<and> now < cr_Deadline r \<and>
     SandboxSpec_Validate (cr_Spec r) now = None"
  unfolding CreateRequest_Validate_def first_err_None by (simp add: val_simps not_less)

end
