(* ===== verification/Lifecycle_Samples.thy ===== *)
theory Lifecycle_Samples
  imports Lifecycle_Model
begin

text \<open>
  Concrete requests and records, at which the witnesses of the lifecycle theorems evaluate them, and
  the equations that evaluate the string patterns.
\<close>

lemmas pattern_eval = identifierPattern_def slotKeyPattern_def identifier_char_def upper_def
  lower_def digit_def hex_digit_def byte_def

definition digest1 :: string where
  "digest1 = ''sha256:'' @ replicate 64 (CHR ''a'')"

definition spec1 :: SandboxSpec where
  "spec1 = \<lparr>sp_SandboxID = ''sbx'', sp_TenantID = ''t'', sp_WorkOrderID = ''w'',
     sp_WorkspaceID = ''ws'', sp_ProviderRevisionID = ''rev'', sp_RuntimeProfile = ''shell'',
     sp_Network = \<lparr>np_Mode = NetworkNone, np_PolicyReference = [], np_EgressGatewayRequired = False\<rparr>,
     sp_SandboxSlotKey = ''slot'', sp_LeaseExpiresAt = 9000000000\<rparr>"

definition create1 :: CreateRequest where
  "create1 = \<lparr>cr_OperationID = ''op1'', cr_AttemptID = ''at1'', cr_FencingToken = 1,
     cr_IdempotencyKey = ''key1'', cr_RequestDigest = digest1, cr_Deadline = 5000,
     cr_Spec = spec1\<rparr>"

definition sandbox1 :: Sandbox where
  "sandbox1 = \<lparr>sb_ID = ''sbx'', sb_TenantID = ''t'', sb_WorkOrderID = ''w'',
     sb_WorkspaceID = ''ws'', sb_ProviderRevisionID = ''rev'', sb_RuntimeProfile = ''shell'',
     sb_Network = \<lparr>np_Mode = NetworkNone, np_PolicyReference = [], np_EgressGatewayRequired = False\<rparr>,
     sb_SandboxSlotKey = ''slot'', sb_DesiredState = DesiredReady,
     sb_ObservedState = ObservedRequested, sb_Generation = 1, sb_ObservedGeneration = 0,
     sb_LeaseExpiresAt = 9000000000, sb_CreatedAt = 100, sb_UpdatedAt = 100\<rparr>"

definition operation1 :: Operation where
  "operation1 = \<lparr>op_ID = ''op1'', op_AttemptID = ''at1'', op_FencingToken = 1,
     op_SandboxID = ''sbx'', op_Type = OperationCreate, op_State = OperationAccepted,
     op_Deadline = 5000, op_ObservedAt = 100, op_CancelRequested = False, op_Failure = None,
     op_IdempotencyKey = [], op_RequestDigest = []\<rparr>"

definition mutation1 :: MutationRequest where
  "mutation1 = \<lparr>mr_OperationID = ''op2'', mr_AttemptID = ''at2'', mr_FencingToken = 2,
     mr_IdempotencyKey = ''key2'', mr_RequestDigest = digest1, mr_Deadline = 5000,
     mr_ExpectedGeneration = 1\<rparr>"

definition terminate1 :: TerminateRequest where
  "terminate1 = MutationRequest.extend mutation1 \<lparr>tr_Reason = ''done''\<rparr>"

definition lease1 :: LeaseRequest where
  "lease1 = MutationRequest.extend mutation1 \<lparr>lr_ExtendSeconds = 10\<rparr>"

definition event1 :: Event where
  "event1 = \<lparr>ev_ID = ''ev1'', ev_SandboxID = ''sbx'', ev_OperationID = ''op1'', ev_Sequence = 0,
     ev_Generation = 1, ev_FencingToken = 1, ev_Kind = ''provisioning'', ev_DataDigest = [],
     ev_OccurredAt = 200\<rparr>"

lemma digest1_pattern [simp]: "digestPattern digest1"
  by (simp add: pattern_eval digestPattern_def digest1_def list_all_iff)

lemma sandbox1_valid [simp]: "Sandbox_Validate sandbox1 = None"
  by (simp add: val_simps sandbox1_def pattern_eval NetworkPolicy_Validate_def DesiredState_valid_def
      BrowserRuntimeProfile_def DesktopRuntimeProfile_def)

lemma sandbox1_observed_valid [simp]:
  "ObservedState_valid n \<Longrightarrow> Sandbox_Validate (sandbox1\<lparr>sb_ObservedState := n\<rparr>) = None"
  by (simp add: val_simps sandbox1_def pattern_eval NetworkPolicy_Validate_def DesiredState_valid_def
      BrowserRuntimeProfile_def DesktopRuntimeProfile_def)

lemma create1_valid [simp]: "CreateRequest_Validate create1 100 = None"
  by (simp add: val_simps create1_def spec1_def pattern_eval NetworkPolicy_Validate_def
      BrowserRuntimeProfile_def DesktopRuntimeProfile_def MaxIdentifierLength_def not_blank_Cons)

lemma operation1_valid [simp]: "Operation_Validate operation1 = None"
  by (simp add: val_simps operation1_def pattern_eval idempotency_ok_def failure_ok_def)

lemma operation1_running_valid [simp]:
  "t \<noteq> 0 \<Longrightarrow> Operation_Validate (operation1\<lparr>op_State := OperationRunning, op_ObservedAt := t\<rparr>) = None"
  by (simp add: val_simps operation1_def pattern_eval idempotency_ok_def failure_ok_def)

lemma terminate1_valid [simp]: "TerminateRequest_Validate terminate1 200 = None"
  unfolding TerminateRequest_Validate_def first_err_None
  by (simp add: val_simps terminate1_def mutation1_def MutationRequest.defs pattern_eval
      MaxIdentifierLength_def not_blank_Cons)

lemma lease1_valid [simp]: "LeaseRequest_Validate lease1 200 3600 = None"
  unfolding LeaseRequest_Validate_def first_err_None
  by (simp add: val_simps lease1_def mutation1_def MutationRequest.defs pattern_eval
      MaxIdentifierLength_def not_blank_Cons)

lemma event1_valid [simp]: "Event_Validate event1 = None"
  by (simp add: val_simps event1_def pattern_eval)

text \<open>A termination of the sample sandbox, as the repository is asked to reserve it.\<close>

definition sandbox2 :: Sandbox where
  "sandbox2 = sandbox1\<lparr>sb_DesiredState := DesiredTerminated, sb_Generation := 2, sb_UpdatedAt := 200\<rparr>"

definition operation2 :: Operation where
  "operation2 = operation1\<lparr>op_ID := ''op2'', op_AttemptID := ''at2'', op_FencingToken := 2,
     op_Type := OperationTerminate, op_ObservedAt := 200\<rparr>"

definition event2 :: Event where
  "event2 = event1\<lparr>ev_ID := ''ev2'', ev_OperationID := ''op2'', ev_Generation := 2, ev_FencingToken := 2\<rparr>"

lemma sandbox2_valid [simp]: "Sandbox_Validate sandbox2 = None"
  by (simp add: val_simps sandbox2_def sandbox1_def pattern_eval NetworkPolicy_Validate_def
      DesiredState_valid_def BrowserRuntimeProfile_def DesktopRuntimeProfile_def)

lemma operation2_valid [simp]: "Operation_Validate operation2 = None"
  by (simp add: val_simps operation2_def operation1_def pattern_eval idempotency_ok_def failure_ok_def)

lemma event2_valid [simp]: "Event_Validate event2 = None"
  by (simp add: val_simps event2_def event1_def pattern_eval)

lemma sandbox1_fields:
  "sb_ID sandbox1 = ''sbx''" "sb_ProviderRevisionID sandbox1 = ''rev''" "sb_Generation sandbox1 = 1"
  "sb_LeaseExpiresAt sandbox1 = 9000000000" "sb_CreatedAt sandbox1 = 100" "sb_UpdatedAt sandbox1 = 100"
  by (simp_all add: sandbox1_def)

lemma sandbox2_fields:
  "sb_ID sandbox2 = ''sbx''" "sb_ProviderRevisionID sandbox2 = ''rev''" "sb_Generation sandbox2 = 2"
  "sb_LeaseExpiresAt sandbox2 = 9000000000" "sb_CreatedAt sandbox2 = 100" "sb_UpdatedAt sandbox2 = 200"
  by (simp_all add: sandbox2_def sandbox1_fields)

lemma operation1_fields:
  "op_ID operation1 = ''op1''" "op_AttemptID operation1 = ''at1''" "op_FencingToken operation1 = 1"
  "op_SandboxID operation1 = ''sbx''" "op_Type operation1 = OperationCreate"
  "op_State operation1 = OperationAccepted"
  by (simp_all add: operation1_def)

lemma operation2_fields:
  "op_ID operation2 = ''op2''" "op_AttemptID operation2 = ''at2''" "op_FencingToken operation2 = 2"
  "op_SandboxID operation2 = ''sbx''" "op_Type operation2 = OperationTerminate"
  "op_State operation2 = OperationAccepted"
  by (simp_all add: operation2_def operation1_fields)

lemma event_fields:
  "ev_ID event1 = ''ev1''" "ev_SandboxID event1 = ''sbx''" "ev_OperationID event1 = ''op1''"
  "ev_Generation event1 = 1" "ev_FencingToken event1 = 1"
  "ev_ID event2 = ''ev2''" "ev_SandboxID event2 = ''sbx''" "ev_OperationID event2 = ''op2''"
  "ev_Generation event2 = 2" "ev_FencingToken event2 = 2"
  by (simp_all add: event1_def event2_def)

lemmas sample_fields = sandbox1_fields sandbox2_fields operation1_fields operation2_fields event_fields

end
