(* ===== verification/Lifecycle_Transition.thy ===== *)
theory Lifecycle_Transition
  imports Lifecycle_Samples
begin

text \<open>
  The deterministic transitions of sandboxes and operations,
  \<^verbatim>\<open>src/provider/lifecycle/transition.go\<close>: accepting a request, observing the runtime, expiring
  a lease, fencing, and the operation's own state machine. The two step relations at the end,
  \<open>sandbox_step\<close> and \<open>operation_step\<close>, collect the transitions; their invariants are proved by
  rule induction.
\<close>

section \<open>Accepting a request\<close>

definition StartCreate :: "CreateRequest \<Rightarrow> time \<Rightarrow> error + Sandbox \<times> Operation" where
  "StartCreate request now =
     unless_err (CreateRequest_Validate request now)
      (let spec = cr_Spec request;
           sandbox = \<lparr>sb_ID = sp_SandboxID spec, sb_TenantID = sp_TenantID spec,
             sb_WorkOrderID = sp_WorkOrderID spec, sb_WorkspaceID = sp_WorkspaceID spec,
             sb_ProviderRevisionID = sp_ProviderRevisionID spec,
             sb_RuntimeProfile = sp_RuntimeProfile spec, sb_Network = sp_Network spec,
             sb_SandboxSlotKey = sp_SandboxSlotKey spec, sb_DesiredState = DesiredReady,
             sb_ObservedState = ObservedRequested, sb_Generation = 1, sb_ObservedGeneration = 0,
             sb_LeaseExpiresAt = sp_LeaseExpiresAt spec, sb_CreatedAt = now, sb_UpdatedAt = now\<rparr>;
           operation = \<lparr>op_ID = cr_OperationID request, op_AttemptID = cr_AttemptID request,
             op_FencingToken = cr_FencingToken request, op_SandboxID = sb_ID sandbox,
             op_Type = OperationCreate, op_State = OperationAccepted,
             op_Deadline = cr_Deadline request, op_ObservedAt = now, op_CancelRequested = False,
             op_Failure = None, op_IdempotencyKey = [], op_RequestDigest = []\<rparr>
       in Inr (sandbox, operation))"

definition mutationOperation ::
    "'a MutationRequest_scheme \<Rightarrow> string \<Rightarrow> OperationType \<Rightarrow> time \<Rightarrow> Operation" where
  "mutationOperation request sandboxID operationType now =
     \<lparr>op_ID = mr_OperationID request, op_AttemptID = mr_AttemptID request,
      op_FencingToken = mr_FencingToken request, op_SandboxID = sandboxID,
      op_Type = operationType, op_State = OperationAccepted, op_Deadline = mr_Deadline request,
      op_ObservedAt = now, op_CancelRequested = False, op_Failure = None,
      op_IdempotencyKey = mr_IdempotencyKey request, op_RequestDigest = mr_RequestDigest request\<rparr>"

definition RequestDesiredState ::
    "Sandbox \<Rightarrow> DesiredState \<Rightarrow> u64 \<Rightarrow> time \<Rightarrow> error + Sandbox" where
  "RequestDesiredState sandbox desired expectedGeneration now =
     unless_err (first_err
       [Sandbox_Validate sandbox,
        fail_if (\<not> DesiredState_valid desired) [ErrInvalidState],
        fail_if (expectedGeneration \<noteq> sb_Generation sandbox) [ErrGenerationConflict],
        fail_if (is_zero_time now \<or> now < sb_UpdatedAt sandbox) [ErrInvalidSpec],
        fail_if (ObservedState_terminal (sb_ObservedState sandbox)) [ErrInvalidTransition]])
      (if desired = sb_DesiredState sandbox then Inr sandbox
       else Inr (sandbox\<lparr>sb_DesiredState := desired, sb_Generation := sb_Generation sandbox + 1,
                   sb_UpdatedAt := now\<rparr>))"

definition StartDesiredState ::
    "Sandbox \<Rightarrow> DesiredStateRequest \<Rightarrow> time \<Rightarrow> error + Sandbox \<times> Operation" where
  "StartDesiredState sandbox request now =
     unless_err (first_err
       [DesiredStateRequest_Validate request now,
        fail_if (dr_DesiredState request = DesiredSuspended \<and> sb_ObservedState sandbox \<noteq> ObservedReady)
          [ErrInvalidTransition],
        fail_if (dr_DesiredState request = DesiredReady \<and> sb_ObservedState sandbox \<noteq> ObservedSuspended)
          [ErrInvalidTransition]])
      (on_ok (RequestDesiredState sandbox (dr_DesiredState request) (mr_ExpectedGeneration request) now)
        (\<lambda>updated.
          let operationType = (if dr_DesiredState request = DesiredReady then OperationResume
                               else OperationSuspend)
          in Inr (updated, mutationOperation request (sb_ID sandbox) operationType now)))"

definition StartLeaseRenewal ::
    "Sandbox \<Rightarrow> LeaseRequest \<Rightarrow> int \<Rightarrow> time \<Rightarrow> error + Sandbox \<times> Lease \<times> Operation" where
  "StartLeaseRenewal sandbox request maxLeaseSeconds now =
     unless_err (first_err
       [Sandbox_Validate sandbox,
        LeaseRequest_Validate request now maxLeaseSeconds,
        fail_if (mr_ExpectedGeneration request \<noteq> sb_Generation sandbox) [ErrGenerationConflict],
        fail_if (ObservedState_terminal (sb_ObservedState sandbox) \<or> \<not> now < sb_LeaseExpiresAt sandbox)
          [ErrInvalidLease]])
      (let newExpiry = sb_LeaseExpiresAt sandbox + seconds (lr_ExtendSeconds request)
       in if \<not> sb_LeaseExpiresAt sandbox < newExpiry \<or> now + seconds maxLeaseSeconds < newExpiry
          then Inl [ErrInvalidLease]
          else Inr (sandbox\<lparr>sb_LeaseExpiresAt := newExpiry, sb_UpdatedAt := now\<rparr>,
                    \<lparr>ls_SandboxID = sb_ID sandbox, ls_ExpiresAt = newExpiry,
                     ls_Generation = sb_Generation sandbox, ls_FencingToken = mr_FencingToken request\<rparr>,
                    mutationOperation request (sb_ID sandbox) OperationExtendLease now))"

definition StartTerminate ::
    "Sandbox \<Rightarrow> TerminateRequest \<Rightarrow> time \<Rightarrow> error + Sandbox \<times> Operation" where
  "StartTerminate sandbox request now =
     unless_err (TerminateRequest_Validate request now)
      (on_ok (RequestDesiredState sandbox DesiredTerminated (mr_ExpectedGeneration request) now)
        (\<lambda>updated. Inr (updated, mutationOperation request (sb_ID sandbox) OperationTerminate now)))"

section \<open>Observing the runtime\<close>

definition CanTransitionObserved :: "ObservedState \<Rightarrow> ObservedState \<Rightarrow> bool" where
  "CanTransitionObserved src dst \<longleftrightarrow>
     (if src = dst \<and> ObservedState_valid src then True
      else case src of
        ObservedRequested \<Rightarrow>
          dst = ObservedProvisioning \<or> dst = ObservedFailed \<or> dst = ObservedTerminating
      | ObservedProvisioning \<Rightarrow>
          dst = ObservedReady \<or> dst = ObservedFailed \<or> dst = ObservedTerminating
      | ObservedReady \<Rightarrow>
          dst = ObservedSuspending \<or> dst = ObservedTerminating \<or> dst = ObservedExpired
      | ObservedSuspending \<Rightarrow>
          dst = ObservedSuspended \<or> dst = ObservedReady \<or> dst = ObservedFailed \<or>
          dst = ObservedTerminating
      | ObservedSuspended \<Rightarrow>
          dst = ObservedResuming \<or> dst = ObservedTerminating \<or> dst = ObservedExpired
      | ObservedResuming \<Rightarrow>
          dst = ObservedReady \<or> dst = ObservedFailed \<or> dst = ObservedTerminating
      | ObservedFailed \<Rightarrow> dst = ObservedTerminating
      | ObservedTerminating \<Rightarrow> dst = ObservedTerminated \<or> dst = ObservedFailed
      | _ \<Rightarrow> False)"

definition ApplyObservedTransition ::
    "Sandbox \<Rightarrow> ObservedState \<Rightarrow> u64 \<Rightarrow> time \<Rightarrow> error + Sandbox" where
  "ApplyObservedTransition sandbox next_state appliedGeneration now =
     unless_err (first_err
       [Sandbox_Validate sandbox,
        fail_if (\<not> ObservedState_valid next_state \<or>
            \<not> CanTransitionObserved (sb_ObservedState sandbox) next_state) [ErrInvalidTransition],
        fail_if (is_zero_time now \<or> now < sb_CreatedAt sandbox) [ErrInvalidSpec],
        fail_if (appliedGeneration \<noteq> sb_Generation sandbox) [ErrGenerationConflict]])
      (let updated = sandbox\<lparr>sb_ObservedState := next_state, sb_UpdatedAt := now\<rparr>
       in Inr (if next_state = ObservedReady \<or> next_state = ObservedSuspended \<or>
                  next_state = ObservedTerminated
               then updated\<lparr>sb_ObservedGeneration := appliedGeneration\<rparr> else updated))"

definition ExpireLease :: "Sandbox \<Rightarrow> time \<Rightarrow> error + Sandbox" where
  "ExpireLease sandbox now =
     unless_err (first_err
       [Sandbox_Validate sandbox,
        fail_if (is_zero_time now \<or> now < sb_UpdatedAt sandbox) [ErrInvalidSpec],
        fail_if (now < sb_LeaseExpiresAt sandbox) [ErrInvalidLease]])
      (if sb_ObservedState sandbox = ObservedExpired then Inr sandbox
       else if ObservedState_terminal (sb_ObservedState sandbox) \<or>
          \<not> CanTransitionObserved (sb_ObservedState sandbox) ObservedExpired
         then Inl [ErrInvalidTransition]
       else Inr (sandbox\<lparr>sb_ObservedState := ObservedExpired, sb_UpdatedAt := now\<rparr>))"

section \<open>Fencing\<close>

definition CheckFencing :: "u64 \<Rightarrow> u64 \<Rightarrow> error option" where
  "CheckFencing current incoming = first_err
     [fail_if (incoming = 0) [ErrStaleFencingToken],
      fail_if (incoming < current) [ErrStaleFencingToken]]"

definition AdvanceFencing :: "u64 \<Rightarrow> u64 \<Rightarrow> error + u64" where
  "AdvanceFencing current incoming =
     unless_err (CheckFencing current incoming)
      (if current < incoming then Inr incoming else Inr current)"

section \<open>The operation's state machine\<close>

definition operationTransitions :: "OperationState \<Rightarrow> OperationState \<Rightarrow> bool" where
  "operationTransitions src dst \<longleftrightarrow>
     (case src of
        OperationAccepted \<Rightarrow> dst = OperationRunning \<or> dst = OperationCancelled \<or>
          dst = OperationFailed \<or> dst = OperationOutcomeUnknown
      | OperationRunning \<Rightarrow> dst = OperationSucceeded \<or> dst = OperationFailed \<or>
          dst = OperationCancelled \<or> dst = OperationOutcomeUnknown
      | _ \<Rightarrow> False)"

definition transitionOperation ::
    "Operation \<Rightarrow> OperationState \<Rightarrow> time \<Rightarrow> Failure option \<Rightarrow> error + Operation" where
  "transitionOperation operation next_state now failure =
     unless_err (first_err
       [Operation_Validate operation,
        fail_if (\<not> OperationState_valid next_state) [ErrInvalidState]])
      (if op_State operation = next_state then Inr operation
       else unless_err (first_err
         [fail_if (OperationState_terminal (op_State operation)) [ErrTerminalOperation],
          fail_if (\<not> operationTransitions (op_State operation) next_state) [ErrInvalidTransition],
          fail_if (is_zero_time now \<or> now < op_ObservedAt operation) [ErrInvalidSpec],
          fail_if (next_state = OperationFailed \<and>
              (case failure of None \<Rightarrow> True | Some f \<Rightarrow> fl_Outcome f \<noteq> FailureKnown)) [ErrInvalidSpec],
          fail_if (next_state = OperationOutcomeUnknown \<and>
              (case failure of None \<Rightarrow> True | Some f \<Rightarrow> fl_Outcome f \<noteq> FailureUnknown)) [ErrInvalidSpec],
          fail_if ((next_state = OperationSucceeded \<or> next_state = OperationCancelled) \<and> failure \<noteq> None)
            [ErrInvalidSpec]])
        (Inr (operation\<lparr>op_State := next_state, op_ObservedAt := now, op_Failure := failure\<rparr>)))"

definition BeginOperation :: "Operation \<Rightarrow> time \<Rightarrow> error + Operation" where
  "BeginOperation operation now =
     unless_err (CheckDeadline now (op_Deadline operation))
      (transitionOperation operation OperationRunning now None)"

definition SucceedOperation :: "Operation \<Rightarrow> time \<Rightarrow> error + Operation" where
  "SucceedOperation operation now = transitionOperation operation OperationSucceeded now None"

definition FailOperation :: "Operation \<Rightarrow> time \<Rightarrow> Failure \<Rightarrow> error + Operation" where
  "FailOperation operation now failure =
     transitionOperation operation OperationFailed now (Some failure)"

definition RequestCancellation :: "Operation \<Rightarrow> time \<Rightarrow> error + Operation" where
  "RequestCancellation operation now =
     unless_err (first_err
       [Operation_Validate operation,
        fail_if (OperationState_terminal (op_State operation)) [ErrTerminalOperation],
        fail_if (is_zero_time now \<or> now < op_ObservedAt operation) [ErrInvalidSpec]])
      (Inr (operation\<lparr>op_CancelRequested := True, op_ObservedAt := now\<rparr>))"

definition ConfirmCancellation :: "Operation \<Rightarrow> time \<Rightarrow> error + Operation" where
  "ConfirmCancellation operation now =
     (if \<not> op_CancelRequested operation then Inl [ErrCancellationRequired]
      else transitionOperation operation OperationCancelled now None)"

definition MarkOutcomeUnknown :: "Operation \<Rightarrow> time \<Rightarrow> Failure \<Rightarrow> error + Operation" where
  "MarkOutcomeUnknown operation now failure =
     (if fl_Outcome failure \<noteq> FailureUnknown then Inl [ErrInvalidSpec]
      else transitionOperation operation OperationOutcomeUnknown now (Some failure))"

section \<open>What each transition does\<close>

abbreviation valid_sandbox :: "Sandbox \<Rightarrow> bool" where
  "valid_sandbox s \<equiv> Sandbox_Validate s = None"

abbreviation valid_operation :: "Operation \<Rightarrow> bool" where
  "valid_operation p \<equiv> Operation_Validate p = None"

text \<open>The fields of a sandbox that no transition may touch.\<close>

definition sandbox_identity where
  "sandbox_identity s = (sb_ID s, sb_TenantID s, sb_WorkOrderID s, sb_WorkspaceID s,
     sb_ProviderRevisionID s, sb_RuntimeProfile s, sb_Network s, sb_SandboxSlotKey s)"

text \<open>The fields of an operation that no transition may touch.\<close>

definition operation_identity where
  "operation_identity p = (op_ID p, op_AttemptID p, op_FencingToken p, op_SandboxID p, op_Type p,
     op_Deadline p, op_IdempotencyKey p, op_RequestDigest p)"

lemma StartCreate_Inr:
  assumes "StartCreate r now = Inr (sb, p)"
  shows "valid_sandbox sb" "valid_operation p" "op_Type p = OperationCreate"
    "op_State p = OperationAccepted" "op_SandboxID p = sb_ID sb" "op_ID p = cr_OperationID r"
    "op_FencingToken p = cr_FencingToken r" "op_AttemptID p = cr_AttemptID r"
    "sb_Generation sb = 1" "sb_ObservedGeneration sb = 0" "sb_ObservedState sb = ObservedRequested"
    "sb_ID sb = sp_SandboxID (cr_Spec r)" "now < sb_LeaseExpiresAt sb"
  using assms
  by (auto simp: StartCreate_def Let_def val_simps DesiredState_valid_def failure_ok_def
      idempotency_ok_def)

lemma mutationOperation_valid:
  assumes "MutationRequest_Validate r now = None" and "identifierPattern sid"
    and "OperationType_valid t"
  shows "valid_operation (mutationOperation r sid t now)"
  using assms by (simp add: val_simps mutationOperation_def failure_ok_def idempotency_ok_def)

lemma mutationOperation_simps [simp]:
  "op_ID (mutationOperation r sid t now) = mr_OperationID r"
  "op_AttemptID (mutationOperation r sid t now) = mr_AttemptID r"
  "op_FencingToken (mutationOperation r sid t now) = mr_FencingToken r"
  "op_SandboxID (mutationOperation r sid t now) = sid"
  "op_Type (mutationOperation r sid t now) = t"
  "op_State (mutationOperation r sid t now) = OperationAccepted"
  "op_Deadline (mutationOperation r sid t now) = mr_Deadline r"
  "op_ObservedAt (mutationOperation r sid t now) = now"
  "op_CancelRequested (mutationOperation r sid t now) = False"
  "op_Failure (mutationOperation r sid t now) = None"
  "op_IdempotencyKey (mutationOperation r sid t now) = mr_IdempotencyKey r"
  "op_RequestDigest (mutationOperation r sid t now) = mr_RequestDigest r"
  by (simp_all add: mutationOperation_def)

lemma RequestDesiredState_Inr:
  "RequestDesiredState s d g now = Inr s' \<longleftrightarrow>
     valid_sandbox s \<and> DesiredState_valid d \<and> g = sb_Generation s \<and> now \<noteq> 0 \<and>
     sb_UpdatedAt s \<le> now \<and> \<not> ObservedState_terminal (sb_ObservedState s) \<and>
     s' = (if d = sb_DesiredState s then s
           else s\<lparr>sb_DesiredState := d, sb_Generation := sb_Generation s + 1, sb_UpdatedAt := now\<rparr>)"
  by (auto simp: RequestDesiredState_def is_zero_time_def not_less)

lemma ApplyObservedTransition_Inr:
  "ApplyObservedTransition s n g now = Inr s' \<longleftrightarrow>
     valid_sandbox s \<and> ObservedState_valid n \<and> CanTransitionObserved (sb_ObservedState s) n \<and>
     now \<noteq> 0 \<and> sb_CreatedAt s \<le> now \<and> g = sb_Generation s \<and>
     s' = s\<lparr>sb_ObservedState := n, sb_UpdatedAt := now,
            sb_ObservedGeneration := (if n \<in> {ObservedReady, ObservedSuspended, ObservedTerminated}
              then sb_Generation s else sb_ObservedGeneration s)\<rparr>"
  by (auto simp: ApplyObservedTransition_def Let_def is_zero_time_def not_less)

lemma ExpireLease_Inr:
  "ExpireLease s now = Inr s' \<longleftrightarrow>
     valid_sandbox s \<and> now \<noteq> 0 \<and> sb_UpdatedAt s \<le> now \<and> sb_LeaseExpiresAt s \<le> now \<and>
     (sb_ObservedState s = ObservedExpired \<and> s' = s \<or>
      sb_ObservedState s \<in> {ObservedReady, ObservedSuspended} \<and>
      s' = s\<lparr>sb_ObservedState := ObservedExpired, sb_UpdatedAt := now\<rparr>)"
  by (auto simp: ExpireLease_def is_zero_time_def not_less CanTransitionObserved_def
      ObservedState_terminal_def split: ObservedState.splits)

lemma StartLeaseRenewal_Inr:
  "StartLeaseRenewal s r m now = Inr (s', l, p) \<longleftrightarrow>
     valid_sandbox s \<and> LeaseRequest_Validate r now m = None \<and>
     mr_ExpectedGeneration r = sb_Generation s \<and> \<not> ObservedState_terminal (sb_ObservedState s) \<and>
     now < sb_LeaseExpiresAt s \<and> 0 < seconds (lr_ExtendSeconds r) \<and>
     sb_LeaseExpiresAt s + seconds (lr_ExtendSeconds r) \<le> now + seconds m \<and>
     s' = s\<lparr>sb_LeaseExpiresAt := sb_LeaseExpiresAt s + seconds (lr_ExtendSeconds r), sb_UpdatedAt := now\<rparr> \<and>
     l = \<lparr>ls_SandboxID = sb_ID s, ls_ExpiresAt = sb_LeaseExpiresAt s + seconds (lr_ExtendSeconds r),
          ls_Generation = sb_Generation s, ls_FencingToken = mr_FencingToken r\<rparr> \<and>
     p = mutationOperation r (sb_ID s) OperationExtendLease now"
  by (auto simp: StartLeaseRenewal_def Let_def not_less split: if_splits)

lemma StartDesiredState_Inr:
  "StartDesiredState s r now = Inr (s', p) \<longleftrightarrow>
     DesiredStateRequest_Validate r now = None \<and>
     (dr_DesiredState r = DesiredSuspended \<longrightarrow> sb_ObservedState s = ObservedReady) \<and>
     (dr_DesiredState r = DesiredReady \<longrightarrow> sb_ObservedState s = ObservedSuspended) \<and>
     RequestDesiredState s (dr_DesiredState r) (mr_ExpectedGeneration r) now = Inr s' \<and>
     p = mutationOperation r (sb_ID s)
       (if dr_DesiredState r = DesiredReady then OperationResume else OperationSuspend) now"
  by (auto simp: StartDesiredState_def Let_def)

lemma StartTerminate_Inr:
  "StartTerminate s r now = Inr (s', p) \<longleftrightarrow>
     TerminateRequest_Validate r now = None \<and>
     RequestDesiredState s DesiredTerminated (mr_ExpectedGeneration r) now = Inr s' \<and>
     p = mutationOperation r (sb_ID s) OperationTerminate now"
  by (auto simp: StartTerminate_def)

lemmas start_Inr = StartDesiredState_Inr StartLeaseRenewal_Inr StartTerminate_Inr

lemma transitionOperation_Inr:
  "transitionOperation p n now f = Inr p' \<longleftrightarrow>
     valid_operation p \<and> OperationState_valid n \<and>
     (op_State p = n \<and> p' = p \<or>
      op_State p \<noteq> n \<and> \<not> OperationState_terminal (op_State p) \<and>
      operationTransitions (op_State p) n \<and> now \<noteq> 0 \<and> op_ObservedAt p \<le> now \<and>
      (n = OperationFailed \<longrightarrow> (\<exists>x. f = Some x \<and> fl_Outcome x = FailureKnown)) \<and>
      (n = OperationOutcomeUnknown \<longrightarrow> (\<exists>x. f = Some x \<and> fl_Outcome x = FailureUnknown)) \<and>
      (n = OperationSucceeded \<or> n = OperationCancelled \<longrightarrow> f = None) \<and>
      p' = p\<lparr>op_State := n, op_ObservedAt := now, op_Failure := f\<rparr>)"
  by (auto simp: transitionOperation_def is_zero_time_def not_less split: option.splits)

section \<open>The sandbox as a state machine\<close>

text \<open>
  One rule per transition a sandbox can take at time \<open>now\<close>. \<open>sandbox_evolves\<close> is any number of
  them, at any times.
\<close>

inductive sandbox_step :: "time \<Rightarrow> Sandbox \<Rightarrow> Sandbox \<Rightarrow> bool" where
  desire: "StartDesiredState s r now = Inr (s', p) \<Longrightarrow> sandbox_step now s s'"
| renew: "StartLeaseRenewal s lr m now = Inr (s', l, p) \<Longrightarrow> sandbox_step now s s'"
| finish: "StartTerminate s tr now = Inr (s', p) \<Longrightarrow> sandbox_step now s s'"
| observe: "ApplyObservedTransition s n g now = Inr s' \<Longrightarrow> sandbox_step now s s'"
| expire: "ExpireLease s now = Inr s' \<Longrightarrow> sandbox_step now s s'"

inductive sandbox_evolves :: "Sandbox \<Rightarrow> Sandbox \<Rightarrow> bool" where
  start: "sandbox_evolves s s"
| step: "sandbox_evolves s t \<Longrightarrow> sandbox_step now t u \<Longrightarrow> sandbox_evolves s u"

inductive_cases sandbox_stepE: "sandbox_step now s s'"

lemma sandbox_evolves_trans:
  "sandbox_evolves t u \<Longrightarrow> sandbox_evolves s t \<Longrightarrow> sandbox_evolves s u"
  by (induction rule: sandbox_evolves.induct) (auto intro: sandbox_evolves.step)

text \<open>
  What one step can change: the intent under the next generation, or the length of the lease, or the
  observation.
\<close>

definition intends :: "time \<Rightarrow> Sandbox \<Rightarrow> Sandbox \<Rightarrow> bool" where
  "intends now s s' \<longleftrightarrow>
     (\<exists>d. d \<noteq> sb_DesiredState s \<and> DesiredState_valid d \<and> sb_UpdatedAt s \<le> now \<and>
        \<not> ObservedState_terminal (sb_ObservedState s) \<and>
        s' = s\<lparr>sb_DesiredState := d, sb_Generation := sb_Generation s + 1, sb_UpdatedAt := now\<rparr>)"

definition renews :: "time \<Rightarrow> Sandbox \<Rightarrow> Sandbox \<Rightarrow> bool" where
  "renews now s s' \<longleftrightarrow>
     (\<exists>x. 0 < x \<and> now < sb_LeaseExpiresAt s \<and> \<not> ObservedState_terminal (sb_ObservedState s) \<and>
        s' = s\<lparr>sb_LeaseExpiresAt := sb_LeaseExpiresAt s + x, sb_UpdatedAt := now\<rparr>)"

definition observes :: "time \<Rightarrow> Sandbox \<Rightarrow> Sandbox \<Rightarrow> bool" where
  "observes now s s' \<longleftrightarrow>
     (\<exists>n g. ObservedState_valid n \<and> CanTransitionObserved (sb_ObservedState s) n \<and>
        sb_CreatedAt s \<le> now \<and> (g = sb_Generation s \<or> g = sb_ObservedGeneration s) \<and>
        s' = s\<lparr>sb_ObservedState := n, sb_UpdatedAt := now, sb_ObservedGeneration := g\<rparr>)"

lemmas sandbox_changes = intends_def renews_def observes_def

lemma RequestDesiredState_intends:
  "RequestDesiredState s d g now = Inr s' \<Longrightarrow> s' = s \<or> intends now s s'"
  unfolding RequestDesiredState_Inr intends_def by (simp split: if_splits) blast

lemma StartLeaseRenewal_renews:
  "StartLeaseRenewal s r m now = Inr (s', l, p) \<Longrightarrow> renews now s s'"
  unfolding StartLeaseRenewal_Inr renews_def by blast

lemma ApplyObservedTransition_observes:
  "ApplyObservedTransition s n g now = Inr s' \<Longrightarrow> observes now s s'"
  unfolding ApplyObservedTransition_Inr observes_def
  by (rule exI [of _ n], cases "n \<in> {ObservedReady, ObservedSuspended, ObservedTerminated}")
    (simp_all only: if_True if_False, blast+)

lemma ExpireLease_observes:
  assumes "ExpireLease s now = Inr s'"
  shows "s' = s \<or> observes now s s'"
proof (cases "sb_ObservedState s = ObservedExpired")
  case False
  with assms have "sb_ObservedState s \<in> {ObservedReady, ObservedSuspended}" "sb_CreatedAt s \<le> now"
    and s': "s' = s\<lparr>sb_ObservedState := ObservedExpired, sb_UpdatedAt := now,
      sb_ObservedGeneration := sb_ObservedGeneration s\<rparr>"
    by (simp_all add: ExpireLease_Inr val_simps)
  then have "CanTransitionObserved (sb_ObservedState s) ObservedExpired"
    by (auto simp: CanTransitionObserved_def)
  with s' \<open>sb_CreatedAt s \<le> now\<close> show ?thesis
    unfolding observes_def using ObservedState_valid.simps(10) by blast
qed (use assms in \<open>simp add: ExpireLease_Inr\<close>)

lemma sandbox_step_cases:
  assumes "sandbox_step now s s'"
  obtains "s' = s" | "intends now s s'" | "renews now s s'" | "observes now s s'"
  using assms
  by cases (auto simp: StartDesiredState_Inr StartTerminate_Inr dest!: RequestDesiredState_intends
      StartLeaseRenewal_renews ApplyObservedTransition_observes ExpireLease_observes)

lemma sandbox_step_source: "sandbox_step now s s' \<Longrightarrow> valid_sandbox s \<and> now \<noteq> 0"
  by (erule sandbox_stepE)
    (auto simp: start_Inr RequestDesiredState_Inr ApplyObservedTransition_Inr ExpireLease_Inr
      LeaseRequest_Validate_def MutationRequest_Validate_None)

text \<open>The observed states from which a sandbox is never again in use.\<close>

definition winding_down :: "ObservedState \<Rightarrow> bool" where
  "winding_down n \<longleftrightarrow>
     n \<in> {ObservedFailed, ObservedTerminating, ObservedTerminated, ObservedExpired}"

lemma winding_down_step:
  "CanTransitionObserved n m \<Longrightarrow> winding_down n \<Longrightarrow> winding_down m"
  by (cases n) (auto simp: winding_down_def CanTransitionObserved_def split: if_splits)

lemma terminal_step: "CanTransitionObserved n m \<Longrightarrow> ObservedState_terminal n \<Longrightarrow> m = n"
  by (cases n) (auto simp: ObservedState_terminal_def CanTransitionObserved_def split: if_splits)

text \<open>
  The generation moves only forward. Its 64-bit counter wraps to zero, which the validation
  refuses, so the statements about what is kept exclude the last generation.
\<close>

definition last_generation :: u64 where
  "last_generation = - 1"

lemma generation_succ:
  assumes "(g :: u64) \<noteq> last_generation"
  shows "g + 1 \<noteq> 0" "g < g + 1" "h \<le> g \<Longrightarrow> h \<le> g + 1"
proof -
  from assms have eq: "unat (g + 1) = Suc (unat g)"
    by (simp add: unat_succ last_generation_def)
  then show "g + 1 \<noteq> 0" "g < g + 1" by (auto simp: word_less_nat_alt)
  then show "h \<le> g \<Longrightarrow> h \<le> g + 1" by (meson le_less_trans less_imp_le)
qed

subsection \<open>Properties\<close>


lemma observe_sandbox1:
  "ApplyObservedTransition sandbox1 ObservedProvisioning 1 200 =
     Inr (sandbox1\<lparr>sb_ObservedState := ObservedProvisioning, sb_UpdatedAt := 200\<rparr>)"
  unfolding ApplyObservedTransition_Inr by (simp add: CanTransitionObserved_def) (simp add: sandbox1_def)


text \<open>
  C21. A terminated or expired sandbox is never changed again: whatever requests and observations
  follow, its observed state, desired state, generation and lease stay as they were.
\<close>

theorem terminal_sandbox_frozen:
  assumes "sandbox_evolves s s'" and "ObservedState_terminal (sb_ObservedState s)"
  shows "sb_ObservedState s' = sb_ObservedState s \<and> sb_DesiredState s' = sb_DesiredState s \<and>
    sb_Generation s' = sb_Generation s \<and> sb_LeaseExpiresAt s' = sb_LeaseExpiresAt s"
  using assms
proof (induction rule: sandbox_evolves.induct)
  case (step s t now u)
  from step.hyps(2) show ?case
    using step.IH [OF step.prems] step.prems
    by (cases rule: sandbox_step_cases) (auto simp: sandbox_changes dest: terminal_step)
qed simp

theorem terminal_sandbox_frozen_witness:
  "sb_ObservedState (sandbox1\<lparr>sb_ObservedState := ObservedTerminated, sb_UpdatedAt := 300,
      sb_ObservedGeneration := 1\<rparr>) = ObservedTerminated"
proof -
  let ?s = "sandbox1\<lparr>sb_ObservedState := ObservedTerminated\<rparr>"
  have "valid_sandbox ?s" by simp
  then have "ApplyObservedTransition ?s ObservedTerminated 1 300 =
      Inr (?s\<lparr>sb_UpdatedAt := 300, sb_ObservedGeneration := 1\<rparr>)"
    unfolding ApplyObservedTransition_Inr
    by (simp add: CanTransitionObserved_def) (simp add: sandbox1_def)
  then have "sandbox_evolves ?s (?s\<lparr>sb_UpdatedAt := 300, sb_ObservedGeneration := 1\<rparr>)"
    by (rule sandbox_evolves.step [OF sandbox_evolves.start sandbox_step.observe])
  from terminal_sandbox_frozen [OF this] show ?thesis by simp
qed

text \<open>
  C22. No resurrection: from a failed, terminating, terminated or expired observation no sequence of
  transitions leads back to a sandbox that is provisioning, ready, suspended or resuming.
\<close>

theorem winding_down_forever:
  assumes "sandbox_evolves s s'" and "winding_down (sb_ObservedState s)"
  shows "winding_down (sb_ObservedState s')"
  using assms
proof (induction rule: sandbox_evolves.induct)
  case (step s t now u)
  from step.hyps(2) show ?case
    using step.IH [OF step.prems]
    by (cases rule: sandbox_step_cases) (auto simp: sandbox_changes dest: winding_down_step)
qed simp

theorem winding_down_forever_witness:
  "winding_down (sb_ObservedState
     (sandbox1\<lparr>sb_ObservedState := ObservedTerminating, sb_UpdatedAt := 300\<rparr>))"
proof -
  let ?s = "sandbox1\<lparr>sb_ObservedState := ObservedFailed\<rparr>"
  have "valid_sandbox ?s" by simp
  then have "ApplyObservedTransition ?s ObservedTerminating 1 300 =
      Inr (?s\<lparr>sb_ObservedState := ObservedTerminating, sb_UpdatedAt := 300\<rparr>)"
    unfolding ApplyObservedTransition_Inr
    by (simp add: CanTransitionObserved_def) (simp add: sandbox1_def)
  then have "sandbox_evolves ?s (?s\<lparr>sb_ObservedState := ObservedTerminating, sb_UpdatedAt := 300\<rparr>)"
    by (rule sandbox_evolves.step [OF sandbox_evolves.start sandbox_step.observe])
  from winding_down_forever [OF this] show ?thesis by (simp add: winding_down_def)
qed

text \<open>
  The generation counts the changes of intent: it grows by exactly one when the desired state
  changes and not otherwise, a step changes the intent or the observation but not both, and it
  keeps the sandbox's identity and its creation time.
\<close>

theorem generation_counts_intent:
  assumes "sandbox_step now s s'"
  shows "sandbox_identity s' = sandbox_identity s \<and> sb_CreatedAt s' = sb_CreatedAt s \<and>
    (if sb_DesiredState s' = sb_DesiredState s then sb_Generation s' = sb_Generation s
     else sb_Generation s' = sb_Generation s + 1 \<and> sb_ObservedState s' = sb_ObservedState s \<and>
       sb_ObservedGeneration s' = sb_ObservedGeneration s \<and>
       sb_LeaseExpiresAt s' = sb_LeaseExpiresAt s)"
  using assms
  by (cases rule: sandbox_step_cases) (auto simp: sandbox_changes sandbox_identity_def)

theorem generation_counts_intent_witness:
  "sb_Generation (sandbox1\<lparr>sb_DesiredState := DesiredTerminated, sb_Generation := 2,
     sb_UpdatedAt := 200\<rparr>) = sb_Generation sandbox1 + 1"
proof -
  have "RequestDesiredState sandbox1 DesiredTerminated (mr_ExpectedGeneration terminate1) 200 =
      Inr (sandbox1\<lparr>sb_DesiredState := DesiredTerminated, sb_Generation := 2, sb_UpdatedAt := 200\<rparr>)"
    unfolding RequestDesiredState_Inr
    by (simp add: DesiredState_valid_def ObservedState_terminal_def)
      (simp add: sandbox1_def terminate1_def mutation1_def MutationRequest.defs)
  then have "\<exists>p. StartTerminate sandbox1 terminate1 200 =
      Inr (sandbox1\<lparr>sb_DesiredState := DesiredTerminated, sb_Generation := 2, sb_UpdatedAt := 200\<rparr>, p)"
    unfolding StartTerminate_Inr by simp
  then obtain p where "StartTerminate sandbox1 terminate1 200 =
      Inr (sandbox1\<lparr>sb_DesiredState := DesiredTerminated, sb_Generation := 2, sb_UpdatedAt := 200\<rparr>, p)" ..
  from generation_counts_intent [OF sandbox_step.finish [OF this]] show ?thesis
    by (simp add: sandbox1_def)
qed

text \<open>
  Accepting a create request yields a valid requested sandbox of generation one, none of which
  is yet observed, and a valid accepted create operation for it, exactly when the request is valid.
\<close>

theorem StartCreate_correct:
  "(\<exists>sb p. StartCreate r now = Inr (sb, p) \<and> valid_sandbox sb \<and> valid_operation p \<and>
      sb_Generation sb = 1 \<and> sb_ObservedGeneration sb = 0 \<and> sb_ObservedState sb = ObservedRequested \<and>
      op_SandboxID p = sb_ID sb \<and> op_Type p = OperationCreate \<and> op_State p = OperationAccepted)
   \<longleftrightarrow> CreateRequest_Validate r now = None"
proof
  assume "CreateRequest_Validate r now = None"
  then obtain sb p where "StartCreate r now = Inr (sb, p)" by (simp add: StartCreate_def Let_def)
  then show "\<exists>sb p. StartCreate r now = Inr (sb, p) \<and> valid_sandbox sb \<and> valid_operation p \<and>
      sb_Generation sb = 1 \<and> sb_ObservedGeneration sb = 0 \<and> sb_ObservedState sb = ObservedRequested \<and>
      op_SandboxID p = sb_ID sb \<and> op_Type p = OperationCreate \<and> op_State p = OperationAccepted"
    using StartCreate_Inr [of r now sb p] by blast
qed (auto simp: StartCreate_def)



section \<open>The operation as a state machine\<close>

inductive operation_step :: "Operation \<Rightarrow> Operation \<Rightarrow> bool" where
  begin_op: "BeginOperation p now = Inr p' \<Longrightarrow> operation_step p p'"
| succeed: "SucceedOperation p now = Inr p' \<Longrightarrow> operation_step p p'"
| fail: "FailOperation p now f = Inr p' \<Longrightarrow> operation_step p p'"
| cancel_request: "RequestCancellation p now = Inr p' \<Longrightarrow> operation_step p p'"
| cancel: "ConfirmCancellation p now = Inr p' \<Longrightarrow> operation_step p p'"
| unknown: "MarkOutcomeUnknown p now f = Inr p' \<Longrightarrow> operation_step p p'"

inductive operation_evolves :: "Operation \<Rightarrow> Operation \<Rightarrow> bool" where
  start: "operation_evolves p p"
| step: "operation_evolves p q \<Longrightarrow> operation_step q r \<Longrightarrow> operation_evolves p r"

text \<open>
  What one step can change: nothing, or the state with its failure, or the cancellation flag.
\<close>

definition operation_moves :: "Operation \<Rightarrow> Operation \<Rightarrow> bool" where
  "operation_moves p p' \<longleftrightarrow>
     (\<exists>n f now. operationTransitions (op_State p) n \<and> op_ObservedAt p \<le> now \<and> now \<noteq> 0 \<and>
        OperationState_valid n \<and> p' = p\<lparr>op_State := n, op_ObservedAt := now, op_Failure := f\<rparr>)"

definition operation_flags :: "Operation \<Rightarrow> Operation \<Rightarrow> bool" where
  "operation_flags p p' \<longleftrightarrow>
     (\<exists>now. op_ObservedAt p \<le> now \<and> now \<noteq> 0 \<and> \<not> OperationState_terminal (op_State p) \<and>
        p' = p\<lparr>op_CancelRequested := True, op_ObservedAt := now\<rparr>)"

lemma transitionOperation_moves:
  "transitionOperation p n now f = Inr p' \<Longrightarrow> p' = p \<or> operation_moves p p'"
  unfolding transitionOperation_Inr operation_moves_def by blast

lemma RequestCancellation_flags:
  "RequestCancellation p now = Inr p' \<Longrightarrow> operation_flags p p'"
  by (auto simp: RequestCancellation_def operation_flags_def is_zero_time_def not_less)

lemma operation_step_cases:
  "operation_step p p' \<Longrightarrow> p' = p \<or> operation_moves p p' \<or> operation_flags p p'"
  by (erule operation_step.cases)
    (auto simp: BeginOperation_def SucceedOperation_def FailOperation_def ConfirmCancellation_def
      MarkOutcomeUnknown_def split: if_splits dest: transitionOperation_moves RequestCancellation_flags)

lemma operation_step_identity:
  "operation_step p p' \<Longrightarrow> operation_identity p' = operation_identity p"
  by (drule operation_step_cases)
    (auto simp: operation_moves_def operation_flags_def operation_identity_def)

lemma operation_step_to_running:
  "operation_step p p' \<Longrightarrow> op_State p' \<in> {OperationRunning, OperationSucceeded} \<Longrightarrow>
   op_State p' = OperationRunning \<or> op_State p \<in> {OperationRunning, OperationSucceeded}"
  by (drule operation_step_cases, cases "op_State p")
    (auto simp: operation_moves_def operation_flags_def operationTransitions_def)

lemma operationTransitions_terminal:
  "operationTransitions n m \<Longrightarrow> \<not> OperationState_terminal n"
  by (cases n) (auto simp: operationTransitions_def OperationState_terminal_def)

lemma terminal_operation_step:
  "operation_step p p' \<Longrightarrow> OperationState_terminal (op_State p) \<Longrightarrow> p' = p"
  by (drule operation_step_cases)
    (auto simp: operation_moves_def operation_flags_def dest: operationTransitions_terminal)

lemma operation_evolves_trans:
  "operation_evolves q r \<Longrightarrow> operation_evolves p q \<Longrightarrow> operation_evolves p r"
  by (induction rule: operation_evolves.induct) (auto intro: operation_evolves.step)

text \<open>
  An operation that has ended keeps its outcome: no later transition changes a succeeded,
  failed, cancelled or outcome-unknown operation in any field.
\<close>

theorem terminal_operation_frozen:
  assumes "operation_evolves p p'" and "OperationState_terminal (op_State p)"
  shows "p' = p"
  using assms by (induction rule: operation_evolves.induct) (auto dest: terminal_operation_step)

lemma run_operation1:
  "BeginOperation operation1 200 = Inr (operation1\<lparr>op_State := OperationRunning, op_ObservedAt := 200\<rparr>)"
  unfolding BeginOperation_def unless_err_Inr_iff transitionOperation_Inr
  by (simp add: CheckDeadline_def ValidateDeadline_None operationTransitions_def
      OperationState_terminal_def) (simp add: operation1_def)

lemma succeed_operation1:
  "SucceedOperation (operation1\<lparr>op_State := OperationRunning, op_ObservedAt := 200\<rparr>) 300 =
     Inr (operation1\<lparr>op_State := OperationSucceeded, op_ObservedAt := 300\<rparr>)"
  unfolding SucceedOperation_def transitionOperation_Inr
  by (simp add: operationTransitions_def OperationState_terminal_def) (simp add: operation1_def)

theorem terminal_operation_frozen_witness:
  "OperationState_terminal (op_State (operation1\<lparr>op_State := OperationSucceeded\<rparr>)) \<and>
   (\<forall>p'. operation_evolves (operation1\<lparr>op_State := OperationSucceeded\<rparr>) p' =
     (p' = operation1\<lparr>op_State := OperationSucceeded\<rparr>))"
proof (intro conjI allI iffI)
  show "OperationState_terminal (op_State (operation1\<lparr>op_State := OperationSucceeded\<rparr>))"
    by (simp add: OperationState_terminal_def)
  then show "p' = operation1\<lparr>op_State := OperationSucceeded\<rparr>"
    if "operation_evolves (operation1\<lparr>op_State := OperationSucceeded\<rparr>) p'" for p'
    by (rule terminal_operation_frozen [OF that])
qed (simp add: operation_evolves.start)

text \<open>
  An operation succeeds only after it has been begun: every evolution from an accepted to a
  succeeded operation passes through a running one, and the operation's identity, fencing token and
  deadline are those that were accepted.
\<close>

theorem success_needs_running:
  assumes "operation_evolves p p'" and "op_State p = OperationAccepted"
    and "op_State p' = OperationSucceeded"
  shows "\<exists>q. op_State q = OperationRunning \<and> operation_evolves p q \<and> operation_evolves q p' \<and>
    operation_identity p' = operation_identity p"
proof -
  have "op_State p' \<in> {OperationRunning, OperationSucceeded} \<longrightarrow>
      (\<exists>q. op_State q = OperationRunning \<and> operation_evolves p q \<and> operation_evolves q p')"
    using assms(1,2)
  proof (induction rule: operation_evolves.induct)
    case (step p q r)
    have pr: "operation_evolves p r" by (rule operation_evolves.step) (use step in auto)
    show ?case
    proof
      assume "op_State r \<in> {OperationRunning, OperationSucceeded}"
      with operation_step_to_running [OF step.hyps(2)] consider
        "op_State r = OperationRunning" | "op_State q \<in> {OperationRunning, OperationSucceeded}"
        by blast
      then show "\<exists>q. op_State q = OperationRunning \<and> operation_evolves p q \<and> operation_evolves q r"
      proof cases
        case 1
        with pr show ?thesis by (blast intro: operation_evolves.start)
      next
        case 2
        with step show ?thesis by (blast intro: operation_evolves.step)
      qed
    qed
  qed simp
  moreover from assms(1) have "operation_identity p' = operation_identity p"
    by (induction rule: operation_evolves.induct) (auto dest: operation_step_identity)
  ultimately show ?thesis using assms(3) by auto
qed

theorem success_needs_running_witness:
  "\<exists>q. op_State q = OperationRunning \<and> operation_evolves operation1 q"
proof -
  have "operation_evolves operation1 (operation1\<lparr>op_State := OperationSucceeded, op_ObservedAt := 300\<rparr>)"
    by (rule operation_evolves.step [OF operation_evolves.step [OF operation_evolves.start
      operation_step.begin_op [OF run_operation1]] operation_step.succeed [OF succeed_operation1]])
  from success_needs_running [OF this] show ?thesis by (auto simp: operation1_def)
qed

end
