(* ===== verification/Lifecycle_State.thy ===== *)
theory Lifecycle_State
  imports Lifecycle_Transition
begin

text \<open>
  The adapter-independent repository state, \<^verbatim>\<open>src/provider/lifecycle/repository/state.go\<close>:
  sandboxes, operations, leases, the retained event log, the idempotency records and the fencing
  high-water marks, with the operations that read and write them. An operation returns
  \<open>Inl\<close> the error, in which case the code has not written anything, or \<open>Inr\<close> the result and
  the new state. The maps of the model are never nil, so \<^verbatim>\<open>ensureMaps\<close> is the identity.

  \<open>repo_inv\<close> is the well-formedness invariant; every operation keeps it, under the side conditions
  that the operation itself does not check and its callers meet.
\<close>

section \<open>State\<close>

definition maxEventPageSize :: int where
  "maxEventPageSize = 1000"

definition maxRetainedEvents :: nat where
  "maxRetainedEvents = 1000"

record IdempotencyRecord =
  ir_Scope :: string
  ir_Key :: string
  ir_RequestDigest :: string
  ir_Operation :: Operation

record State =
  st_Sandboxes :: "(string, Sandbox) fmap"
  st_Operations :: "(string, Operation) fmap"
  st_Leases :: "(string, Lease) fmap"
  st_Events :: "(string, Event list) fmap"
  st_EventLatest :: "(string, u64) fmap"
  st_Idempotency :: "(string, IdempotencyRecord) fmap"
  st_Fencing :: "(string, u64) fmap"

definition NewState :: State where
  "NewState = \<lparr>st_Sandboxes = fmempty, st_Operations = fmempty, st_Leases = fmempty,
     st_Events = fmempty, st_EventLatest = fmempty, st_Idempotency = fmempty,
     st_Fencing = fmempty\<rparr>"

record CreateResult =
  cres_Operation :: Operation
  cres_Replayed :: bool

record MutationResult =
  mres_Operation :: Operation
  mres_Sandbox :: Sandbox
  mres_Replayed :: bool

record EventPage =
  pg_Events :: "Event list"
  pg_FirstAvailableSequence :: u64
  pg_LatestSequence :: u64
  pg_NextSequence :: u64

section \<open>Helpers\<close>

definition fencingScope :: "string \<Rightarrow> string \<Rightarrow> string" where
  "fencingScope revisionID sandboxID = revisionID @ CHR 0x00 # sandboxID"

definition idempotencyScope :: "string \<Rightarrow> string \<Rightarrow> string" where
  "idempotencyScope revisionID key = revisionID @ CHR 0x00 # key"

definition checkCurrentFencing ::
    "(string, u64) fmap \<Rightarrow> string \<Rightarrow> string \<Rightarrow> u64 \<Rightarrow> error option" where
  "checkCurrentFencing fencing revisionID sandboxID token = first_err
     [fail_if (token = 0) [ErrStaleFencingToken],
      fail_if (fmget fencing (fencingScope revisionID sandboxID) \<noteq> token) [ErrStaleFencingToken]]"

definition sameSandboxIdentity :: "Sandbox \<Rightarrow> Sandbox \<Rightarrow> bool" where
  "sameSandboxIdentity l r \<longleftrightarrow>
     sb_ID l = sb_ID r \<and> sb_TenantID l = sb_TenantID r \<and> sb_WorkOrderID l = sb_WorkOrderID r \<and>
     sb_WorkspaceID l = sb_WorkspaceID r \<and> sb_ProviderRevisionID l = sb_ProviderRevisionID r \<and>
     sb_RuntimeProfile l = sb_RuntimeProfile r \<and> sb_Network l = sb_Network r \<and>
     sb_SandboxSlotKey l = sb_SandboxSlotKey r"

text \<open>
  An absent sandbox reads as the zero value in Go, whose revision is the empty string.
\<close>

definition operationProviderRevision :: "State \<Rightarrow> string \<Rightarrow> string" where
  "operationProviderRevision s sandboxID =
     (case fmlookup (st_Sandboxes s) sandboxID of None \<Rightarrow> [] | Some sb \<Rightarrow> sb_ProviderRevisionID sb)"

text \<open>
  The source returns the first record it meets in an unspecified map order; \<open>repo_inv\<close> makes the
  record unique, so the order is immaterial.
\<close>

definition IdempotencyForOperation :: "State \<Rightarrow> string \<Rightarrow> IdempotencyRecord option" where
  "IdempotencyForOperation s operationID =
     find (\<lambda>r. op_ID (ir_Operation r) = operationID) (fmvals (st_Idempotency s))"

definition appendRetainedEvent :: "Event \<Rightarrow> State \<Rightarrow> Event \<times> State" where
  "appendRetainedEvent event s =
     (let sid = ev_SandboxID event;
          event' = event\<lparr>ev_Sequence := fmget (st_EventLatest s) sid + 1\<rparr>;
          events = fmlist (st_Events s) sid @ [event'];
          events' = (if length events > maxRetainedEvents
                     then drop (length events - maxRetainedEvents) events else events)
      in (event', s\<lparr>st_EventLatest := fmupd sid (ev_Sequence event') (st_EventLatest s),
                    st_Events := fmupd sid events' (st_Events s)\<rparr>))"

section \<open>Reservations\<close>

definition ReserveCreate ::
    "string \<Rightarrow> string \<Rightarrow> Sandbox \<Rightarrow> Operation \<Rightarrow> State \<Rightarrow> error + CreateResult \<times> State" where
  "ReserveCreate idempotencyKey requestDigest sandbox operation s =
     unless_err (first_err
       [Sandbox_Validate sandbox,
        Operation_Validate operation,
        fail_if (blank idempotencyKey) [ErrConflict],
        ValidateDigest requestDigest,
        fail_if (op_Type operation \<noteq> OperationCreate \<or> op_State operation \<noteq> OperationAccepted \<or>
            op_SandboxID operation \<noteq> sb_ID sandbox) [ErrConflict]])
      (let scope = fencingScope (sb_ProviderRevisionID sandbox) (sb_ID sandbox);
           iscope = idempotencyScope (sb_ProviderRevisionID sandbox) idempotencyKey
       in case fmlookup (st_Idempotency s) iscope of
            Some existing \<Rightarrow>
              if ir_RequestDigest existing \<noteq> requestDigest \<or>
                 op_ID (ir_Operation existing) \<noteq> op_ID operation
              then Inl [ErrIdempotencyConflict]
              else Inr (\<lparr>cres_Operation = ir_Operation existing, cres_Replayed = True\<rparr>, s)
          | None \<Rightarrow>
              unless_err (first_err
                [fail_if (fmlookup (st_Sandboxes s) (sb_ID sandbox) \<noteq> None) [ErrAlreadyExists],
                 fail_if (fmlookup (st_Operations s) (op_ID operation) \<noteq> None) [ErrAlreadyExists],
                 fail_if (op_FencingToken operation \<le> fmget (st_Fencing s) scope)
                   [ErrStaleFencingToken]])
               (Inr (\<lparr>cres_Operation = operation, cres_Replayed = False\<rparr>,
                 s\<lparr>st_Sandboxes := fmupd (sb_ID sandbox) sandbox (st_Sandboxes s),
                   st_Operations := fmupd (op_ID operation) operation (st_Operations s),
                   st_Leases := fmupd (sb_ID sandbox)
                     \<lparr>ls_SandboxID = sb_ID sandbox, ls_ExpiresAt = sb_LeaseExpiresAt sandbox,
                      ls_Generation = sb_Generation sandbox,
                      ls_FencingToken = op_FencingToken operation\<rparr> (st_Leases s),
                   st_Fencing := fmupd scope (op_FencingToken operation) (st_Fencing s),
                   st_Idempotency := fmupd iscope
                     \<lparr>ir_Scope = iscope, ir_Key = idempotencyKey, ir_RequestDigest = requestDigest,
                      ir_Operation = operation\<rparr> (st_Idempotency s)\<rparr>)))"

definition ReserveMutation ::
    "string \<Rightarrow> string \<Rightarrow> u64 \<Rightarrow> Sandbox \<Rightarrow> Operation \<Rightarrow> Event \<Rightarrow> State \<Rightarrow>
     error + MutationResult \<times> State" where
  "ReserveMutation idempotencyKey requestDigest expectedGeneration sandbox operation event s =
     unless_err (first_err
       [Sandbox_Validate sandbox,
        Operation_Validate operation,
        Event_Validate event,
        fail_if (op_Type operation = OperationCreate \<or> op_State operation \<noteq> OperationAccepted \<or>
            op_SandboxID operation \<noteq> sb_ID sandbox \<or> ev_OperationID event \<noteq> op_ID operation \<or>
            ev_SandboxID event \<noteq> sb_ID sandbox) [ErrConflict],
        fail_if (blank idempotencyKey \<or> ValidateDigest requestDigest \<noteq> None) [ErrConflict]])
      (case fmlookup (st_Sandboxes s) (sb_ID sandbox) of
         None \<Rightarrow> Inl [ErrNotFound]
       | Some current \<Rightarrow>
         let iscope = idempotencyScope (sb_ProviderRevisionID current) idempotencyKey;
             scope = fencingScope (sb_ProviderRevisionID current) (sb_ID current)
         in case fmlookup (st_Idempotency s) iscope of
              Some existing \<Rightarrow>
                if ir_RequestDigest existing \<noteq> requestDigest \<or>
                   op_ID (ir_Operation existing) \<noteq> op_ID operation \<or>
                   op_AttemptID (ir_Operation existing) \<noteq> op_AttemptID operation
                then Inl [ErrIdempotencyConflict]
                else Inr (\<lparr>mres_Operation = ir_Operation existing, mres_Sandbox = current,
                           mres_Replayed = True\<rparr>, s)
            | None \<Rightarrow>
                unless_err (first_err
                  [fail_if (sb_Generation current \<noteq> expectedGeneration \<or>
                       sb_Generation sandbox < sb_Generation current \<or>
                       sb_Generation current + 1 < sb_Generation sandbox) [ErrGenerationConflict],
                   fail_if (\<not> sameSandboxIdentity current sandbox \<or>
                       sb_CreatedAt sandbox \<noteq> sb_CreatedAt current \<or>
                       sb_UpdatedAt sandbox < sb_UpdatedAt current) [ErrConflict],
                   fail_if (op_FencingToken operation < fmget (st_Fencing s) scope)
                     [ErrStaleFencingToken],
                   fail_if (fmlookup (st_Operations s) (op_ID operation) \<noteq> None) [ErrAlreadyExists],
                   fail_if (ev_Generation event \<noteq> sb_Generation sandbox \<or>
                       ev_FencingToken event \<noteq> op_FencingToken operation) [ErrConflict]])
                 (case fmlookup (st_Leases s) (sb_ID sandbox) of
                    None \<Rightarrow> Inl [ErrNotFound]
                  | Some lease \<Rightarrow>
                    let s1 = s\<lparr>st_Sandboxes := fmupd (sb_ID sandbox) sandbox (st_Sandboxes s),
                          st_Leases := fmupd (sb_ID sandbox)
                            (lease\<lparr>ls_Generation := sb_Generation sandbox,
                              ls_ExpiresAt := sb_LeaseExpiresAt sandbox,
                              ls_FencingToken := op_FencingToken operation\<rparr>) (st_Leases s),
                          st_Operations := fmupd (op_ID operation) operation (st_Operations s),
                          st_Fencing := (if fmget (st_Fencing s) scope < op_FencingToken operation
                            then fmupd scope (op_FencingToken operation) (st_Fencing s)
                            else st_Fencing s),
                          st_Idempotency := fmupd iscope
                            \<lparr>ir_Scope = iscope, ir_Key = idempotencyKey,
                             ir_RequestDigest = requestDigest, ir_Operation = operation\<rparr>
                            (st_Idempotency s)\<rparr>
                    in Inr (\<lparr>mres_Operation = operation, mres_Sandbox = sandbox,
                             mres_Replayed = False\<rparr>,
                            snd (appendRetainedEvent event s1))))"

section \<open>Reads and updates\<close>

definition GetSandbox :: "string \<Rightarrow> State \<Rightarrow> error + Sandbox" where
  "GetSandbox i s =
     (case fmlookup (st_Sandboxes s) i of None \<Rightarrow> Inl [ErrNotFound] | Some sb \<Rightarrow> Inr sb)"

definition ListSandboxes :: "State \<Rightarrow> Sandbox list" where
  "ListSandboxes s = sort_key sb_ID (fmvals (st_Sandboxes s))"

definition UpdateSandbox :: "Sandbox \<Rightarrow> u64 \<Rightarrow> u64 \<Rightarrow> State \<Rightarrow> error + State" where
  "UpdateSandbox sandbox expectedGeneration fencingToken s =
     unless_err (Sandbox_Validate sandbox)
      (case fmlookup (st_Sandboxes s) (sb_ID sandbox) of
         None \<Rightarrow> Inl [ErrNotFound]
       | Some current \<Rightarrow>
         unless_err (first_err
           [fail_if (sb_Generation current \<noteq> expectedGeneration \<or>
                sb_Generation sandbox < sb_Generation current \<or>
                sb_Generation current + 1 < sb_Generation sandbox) [ErrGenerationConflict],
            checkCurrentFencing (st_Fencing s) (sb_ProviderRevisionID current) (sb_ID current)
              fencingToken,
            fail_if (sb_LeaseExpiresAt sandbox \<noteq> sb_LeaseExpiresAt current) [ErrConflict],
            fail_if (sb_Network sandbox \<noteq> sb_Network current) [ErrConflict]])
          (let s1 = s\<lparr>st_Sandboxes := fmupd (sb_ID sandbox) sandbox (st_Sandboxes s)\<rparr>
           in if sb_Generation sandbox \<noteq> sb_Generation current
              then (case fmlookup (st_Leases s) (sb_ID sandbox) of
                      None \<Rightarrow> Inl [ErrNotFound]
                    | Some lease \<Rightarrow>
                        Inr (s1\<lparr>st_Leases := fmupd (sb_ID sandbox)
                          (lease\<lparr>ls_Generation := sb_Generation sandbox\<rparr>) (st_Leases s)\<rparr>))
              else Inr s1))"

definition GetOperation :: "string \<Rightarrow> State \<Rightarrow> error + Operation" where
  "GetOperation i s =
     (case fmlookup (st_Operations s) i of None \<Rightarrow> Inl [ErrNotFound] | Some p \<Rightarrow> Inr p)"

definition ListOperations :: "State \<Rightarrow> Operation list" where
  "ListOperations s = sort_key op_ID (fmvals (st_Operations s))"

definition UpdateOperation :: "Operation \<Rightarrow> State \<Rightarrow> error + State" where
  "UpdateOperation operation s =
     unless_err (Operation_Validate operation)
      (case fmlookup (st_Operations s) (op_ID operation) of
         None \<Rightarrow> Inl [ErrNotFound]
       | Some current \<Rightarrow>
         unless_err (first_err
           [fail_if (op_SandboxID current \<noteq> op_SandboxID operation \<or>
                op_AttemptID current \<noteq> op_AttemptID operation) [ErrConflict],
            checkCurrentFencing (st_Fencing s) (operationProviderRevision s (op_SandboxID operation))
              (op_SandboxID operation) (op_FencingToken operation)])
          (let s1 = s\<lparr>st_Operations := fmupd (op_ID operation) operation (st_Operations s)\<rparr>
           in Inr (case IdempotencyForOperation s1 (op_ID operation) of
                     None \<Rightarrow> s1
                   | Some r \<Rightarrow> s1\<lparr>st_Idempotency := fmupd (ir_Scope r)
                       (r\<lparr>ir_Operation := operation\<rparr>) (st_Idempotency s)\<rparr>)))"

definition GetLease :: "string \<Rightarrow> State \<Rightarrow> error + Lease" where
  "GetLease i s =
     (case fmlookup (st_Leases s) i of None \<Rightarrow> Inl [ErrNotFound] | Some l \<Rightarrow> Inr l)"

definition ReplaceLease :: "Lease \<Rightarrow> u64 \<Rightarrow> State \<Rightarrow> error + State" where
  "ReplaceLease lease fencingToken s =
     unless_err (Lease_Validate lease)
      (case fmlookup (st_Leases s) (ls_SandboxID lease) of
         None \<Rightarrow> Inl [ErrNotFound]
       | Some current \<Rightarrow>
         if ls_Generation lease \<noteq> ls_Generation current then Inl [ErrGenerationConflict]
         else case fmlookup (st_Sandboxes s) (ls_SandboxID lease) of
           None \<Rightarrow> Inl [ErrNotFound]
         | Some sandbox \<Rightarrow>
           unless_err (checkCurrentFencing (st_Fencing s) (sb_ProviderRevisionID sandbox)
               (sb_ID sandbox) fencingToken)
            (Inr (s\<lparr>st_Sandboxes := fmupd (ls_SandboxID lease)
                       (sandbox\<lparr>sb_LeaseExpiresAt := ls_ExpiresAt lease\<rparr>) (st_Sandboxes s),
                    st_Leases := fmupd (ls_SandboxID lease) lease (st_Leases s)\<rparr>)))"

section \<open>Events\<close>

definition sameEvent :: "Event \<Rightarrow> Event \<Rightarrow> bool" where
  "sameEvent existing event \<longleftrightarrow>
     ev_OperationID existing = ev_OperationID event \<and> ev_Generation existing = ev_Generation event \<and>
     ev_FencingToken existing = ev_FencingToken event \<and> ev_Kind existing = ev_Kind event \<and>
     ev_DataDigest existing = ev_DataDigest event"

definition AppendEvent :: "Event \<Rightarrow> State \<Rightarrow> error + Event \<times> State" where
  "AppendEvent event s =
     unless_err (Event_Validate event)
      (case fmlookup (st_Sandboxes s) (ev_SandboxID event) of
         None \<Rightarrow> Inl [ErrNotFound]
       | Some sandbox \<Rightarrow>
         unless_err (first_err
           [fail_if (sb_Generation sandbox < ev_Generation event) [ErrGenerationConflict],
            checkCurrentFencing (st_Fencing s) (sb_ProviderRevisionID sandbox) (sb_ID sandbox)
              (ev_FencingToken event)])
          (case find (\<lambda>x. ev_ID x = ev_ID event) (fmlist (st_Events s) (ev_SandboxID event)) of
             Some existing \<Rightarrow>
               if \<not> sameEvent existing event then Inl [ErrConflict] else Inr (existing, s)
           | None \<Rightarrow> Inr (appendRetainedEvent event s)))"

text \<open>
  The slice \<^verbatim>\<open>all[start:end]\<close> of a page: its bounds are \<^verbatim>\<open>int\<close> values, and bounds out
  of range panic, as does \<^verbatim>\<open>all[0]\<close> of an empty log.
\<close>

definition slice :: "'a list \<Rightarrow> int \<Rightarrow> int \<Rightarrow> error + 'a list" where
  "slice xs lo hi =
     (if 0 \<le> lo \<and> lo \<le> hi \<and> hi \<le> int (length xs)
      then Inr (take (nat (hi - lo)) (drop (nat lo) xs)) else Inl [RuntimePanic])"

definition ReadEvents :: "string \<Rightarrow> u64 \<Rightarrow> int \<Rightarrow> State \<Rightarrow> error + EventPage" where
  "ReadEvents sandboxID after limit s =
     (if limit \<le> 0 \<or> limit > maxEventPageSize then Inl [ErrInvalidCursor]
      else if fmlookup (st_Sandboxes s) sandboxID = None then Inl [ErrNotFound]
      else
        let events = fmlist (st_Events s) sandboxID;
            latest = fmget (st_EventLatest s) sandboxID
        in if latest > 0 \<and> events = [] then Inl [RuntimePanic]
           else
             let first = (if latest > 0 then ev_Sequence (hd events) else 0)
             in if after > latest then Inl [ErrInvalidCursor, ErrCursorAhead]
                else if first > 0 \<and> after + 1 < first then Inl [ErrInvalidCursor, ErrCursorExpired]
                else
                  let start = (if first > 0 then sint (after + 1 - first) else 0);
                      e = wrap_int64 (start + limit);
                      stop = (if e > int (length events) then int (length events) else e)
                  in on_ok (slice events start stop) (\<lambda>result.
                       Inr \<lparr>pg_Events = result, pg_FirstAvailableSequence = first,
                            pg_LatestSequence = latest,
                            pg_NextSequence = (if result = [] then after
                                               else ev_Sequence (last result))\<rparr>))"

text \<open>On an error the page is the zero page, whose events are the nil slice.\<close>

definition ListEvents :: "string \<Rightarrow> u64 \<Rightarrow> int \<Rightarrow> State \<Rightarrow> error + Event list" where
  "ListEvents sandboxID after limit s =
     on_ok (ReadEvents sandboxID after limit s) (\<lambda>page. Inr (pg_Events page))"

section \<open>Outcomes of the operations\<close>

text \<open>
  Each writing operation either replays, changing nothing, or passes its checks and writes. These are
  the cases the proofs below go through.
\<close>

definition created_state :: "string \<Rightarrow> string \<Rightarrow> Sandbox \<Rightarrow> Operation \<Rightarrow> State \<Rightarrow> State" where
  "created_state key digest sb p s =
     (let iscope = idempotencyScope (sb_ProviderRevisionID sb) key
      in s\<lparr>st_Sandboxes := fmupd (sb_ID sb) sb (st_Sandboxes s),
           st_Operations := fmupd (op_ID p) p (st_Operations s),
           st_Leases := fmupd (sb_ID sb)
             \<lparr>ls_SandboxID = sb_ID sb, ls_ExpiresAt = sb_LeaseExpiresAt sb,
              ls_Generation = sb_Generation sb, ls_FencingToken = op_FencingToken p\<rparr> (st_Leases s),
           st_Fencing := fmupd (fencingScope (sb_ProviderRevisionID sb) (sb_ID sb))
             (op_FencingToken p) (st_Fencing s),
           st_Idempotency := fmupd iscope
             \<lparr>ir_Scope = iscope, ir_Key = key, ir_RequestDigest = digest, ir_Operation = p\<rparr>
             (st_Idempotency s)\<rparr>)"

lemma ReserveCreate_cases:
  assumes "ReserveCreate key digest sb p s = Inr (r, s')"
  obtains (replay) existing where "s' = s"
      "fmlookup (st_Idempotency s) (idempotencyScope (sb_ProviderRevisionID sb) key) = Some existing"
      "ir_RequestDigest existing = digest" "op_ID (ir_Operation existing) = op_ID p"
      "r = \<lparr>cres_Operation = ir_Operation existing, cres_Replayed = True\<rparr>"
  | (fresh) "valid_sandbox sb" "valid_operation p" "\<not> blank key" "digestPattern digest"
      "op_Type p = OperationCreate" "op_State p = OperationAccepted" "op_SandboxID p = sb_ID sb"
      "fmlookup (st_Idempotency s) (idempotencyScope (sb_ProviderRevisionID sb) key) = None"
      "fmlookup (st_Sandboxes s) (sb_ID sb) = None" "fmlookup (st_Operations s) (op_ID p) = None"
      "fmget (st_Fencing s) (fencingScope (sb_ProviderRevisionID sb) (sb_ID sb)) < op_FencingToken p"
      "r = \<lparr>cres_Operation = p, cres_Replayed = False\<rparr>" "s' = created_state key digest sb p s"
proof (cases "fmlookup (st_Idempotency s) (idempotencyScope (sb_ProviderRevisionID sb) key)")
  case None
  with assms show ?thesis
    by (intro fresh)
      (auto simp: ReserveCreate_def created_state_def Let_def ValidateDigest_None not_le)
next
  case (Some existing)
  with assms show ?thesis
    by (intro replay) (auto simp: ReserveCreate_def Let_def split: if_splits)
qed

definition mutated_state ::
    "string \<Rightarrow> string \<Rightarrow> Sandbox \<Rightarrow> Operation \<Rightarrow> Lease \<Rightarrow> State \<Rightarrow> State" where
  "mutated_state key digest sb p l s =
     (let iscope = idempotencyScope (sb_ProviderRevisionID sb) key;
          scope = fencingScope (sb_ProviderRevisionID sb) (sb_ID sb)
      in s\<lparr>st_Sandboxes := fmupd (sb_ID sb) sb (st_Sandboxes s),
           st_Leases := fmupd (sb_ID sb)
             (l\<lparr>ls_Generation := sb_Generation sb, ls_ExpiresAt := sb_LeaseExpiresAt sb,
                ls_FencingToken := op_FencingToken p\<rparr>) (st_Leases s),
           st_Operations := fmupd (op_ID p) p (st_Operations s),
           st_Fencing := (if fmget (st_Fencing s) scope < op_FencingToken p
             then fmupd scope (op_FencingToken p) (st_Fencing s) else st_Fencing s),
           st_Idempotency := fmupd iscope
             \<lparr>ir_Scope = iscope, ir_Key = key, ir_RequestDigest = digest, ir_Operation = p\<rparr>
             (st_Idempotency s)\<rparr>)"

lemma ReserveMutation_cases:
  assumes "ReserveMutation key digest g sb p e s = Inr (r, s')"
  obtains (replay) current existing where "s' = s"
      "fmlookup (st_Sandboxes s) (sb_ID sb) = Some current"
      "fmlookup (st_Idempotency s) (idempotencyScope (sb_ProviderRevisionID current) key) = Some existing"
      "ir_RequestDigest existing = digest" "op_ID (ir_Operation existing) = op_ID p"
      "op_AttemptID (ir_Operation existing) = op_AttemptID p"
      "r = \<lparr>mres_Operation = ir_Operation existing, mres_Sandbox = current, mres_Replayed = True\<rparr>"
  | (fresh) current lease where "valid_sandbox sb" "valid_operation p" "Event_Validate e = None"
      "op_Type p \<noteq> OperationCreate" "op_State p = OperationAccepted" "op_SandboxID p = sb_ID sb"
      "ev_OperationID e = op_ID p" "ev_SandboxID e = sb_ID sb" "\<not> blank key" "digestPattern digest"
      "fmlookup (st_Sandboxes s) (sb_ID sb) = Some current"
      "fmlookup (st_Idempotency s) (idempotencyScope (sb_ProviderRevisionID current) key) = None"
      "sb_Generation current = g" "sb_Generation current \<le> sb_Generation sb"
      "sb_Generation sb \<le> sb_Generation current + 1" "sandbox_identity sb = sandbox_identity current"
      "sb_CreatedAt sb = sb_CreatedAt current" "sb_UpdatedAt current \<le> sb_UpdatedAt sb"
      "fmget (st_Fencing s) (fencingScope (sb_ProviderRevisionID sb) (sb_ID sb)) \<le> op_FencingToken p"
      "fmlookup (st_Operations s) (op_ID p) = None" "ev_Generation e = sb_Generation sb"
      "ev_FencingToken e = op_FencingToken p" "fmlookup (st_Leases s) (sb_ID sb) = Some lease"
      "r = \<lparr>mres_Operation = p, mres_Sandbox = sb, mres_Replayed = False\<rparr>"
      "s' = snd (appendRetainedEvent e (mutated_state key digest sb p lease s))"
proof -
  from assms obtain current where cur: "fmlookup (st_Sandboxes s) (sb_ID sb) = Some current"
    by (auto simp: ReserveMutation_def split: option.splits)
  show ?thesis
  proof (cases "fmlookup (st_Idempotency s) (idempotencyScope (sb_ProviderRevisionID current) key)")
    case None
    from assms cur None have same: "sameSandboxIdentity current sb"
      by (auto simp: ReserveMutation_def Let_def)
    from assms cur None obtain lease where "fmlookup (st_Leases s) (sb_ID sb) = Some lease"
      by (auto simp: ReserveMutation_def Let_def split: option.splits)
    with assms cur None same show ?thesis
      by (intro fresh) (auto simp: ReserveMutation_def mutated_state_def Let_def ValidateDigest_None
          not_less sameSandboxIdentity_def sandbox_identity_def)
  next
    case (Some existing)
    with assms cur show ?thesis
      by (intro replay) (auto simp: ReserveMutation_def Let_def split: if_splits)
  qed
qed

lemma checkCurrentFencing_None:
  "checkCurrentFencing f r i t = None \<longleftrightarrow> t \<noteq> 0 \<and> fmget f (fencingScope r i) = t"
  by (auto simp: checkCurrentFencing_def)

lemma UpdateSandbox_cases:
  assumes "UpdateSandbox sb g t s = Inr s'"
  obtains current where "valid_sandbox sb" "fmlookup (st_Sandboxes s) (sb_ID sb) = Some current"
    "sb_Generation current = g" "sb_Generation current \<le> sb_Generation sb"
    "sb_Generation sb \<le> sb_Generation current + 1" "t \<noteq> 0"
    "fmget (st_Fencing s) (fencingScope (sb_ProviderRevisionID current) (sb_ID current)) = t"
    "sb_LeaseExpiresAt sb = sb_LeaseExpiresAt current" "sb_Network sb = sb_Network current"
    "s' = s\<lparr>st_Sandboxes := fmupd (sb_ID sb) sb (st_Sandboxes s)\<rparr> \<and>
       sb_Generation sb = sb_Generation current \<or>
     (\<exists>lease. fmlookup (st_Leases s) (sb_ID sb) = Some lease \<and>
       s' = s\<lparr>st_Sandboxes := fmupd (sb_ID sb) sb (st_Sandboxes s), st_Leases := fmupd (sb_ID sb)
              (lease\<lparr>ls_Generation := sb_Generation sb\<rparr>) (st_Leases s)\<rparr>)"
proof -
  from assms obtain current where cur: "fmlookup (st_Sandboxes s) (sb_ID sb) = Some current"
    by (auto simp: UpdateSandbox_def split: option.splits)
  with assms show ?thesis
    by (intro that [of current]) (auto simp: UpdateSandbox_def Let_def checkCurrentFencing_None
        not_less split: if_splits option.splits)
qed

lemma UpdateOperation_cases:
  assumes "UpdateOperation p s = Inr s'"
  obtains current where "valid_operation p" "fmlookup (st_Operations s) (op_ID p) = Some current"
    "op_SandboxID current = op_SandboxID p" "op_AttemptID current = op_AttemptID p"
    "fmget (st_Fencing s) (fencingScope (operationProviderRevision s (op_SandboxID p))
       (op_SandboxID p)) = op_FencingToken p"
    "s' = (case IdempotencyForOperation s (op_ID p) of
       None \<Rightarrow> s\<lparr>st_Operations := fmupd (op_ID p) p (st_Operations s)\<rparr>
     | Some r \<Rightarrow> s\<lparr>st_Operations := fmupd (op_ID p) p (st_Operations s),
         st_Idempotency := fmupd (ir_Scope r) (r\<lparr>ir_Operation := p\<rparr>) (st_Idempotency s)\<rparr>)"
proof -
  from assms obtain current where cur: "fmlookup (st_Operations s) (op_ID p) = Some current"
    by (auto simp: UpdateOperation_def split: option.splits)
  with assms show ?thesis
    by (intro that [of current]) (auto simp: UpdateOperation_def Let_def checkCurrentFencing_None
        IdempotencyForOperation_def split: option.splits)
qed

lemma ReplaceLease_cases:
  assumes "ReplaceLease l t s = Inr s'"
  obtains current sb where "Lease_Validate l = None"
    "fmlookup (st_Leases s) (ls_SandboxID l) = Some current" "ls_Generation l = ls_Generation current"
    "fmlookup (st_Sandboxes s) (ls_SandboxID l) = Some sb" "t \<noteq> 0"
    "fmget (st_Fencing s) (fencingScope (sb_ProviderRevisionID sb) (sb_ID sb)) = t"
    "s' = s\<lparr>st_Sandboxes := fmupd (ls_SandboxID l) (sb\<lparr>sb_LeaseExpiresAt := ls_ExpiresAt l\<rparr>)
             (st_Sandboxes s), st_Leases := fmupd (ls_SandboxID l) l (st_Leases s)\<rparr>"
  using assms
  by (auto simp: ReplaceLease_def checkCurrentFencing_None split: if_splits option.splits)

lemma AppendEvent_cases:
  assumes "AppendEvent e s = Inr (e', s')"
  obtains (replay) sb where "s' = s" "fmlookup (st_Sandboxes s) (ev_SandboxID e) = Some sb"
      "e' \<in> set (fmlist (st_Events s) (ev_SandboxID e))" "ev_ID e' = ev_ID e" "sameEvent e' e"
  | (fresh) sb where "Event_Validate e = None" "fmlookup (st_Sandboxes s) (ev_SandboxID e) = Some sb"
      "ev_Generation e \<le> sb_Generation sb"
      "fmget (st_Fencing s) (fencingScope (sb_ProviderRevisionID sb) (sb_ID sb)) = ev_FencingToken e"
      "\<forall>x \<in> set (fmlist (st_Events s) (ev_SandboxID e)). ev_ID x \<noteq> ev_ID e"
      "(e', s') = appendRetainedEvent e s"
proof -
  from assms obtain sb where sb: "fmlookup (st_Sandboxes s) (ev_SandboxID e) = Some sb"
    by (auto simp: AppendEvent_def split: option.splits)
  show ?thesis
  proof (cases "find (\<lambda>x. ev_ID x = ev_ID e) (fmlist (st_Events s) (ev_SandboxID e))")
    case None
    with assms sb show ?thesis
      by (intro fresh) (auto simp: AppendEvent_def checkCurrentFencing_None find_None_iff not_less)
  next
    case (Some x)
    with assms sb show ?thesis
      by (intro replay) (auto simp: AppendEvent_def find_Some_iff split: if_splits)
  qed
qed

end
