(* ===== verification/Lifecycle_Invariant.thy ===== *)
theory Lifecycle_Invariant
  imports Lifecycle_State
begin

text \<open>
  The well-formedness of the repository state and its preservation by every operation of
  \<^verbatim>\<open>src/provider/lifecycle/repository/state.go\<close>: what a snapshot must satisfy to be loaded again, and
  that mirrors (lease and sandbox, idempotency record and operation, cursor and log) agree.
\<close>

section \<open>Scope keys\<close>

lemma fencingScope_inject:
  assumes "identifierPattern r" and "identifierPattern r'"
  shows "fencingScope r i = fencingScope r' i' \<longleftrightarrow> r = r' \<and> i = i'"
  using separator_inject [of r "CHR 0x00" i r' i'] assms
  by (auto simp: fencingScope_def dest: identifier_no_NUL)

lemma idempotencyScope_inject:
  assumes "identifierPattern r" and "identifierPattern r'"
  shows "idempotencyScope r k = idempotencyScope r' k' \<longleftrightarrow> r = r' \<and> k = k'"
  using separator_inject [of r "CHR 0x00" k r' k'] assms
  by (auto simp: idempotencyScope_def dest: identifier_no_NUL)

lemma scope_nonempty [simp]: "fencingScope r i \<noteq> []" "idempotencyScope r k \<noteq> []"
  by (simp_all add: fencingScope_def idempotencyScope_def)

section \<open>The invariant\<close>

text \<open>
  The log of a sandbox whose cursor stands at \<open>latest\<close>: the retained events carry the consecutive
  sequence numbers that end at \<open>latest\<close>, none of them zero.
\<close>

definition log_ok :: "u64 \<Rightarrow> Event list \<Rightarrow> bool" where
  "log_ok latest es \<longleftrightarrow>
     length es \<le> unat latest \<and>
     map (\<lambda>e. unat (ev_Sequence e)) es = [Suc (unat latest) - length es ..< Suc (unat latest)]"

definition inv_sandboxes :: "State \<Rightarrow> bool" where
  "inv_sandboxes s \<longleftrightarrow>
     (\<forall>k sb. fmlookup (st_Sandboxes s) k = Some sb \<longrightarrow> sb_ID sb = k \<and> valid_sandbox sb)"

definition inv_operations :: "State \<Rightarrow> bool" where
  "inv_operations s \<longleftrightarrow>
     (\<forall>k p. fmlookup (st_Operations s) k = Some p \<longrightarrow>
        op_ID p = k \<and> valid_operation p \<and> op_SandboxID p |\<in>| fmdom (st_Sandboxes s))"

definition lease_agrees :: "State \<Rightarrow> string \<Rightarrow> Sandbox \<Rightarrow> Lease \<Rightarrow> bool" where
  "lease_agrees s k sb l \<longleftrightarrow>
     ls_SandboxID l = k \<and> Lease_Validate l = None \<and> ls_ExpiresAt l = sb_LeaseExpiresAt sb \<and>
     ls_Generation l = sb_Generation sb \<and>
     ls_FencingToken l \<le> fmget (st_Fencing s) (fencingScope (sb_ProviderRevisionID sb) k)"

definition inv_leases :: "State \<Rightarrow> bool" where
  "inv_leases s \<longleftrightarrow>
     fmdom (st_Leases s) = fmdom (st_Sandboxes s) \<and>
     (\<forall>k sb l. fmlookup (st_Sandboxes s) k = Some sb \<longrightarrow> fmlookup (st_Leases s) k = Some l \<longrightarrow>
        lease_agrees s k sb l)"

definition inv_fencing :: "State \<Rightarrow> bool" where
  "inv_fencing s \<longleftrightarrow>
     (\<forall>k t. fmlookup (st_Fencing s) k = Some t \<longrightarrow> k \<noteq> [] \<and> t \<noteq> 0)"

definition inv_idempotency :: "State \<Rightarrow> bool" where
  "inv_idempotency s \<longleftrightarrow>
     (\<forall>k r. fmlookup (st_Idempotency s) k = Some r \<longrightarrow>
        ir_Scope r = k \<and> k \<noteq> [] \<and> ir_Key r \<noteq> [] \<and> ir_RequestDigest r \<noteq> [] \<and>
        fmlookup (st_Operations s) (op_ID (ir_Operation r)) = Some (ir_Operation r)) \<and>
     (\<forall>k k' r r'. fmlookup (st_Idempotency s) k = Some r \<longrightarrow>
        fmlookup (st_Idempotency s) k' = Some r' \<longrightarrow>
        op_ID (ir_Operation r) = op_ID (ir_Operation r') \<longrightarrow> k = k')"

definition event_ok :: "State \<Rightarrow> string \<Rightarrow> Event \<Rightarrow> bool" where
  "event_ok s k e \<longleftrightarrow>
     ev_SandboxID e = k \<and> Event_Validate e = None \<and> ev_OperationID e |\<in>| fmdom (st_Operations s)"

definition inv_events :: "State \<Rightarrow> bool" where
  "inv_events s \<longleftrightarrow>
     fmdom (st_EventLatest s) = fmdom (st_Events s) \<and>
     (\<forall>k es. fmlookup (st_Events s) k = Some es \<longrightarrow>
        k |\<in>| fmdom (st_Sandboxes s) \<and> es \<noteq> [] \<and> length es \<le> maxRetainedEvents \<and>
        (\<forall>e \<in> set es. event_ok s k e) \<and> log_ok (fmget (st_EventLatest s) k) es)"

definition repo_inv :: "State \<Rightarrow> bool" where
  "repo_inv s \<longleftrightarrow>
     inv_sandboxes s \<and> inv_operations s \<and> inv_leases s \<and> inv_fencing s \<and> inv_idempotency s \<and>
     inv_events s"

lemma repo_inv_NewState: "repo_inv NewState"
  by (simp add: repo_inv_def inv_sandboxes_def inv_operations_def inv_leases_def inv_fencing_def
      inv_idempotency_def inv_events_def NewState_def)

section \<open>The log\<close>

lemma log_ok_empty: "log_ok 0 []"
  by (simp add: log_ok_def)

lemma log_ok_append:
  assumes "log_ok latest es" and "latest \<noteq> - 1" and "ev_Sequence e = latest + 1"
  shows "log_ok (latest + 1) (es @ [e])"
  using assms by (auto simp: log_ok_def unat_succ Suc_diff_le)

lemma log_ok_drop: "log_ok latest es \<Longrightarrow> log_ok latest (drop n es)"
  by (cases "n \<le> length es") (auto simp: log_ok_def drop_map [symmetric] drop_upt)

lemma log_ok_Nil: "log_ok latest [] \<longleftrightarrow> True"
  by (simp add: log_ok_def)

text \<open>The log as it reads: absent logs are empty and stand at zero.\<close>

lemma inv_events_log:
  assumes "inv_events s"
  shows "log_ok (fmget (st_EventLatest s) k) (fmlist (st_Events s) k)"
    and "e \<in> set (fmlist (st_Events s) k) \<Longrightarrow> event_ok s k e"
    and "length (fmlist (st_Events s) k) \<le> maxRetainedEvents"
    and "fmlist (st_Events s) k = [] \<longleftrightarrow> fmget (st_EventLatest s) k = 0"
proof -
  have "log_ok (fmget (st_EventLatest s) k) (fmlist (st_Events s) k) \<and>
    (e \<in> set (fmlist (st_Events s) k) \<longrightarrow> event_ok s k e) \<and>
    length (fmlist (st_Events s) k) \<le> maxRetainedEvents \<and>
    (fmlist (st_Events s) k = [] \<longleftrightarrow> fmget (st_EventLatest s) k = 0)"
  proof (cases "fmlookup (st_Events s) k")
    case None
    then have "k |\<notin>| fmdom (st_Events s)" by (rule fmdom_notI)
    with assms have "k |\<notin>| fmdom (st_EventLatest s)" by (simp add: inv_events_def)
    then have "fmlookup (st_EventLatest s) k = None" by (rule fmdom_notD)
    with None show ?thesis by (simp add: fmlist_def fmget_def log_ok_Nil)
  next
    case (Some es)
    with assms have "es \<noteq> []" "length es \<le> maxRetainedEvents" "\<forall>e \<in> set es. event_ok s k e"
      "log_ok (fmget (st_EventLatest s) k) es"
      unfolding inv_events_def by blast+
    moreover from this have "fmget (st_EventLatest s) k \<noteq> 0" by (auto simp: log_ok_def)
    ultimately show ?thesis using Some by (simp add: fmlist_def)
  qed
  then show "log_ok (fmget (st_EventLatest s) k) (fmlist (st_Events s) k)"
    and "e \<in> set (fmlist (st_Events s) k) \<Longrightarrow> event_ok s k e"
    and "length (fmlist (st_Events s) k) \<le> maxRetainedEvents"
    and "fmlist (st_Events s) k = [] \<longleftrightarrow> fmget (st_EventLatest s) k = 0"
    by blast+
qed

lemma appendRetainedEvent_frame [simp]:
  "st_Sandboxes (snd (appendRetainedEvent e s)) = st_Sandboxes s"
  "st_Operations (snd (appendRetainedEvent e s)) = st_Operations s"
  "st_Leases (snd (appendRetainedEvent e s)) = st_Leases s"
  "st_Idempotency (snd (appendRetainedEvent e s)) = st_Idempotency s"
  "st_Fencing (snd (appendRetainedEvent e s)) = st_Fencing s"
  by (simp_all add: appendRetainedEvent_def Let_def)

lemma appendRetainedEvent_maps:
  "st_EventLatest (snd (appendRetainedEvent e s)) =
     fmupd (ev_SandboxID e) (fmget (st_EventLatest s) (ev_SandboxID e) + 1) (st_EventLatest s)"
  "st_Events (snd (appendRetainedEvent e s)) =
     fmupd (ev_SandboxID e)
       (drop (length (fmlist (st_Events s) (ev_SandboxID e)) + 1 - maxRetainedEvents)
         (fmlist (st_Events s) (ev_SandboxID e) @
          [e\<lparr>ev_Sequence := fmget (st_EventLatest s) (ev_SandboxID e) + 1\<rparr>])) (st_Events s)"
  by (simp_all add: appendRetainedEvent_def Let_def)

lemma inv_events_append:
  assumes "inv_events s" and "Event_Validate e = None"
    and "ev_SandboxID e |\<in>| fmdom (st_Sandboxes s)" and "ev_OperationID e |\<in>| fmdom (st_Operations s)"
    and "fmget (st_EventLatest s) (ev_SandboxID e) \<noteq> - 1"
  shows "inv_events (snd (appendRetainedEvent e s))"
proof -
  let ?k = "ev_SandboxID e"
  let ?e = "e\<lparr>ev_Sequence := fmget (st_EventLatest s) ?k + 1\<rparr>"
  let ?es = "drop (length (fmlist (st_Events s) ?k) + 1 - maxRetainedEvents) (fmlist (st_Events s) ?k @ [?e])"
  have ok: "\<forall>x \<in> set ?es. event_ok s ?k x"
    using inv_events_log(2) [OF assms(1)] assms(2,4)
    by (auto simp: event_ok_def Event_Validate_None dest!: in_set_dropD)
  have log: "log_ok (fmget (st_EventLatest s) ?k + 1) ?es"
    by (rule log_ok_drop, rule log_ok_append [OF inv_events_log(1) [OF assms(1)]])
      (use assms(5) in auto)
  have "0 < maxRetainedEvents" by (simp add: maxRetainedEvents_def)
  then have "length ?es \<le> maxRetainedEvents" "0 < length ?es"
    unfolding length_drop length_append by simp_all
  then have "?es \<noteq> []" by blast
  have new: "\<And>k x. event_ok (snd (appendRetainedEvent e s)) k x = event_ok s k x"
    by (simp add: event_ok_def)
  show ?thesis
    unfolding inv_events_def new appendRetainedEvent_frame
  proof (intro conjI allI impI)
    show "fmdom (st_EventLatest (snd (appendRetainedEvent e s))) =
        fmdom (st_Events (snd (appendRetainedEvent e s)))"
      using assms(1) by (simp add: appendRetainedEvent_maps inv_events_def)
    fix k es
    assume es: "fmlookup (st_Events (snd (appendRetainedEvent e s))) k = Some es"
    have "k |\<in>| fmdom (st_Sandboxes s) \<and> es \<noteq> [] \<and> length es \<le> maxRetainedEvents \<and>
        (\<forall>x \<in> set es. event_ok s k x) \<and>
        log_ok (fmget (st_EventLatest (snd (appendRetainedEvent e s))) k) es"
    proof (cases "k = ?k")
      case True
      with es have "es = ?es" by (simp add: appendRetainedEvent_maps)
      with True ok log assms(3) \<open>?es \<noteq> []\<close> \<open>length ?es \<le> maxRetainedEvents\<close> show ?thesis
        by (simp only: appendRetainedEvent_maps fmget_upd simp_thms if_True)
    next
      case False
      with es have "fmlookup (st_Events s) k = Some es" by (simp add: appendRetainedEvent_maps)
      with False assms(1) show ?thesis
        unfolding inv_events_def by (simp add: appendRetainedEvent_maps)
    qed
    then show "k |\<in>| fmdom (st_Sandboxes s)" "es \<noteq> []" "length es \<le> maxRetainedEvents"
      "\<forall>x \<in> set es. event_ok s k x"
      "log_ok (fmget (st_EventLatest (snd (appendRetainedEvent e s))) k) es"
      by blast+
  qed
qed

section \<open>Reading the invariant\<close>

lemma repo_inv_sandboxD:
  "repo_inv s \<Longrightarrow> fmlookup (st_Sandboxes s) k = Some sb \<Longrightarrow> sb_ID sb = k \<and> valid_sandbox sb"
  by (auto simp: repo_inv_def inv_sandboxes_def)

lemma repo_inv_operationD:
  "repo_inv s \<Longrightarrow> fmlookup (st_Operations s) k = Some p \<Longrightarrow>
   op_ID p = k \<and> valid_operation p \<and> op_SandboxID p |\<in>| fmdom (st_Sandboxes s)"
  by (auto simp: repo_inv_def inv_operations_def)

lemma repo_inv_leaseD:
  "repo_inv s \<Longrightarrow> fmlookup (st_Sandboxes s) k = Some sb \<Longrightarrow>
   \<exists>l. fmlookup (st_Leases s) k = Some l \<and> lease_agrees s k sb l"
  unfolding repo_inv_def inv_leases_def by (metis fmdomI fmlookup_dom_iff)

lemma repo_inv_idempotencyD:
  "repo_inv s \<Longrightarrow> fmlookup (st_Idempotency s) k = Some r \<Longrightarrow>
   ir_Scope r = k \<and> k \<noteq> [] \<and> ir_Key r \<noteq> [] \<and> ir_RequestDigest r \<noteq> [] \<and>
   fmlookup (st_Operations s) (op_ID (ir_Operation r)) = Some (ir_Operation r)"
  by (auto simp: repo_inv_def inv_idempotency_def)

lemma valid_sandbox_revision: "valid_sandbox sb \<Longrightarrow> identifierPattern (sb_ProviderRevisionID sb)"
  by (simp add: Sandbox_Validate_None)

lemma not_blank_nonempty: "\<not> blank k \<Longrightarrow> k \<noteq> []"
  by auto

text \<open>The fencing mark a sandbox is governed by.\<close>

definition fence_of :: "State \<Rightarrow> Sandbox \<Rightarrow> u64" where
  "fence_of s sb = fmget (st_Fencing s) (fencingScope (sb_ProviderRevisionID sb) (sb_ID sb))"

lemma lease_agrees_mono:
  assumes "lease_agrees s k sb l"
    and "fmget (st_Fencing s) (fencingScope (sb_ProviderRevisionID sb) k)
       \<le> fmget (st_Fencing s') (fencingScope (sb_ProviderRevisionID sb) k)"
  shows "lease_agrees s' k sb l"
  using assms by (auto simp: lease_agrees_def)

lemma inv_events_mono:
  assumes "inv_events s" and "st_Events s' = st_Events s" and "st_EventLatest s' = st_EventLatest s"
    and "fmdom (st_Sandboxes s) |\<subseteq>| fmdom (st_Sandboxes s')"
    and "fmdom (st_Operations s) |\<subseteq>| fmdom (st_Operations s')"
  shows "inv_events s'"
  unfolding inv_events_def assms(2,3)
proof (intro conjI allI impI)
  show "fmdom (st_EventLatest s) = fmdom (st_Events s)" using assms(1) by (simp add: inv_events_def)
  fix k es
  assume "fmlookup (st_Events s) k = Some es"
  with assms(1) have *: "k |\<in>| fmdom (st_Sandboxes s)" "es \<noteq> []" "length es \<le> maxRetainedEvents"
    "\<forall>e \<in> set es. event_ok s k e" "log_ok (fmget (st_EventLatest s) k) es"
    unfolding inv_events_def by blast+
  then show "es \<noteq> []" "length es \<le> maxRetainedEvents" "log_ok (fmget (st_EventLatest s) k) es"
    by blast+
  from *(1) assms(4) show "k |\<in>| fmdom (st_Sandboxes s')" by blast
  from *(4) assms(5) show "\<forall>e \<in> set es. event_ok s' k e" unfolding event_ok_def by blast
qed

text \<open>A new operation, recorded with its idempotency key, keeps the mirror of operations.\<close>

lemma inv_idempotency_new:
  assumes "inv_idempotency s" and "fmlookup (st_Operations s) (op_ID p) = None"
    and "st_Operations s' = fmupd (op_ID p) p (st_Operations s)"
    and "st_Idempotency s' = fmupd scope
      \<lparr>ir_Scope = scope, ir_Key = key, ir_RequestDigest = digest, ir_Operation = p\<rparr> (st_Idempotency s)"
    and "scope \<noteq> []" and "key \<noteq> []" and "digest \<noteq> []"
  shows "inv_idempotency s'"
proof -
  have fresh: "op_ID (ir_Operation r) \<noteq> op_ID p" if "fmlookup (st_Idempotency s) k = Some r" for k r
    using assms(1,2) that unfolding inv_idempotency_def by force
  show ?thesis
    unfolding inv_idempotency_def assms(3,4)
    using assms(1,5-7) fresh unfolding inv_idempotency_def
    by (auto split: if_splits) metis+
qed

section \<open>Preservation\<close>

lemma created_state_simps [simp]:
  "st_Sandboxes (created_state key digest sb p s) = fmupd (sb_ID sb) sb (st_Sandboxes s)"
  "st_Operations (created_state key digest sb p s) = fmupd (op_ID p) p (st_Operations s)"
  "st_Events (created_state key digest sb p s) = st_Events s"
  "st_EventLatest (created_state key digest sb p s) = st_EventLatest s"
  "st_Fencing (created_state key digest sb p s) =
     fmupd (fencingScope (sb_ProviderRevisionID sb) (sb_ID sb)) (op_FencingToken p) (st_Fencing s)"
  by (simp_all add: created_state_def Let_def)

lemma mutated_state_simps [simp]:
  "st_Sandboxes (mutated_state key digest sb p l s) = fmupd (sb_ID sb) sb (st_Sandboxes s)"
  "st_Operations (mutated_state key digest sb p l s) = fmupd (op_ID p) p (st_Operations s)"
  "st_Events (mutated_state key digest sb p l s) = st_Events s"
  "st_EventLatest (mutated_state key digest sb p l s) = st_EventLatest s"
  by (simp_all add: mutated_state_def Let_def)

lemma ReserveCreate_inv:
  assumes "repo_inv s" and "ReserveCreate key digest sb p s = Inr (r, s')"
  shows "repo_inv s'"
  using assms(2)
proof (cases rule: ReserveCreate_cases)
  case replay
  with assms(1) show ?thesis by simp
next
  case fresh
  have other: "fencingScope (sb_ProviderRevisionID sb') k \<noteq> fencingScope (sb_ProviderRevisionID sb) (sb_ID sb)"
    if "fmlookup (st_Sandboxes s) k = Some sb'" for k sb'
    using that repo_inv_sandboxD [OF assms(1) that] fresh
    by (auto simp: fencingScope_inject valid_sandbox_revision)
  have "inv_leases s'"
    unfolding inv_leases_def
  proof (intro conjI allI impI)
    show "fmdom (st_Leases s') = fmdom (st_Sandboxes s')"
      using assms(1) fresh by (simp add: repo_inv_def inv_leases_def created_state_def Let_def)
    fix k sb' l
    assume look: "fmlookup (st_Sandboxes s') k = Some sb'" "fmlookup (st_Leases s') k = Some l"
    show "lease_agrees s' k sb' l"
    proof (cases "k = sb_ID sb")
      case True
      with look fresh show ?thesis
        by (auto simp: lease_agrees_def created_state_def Let_def Sandbox_Validate_None
            Operation_Validate_None Lease_Validate_None)
    next
      case False
      with look fresh have "fmlookup (st_Sandboxes s) k = Some sb'" "fmlookup (st_Leases s) k = Some l"
        by (auto simp: created_state_def Let_def)
      with assms(1) have "lease_agrees s k sb' l" unfolding repo_inv_def inv_leases_def by blast
      then show ?thesis
        by (rule lease_agrees_mono) (use other \<open>fmlookup (st_Sandboxes s) k = Some sb'\<close> in
          \<open>simp add: \<open>s' = _\<close>\<close>)
    qed
  qed
  moreover have "inv_idempotency s'"
    by (rule inv_idempotency_new [of s p])
      (use assms(1) fresh in \<open>auto simp: repo_inv_def created_state_def Let_def\<close>)
  moreover have "inv_events s'"
    by (rule inv_events_mono [of s]) (use assms(1) in \<open>auto simp: \<open>s' = _\<close> repo_inv_def\<close>)
  moreover have "inv_sandboxes s'" "inv_operations s'" "inv_fencing s'"
    using assms(1) fresh
    by (auto simp: repo_inv_def inv_sandboxes_def inv_operations_def inv_fencing_def
        Operation_Validate_None)
  ultimately show ?thesis by (simp add: repo_inv_def)
qed

lemma ReserveMutation_inv:
  assumes "repo_inv s" and "ReserveMutation key digest g sb p e s = Inr (r, s')"
    and "fmget (st_EventLatest s) (sb_ID sb) \<noteq> - 1"
  shows "repo_inv s'"
  using assms(2)
proof (cases rule: ReserveMutation_cases)
  case replay
  with assms(1) show ?thesis by simp
next
  case (fresh current lease)
  let ?t = "mutated_state key digest sb p lease s"
  let ?scope = "fencingScope (sb_ProviderRevisionID sb) (sb_ID sb)"
  have fence: "fmget (st_Fencing s) x \<le> fmget (st_Fencing ?t) x" for x
    by (auto simp: mutated_state_def Let_def)
  have cur: "sb_ID current = sb_ID sb" "valid_sandbox current"
    using repo_inv_sandboxD [OF assms(1)] fresh(11) by auto
  have dom: "sb_ID sb |\<in>| fmdom (st_Sandboxes s)" using fresh(11) by (rule fmdomI)
  have "inv_leases ?t"
    unfolding inv_leases_def
  proof (intro conjI allI impI)
    show "fmdom (st_Leases ?t) = fmdom (st_Sandboxes ?t)"
      using assms(1) by (simp add: repo_inv_def inv_leases_def mutated_state_def Let_def)
    fix k sb' l
    assume look: "fmlookup (st_Sandboxes ?t) k = Some sb'" "fmlookup (st_Leases ?t) k = Some l"
    show "lease_agrees ?t k sb' l"
    proof (cases "k = sb_ID sb")
      case True
      have "ls_SandboxID lease = sb_ID sb"
        using repo_inv_leaseD [OF assms(1) fresh(11)] fresh(23) by (auto simp: lease_agrees_def)
      with True look fresh(1,2,19) show ?thesis
        by (auto simp: lease_agrees_def mutated_state_def Let_def Sandbox_Validate_None
            Operation_Validate_None Lease_Validate_None split: if_splits)
    next
      case False
      with look have "fmlookup (st_Sandboxes s) k = Some sb'" "fmlookup (st_Leases s) k = Some l"
        by (auto simp: mutated_state_def Let_def)
      with assms(1) have "lease_agrees s k sb' l" unfolding repo_inv_def inv_leases_def by blast
      then show ?thesis by (rule lease_agrees_mono) (rule fence)
    qed
  qed
  moreover have "inv_idempotency ?t"
    by (rule inv_idempotency_new [of s p])
      (use assms(1) fresh(9,10,20) in \<open>auto simp: repo_inv_def mutated_state_def Let_def\<close>)
  moreover have "inv_events ?t"
    by (rule inv_events_mono [of s]) (use assms(1) in \<open>auto simp: repo_inv_def\<close>)
  moreover have "inv_sandboxes ?t" "inv_operations ?t"
    using assms(1) fresh(1,2,6) by (auto simp: repo_inv_def inv_sandboxes_def inv_operations_def)
  moreover have "inv_fencing ?t"
    using assms(1) fresh(2)
    by (auto simp: repo_inv_def inv_fencing_def mutated_state_def Let_def Operation_Validate_None)
  ultimately have t: "repo_inv ?t" by (simp add: repo_inv_def)
  have "inv_events (snd (appendRetainedEvent e ?t))"
    by (rule inv_events_append) (use t fresh assms(3) in \<open>auto simp: repo_inv_def\<close>)
  with t show ?thesis
    unfolding fresh(25) repo_inv_def inv_sandboxes_def inv_operations_def inv_leases_def
      lease_agrees_def inv_fencing_def inv_idempotency_def appendRetainedEvent_frame by blast
qed

text \<open>
  An update of a sandbox must leave its provider revision alone: the operation does not check that,
  and a sandbox under another revision has no fencing mark.
\<close>

lemma UpdateSandbox_inv:
  assumes "repo_inv s" and "UpdateSandbox sb g t s = Inr s'"
    and "\<And>cur. fmlookup (st_Sandboxes s) (sb_ID sb) = Some cur \<Longrightarrow>
       sb_ProviderRevisionID sb = sb_ProviderRevisionID cur"
  shows "repo_inv s'"
  using assms(2)
proof (cases rule: UpdateSandbox_cases)
  case (1 current)
  have frame: "st_Sandboxes s' = fmupd (sb_ID sb) sb (st_Sandboxes s)"
    "st_Operations s' = st_Operations s" "st_Events s' = st_Events s"
    "st_EventLatest s' = st_EventLatest s" "st_Idempotency s' = st_Idempotency s"
    "st_Fencing s' = st_Fencing s"
    using 1(10) by auto
  from repo_inv_leaseD [OF assms(1) 1(2)] obtain lease where
    lease: "fmlookup (st_Leases s) (sb_ID sb) = Some lease" "lease_agrees s (sb_ID sb) current lease"
    by auto
  have leases: "st_Leases s' = fmupd (sb_ID sb) (lease\<lparr>ls_Generation := sb_Generation sb\<rparr>) (st_Leases s)"
    using 1(10) lease by (auto simp: lease_agrees_def intro!: fmap_ext)
  have dom: "sb_ID sb |\<in>| fmdom (st_Sandboxes s)" using 1(2) by (rule fmdomI)
  have "inv_leases s'"
    unfolding inv_leases_def
  proof (intro conjI allI impI)
    show "fmdom (st_Leases s') = fmdom (st_Sandboxes s')"
      using assms(1) by (simp add: repo_inv_def inv_leases_def frame leases)
    fix k sb' l
    assume look: "fmlookup (st_Sandboxes s') k = Some sb'" "fmlookup (st_Leases s') k = Some l"
    show "lease_agrees s' k sb' l"
    proof (cases "k = sb_ID sb")
      case True
      with look lease(2) 1(1,8) assms(3) [OF 1(2)] show ?thesis
        by (auto simp: lease_agrees_def frame leases Lease_Validate_None Sandbox_Validate_None)
    next
      case False
      with look assms(1) have "lease_agrees s k sb' l"
        unfolding repo_inv_def inv_leases_def by (simp add: frame leases)
      then show ?thesis by (rule lease_agrees_mono) (simp add: frame)
    qed
  qed
  moreover have "inv_events s'"
    by (rule inv_events_mono [of s]) (use assms(1) in \<open>auto simp: frame repo_inv_def\<close>)
  moreover have "inv_sandboxes s'" "inv_operations s'" "inv_idempotency s'" "inv_fencing s'"
    using assms(1) 1(1)
    by (auto simp: repo_inv_def inv_sandboxes_def inv_operations_def inv_idempotency_def
        inv_fencing_def frame)
  ultimately show ?thesis by (simp add: repo_inv_def)
qed

text \<open>The idempotency record of an operation does not depend on the order of the search.\<close>

lemma IdempotencyForOperation_iff:
  assumes "repo_inv s"
  shows "IdempotencyForOperation s i = Some r \<longleftrightarrow>
    fmlookup (st_Idempotency s) (ir_Scope r) = Some r \<and> op_ID (ir_Operation r) = i"
proof
  assume "IdempotencyForOperation s i = Some r"
  then have "r \<in> set (fmvals (st_Idempotency s))" and i: "op_ID (ir_Operation r) = i"
    unfolding IdempotencyForOperation_def find_Some_iff by auto
  then obtain k where "fmlookup (st_Idempotency s) k = Some r" by (auto simp: set_fmvals)
  with i repo_inv_idempotencyD [OF assms this]
  show "fmlookup (st_Idempotency s) (ir_Scope r) = Some r \<and> op_ID (ir_Operation r) = i" by simp
next
  assume r: "fmlookup (st_Idempotency s) (ir_Scope r) = Some r \<and> op_ID (ir_Operation r) = i"
  then have "r \<in> set (fmvals (st_Idempotency s))" unfolding set_fmvals by blast
  with r have "\<exists>x \<in> set (fmvals (st_Idempotency s)). op_ID (ir_Operation x) = i" by blast
  then obtain r' where r': "IdempotencyForOperation s i = Some r'"
    unfolding IdempotencyForOperation_def by (metis (mono_tags, lifting) find_None_iff option.exhaust)
  then have "r' \<in> set (fmvals (st_Idempotency s))" "op_ID (ir_Operation r') = i"
    unfolding IdempotencyForOperation_def find_Some_iff by auto
  then obtain k where "fmlookup (st_Idempotency s) k = Some r'" by (auto simp: set_fmvals)
  with r \<open>op_ID (ir_Operation r') = i\<close> assms have "k = ir_Scope r"
    unfolding repo_inv_def inv_idempotency_def by metis
  with \<open>fmlookup (st_Idempotency s) k = Some r'\<close> r r' show "IdempotencyForOperation s i = Some r" by simp
qed

lemma IdempotencyForOperation_None:
  "IdempotencyForOperation s i = None \<longleftrightarrow>
    (\<forall>k r. fmlookup (st_Idempotency s) k = Some r \<longrightarrow> op_ID (ir_Operation r) \<noteq> i)"
  unfolding IdempotencyForOperation_def find_None_iff by (metis set_fmvals)

text \<open>
  The idempotency mirror after an operation is replaced: \<open>idem'\<close> is the old map with the
  record of that operation, if there is one, brought up to date.
\<close>

lemma inv_idempotency_update:
  assumes inv: "inv_idempotency s" and ops: "st_Operations s' = fmupd (op_ID p) p (st_Operations s)"
    and same: "\<And>k r. fmlookup (st_Idempotency s') k = Some r \<Longrightarrow>
      \<exists>r0. fmlookup (st_Idempotency s) k = Some r0 \<and>
        (r = r0 \<and> op_ID (ir_Operation r0) \<noteq> op_ID p \<or>
         r = r0\<lparr>ir_Operation := p\<rparr> \<and> op_ID (ir_Operation r0) = op_ID p)"
  shows "inv_idempotency s'"
  unfolding inv_idempotency_def
proof (intro conjI allI impI)
  fix k r
  assume "fmlookup (st_Idempotency s') k = Some r"
  from same [OF this] obtain r0 where r0: "fmlookup (st_Idempotency s) k = Some r0"
    and cases: "r = r0 \<and> op_ID (ir_Operation r0) \<noteq> op_ID p \<or>
      r = r0\<lparr>ir_Operation := p\<rparr> \<and> op_ID (ir_Operation r0) = op_ID p" by blast
  from inv r0 have "ir_Scope r0 = k \<and> k \<noteq> [] \<and> ir_Key r0 \<noteq> [] \<and> ir_RequestDigest r0 \<noteq> [] \<and>
      fmlookup (st_Operations s) (op_ID (ir_Operation r0)) = Some (ir_Operation r0)"
    unfolding inv_idempotency_def by blast
  with cases have "ir_Scope r = k \<and> k \<noteq> [] \<and> ir_Key r \<noteq> [] \<and> ir_RequestDigest r \<noteq> [] \<and>
      fmlookup (st_Operations s') (op_ID (ir_Operation r)) = Some (ir_Operation r)"
    by (elim disjE) (auto simp: ops)
  then show "ir_Scope r = k" "k \<noteq> []" "ir_Key r \<noteq> []" "ir_RequestDigest r \<noteq> []"
    "fmlookup (st_Operations s') (op_ID (ir_Operation r)) = Some (ir_Operation r)" by blast+
next
  fix k k' r r'
  assume "fmlookup (st_Idempotency s') k = Some r" "fmlookup (st_Idempotency s') k' = Some r'"
    and eq: "op_ID (ir_Operation r) = op_ID (ir_Operation r')"
  then obtain r0 r1 where "fmlookup (st_Idempotency s) k = Some r0"
    "fmlookup (st_Idempotency s) k' = Some r1" "op_ID (ir_Operation r) = op_ID (ir_Operation r0)"
    "op_ID (ir_Operation r') = op_ID (ir_Operation r1)"
    using same [of k r] same [of k' r'] by fastforce
  with eq inv show "k = k'" unfolding inv_idempotency_def by metis
qed

lemma UpdateOperation_inv:
  assumes "repo_inv s" and "UpdateOperation p s = Inr s'"
  shows "repo_inv s'"
  using assms(2)
proof (cases rule: UpdateOperation_cases)
  case (1 current)
  have frame: "st_Sandboxes s' = st_Sandboxes s" "st_Leases s' = st_Leases s"
    "st_Operations s' = fmupd (op_ID p) p (st_Operations s)" "st_Events s' = st_Events s"
    "st_EventLatest s' = st_EventLatest s" "st_Fencing s' = st_Fencing s"
    using 1(6) by (auto split: option.splits)
  have "op_SandboxID p |\<in>| fmdom (st_Sandboxes s)"
    using repo_inv_operationD [OF assms(1) 1(2)] 1(3) by simp
  then have "inv_operations s'"
    using assms(1) 1(1) by (auto simp: repo_inv_def inv_operations_def frame)
  moreover have "inv_idempotency s'"
  proof (rule inv_idempotency_update [of s s' p])
    fix k r
    assume look: "fmlookup (st_Idempotency s') k = Some r"
    show "\<exists>r0. fmlookup (st_Idempotency s) k = Some r0 \<and>
        (r = r0 \<and> op_ID (ir_Operation r0) \<noteq> op_ID p \<or>
         r = r0\<lparr>ir_Operation := p\<rparr> \<and> op_ID (ir_Operation r0) = op_ID p)"
    proof (cases "IdempotencyForOperation s (op_ID p)")
      case None
      with look 1(6) have "fmlookup (st_Idempotency s) k = Some r" by simp
      with None show ?thesis unfolding IdempotencyForOperation_None by blast
    next
      case (Some rec)
      then have i: "st_Idempotency s' =
          fmupd (ir_Scope rec) (rec\<lparr>ir_Operation := p\<rparr>) (st_Idempotency s)" using 1(6) by simp
      from Some have rec: "fmlookup (st_Idempotency s) (ir_Scope rec) = Some rec"
        "op_ID (ir_Operation rec) = op_ID p"
        unfolding IdempotencyForOperation_iff [OF assms(1)] by auto
      show ?thesis
      proof (cases "k = ir_Scope rec")
        case True
        with look i rec show ?thesis by simp
      next
        case False
        with look i have r: "fmlookup (st_Idempotency s) k = Some r" by simp
        with rec False assms(1) have "op_ID (ir_Operation r) \<noteq> op_ID p"
          unfolding repo_inv_def inv_idempotency_def by metis
        with r show ?thesis by blast
      qed
    qed
  qed (use assms(1) in \<open>simp_all add: repo_inv_def frame\<close>)
  moreover have "inv_events s'"
    by (rule inv_events_mono [of s]) (use assms(1) in \<open>auto simp: frame repo_inv_def\<close>)
  ultimately show ?thesis
    using assms(1)
    by (simp add: repo_inv_def inv_sandboxes_def inv_leases_def lease_agrees_def inv_fencing_def frame)
qed

text \<open>
  A replaced lease must not carry a token above the fencing mark: the operation checks the token of
  the caller, not the token in the lease.
\<close>

lemma ReplaceLease_inv:
  assumes "repo_inv s" and "ReplaceLease l t s = Inr s'" and "ls_FencingToken l \<le> t"
  shows "repo_inv s'"
  using assms(2)
proof (cases rule: ReplaceLease_cases)
  case (1 current sb)
  let ?sb = "sb\<lparr>sb_LeaseExpiresAt := ls_ExpiresAt l\<rparr>"
  from repo_inv_sandboxD [OF assms(1) 1(4)] have sb: "sb_ID sb = ls_SandboxID l" "valid_sandbox sb"
    by auto
  from repo_inv_leaseD [OF assms(1) 1(4)] 1(2,3) have gen: "ls_Generation l = sb_Generation sb"
    by (auto simp: lease_agrees_def)
  have dom: "ls_SandboxID l |\<in>| fmdom (st_Sandboxes s)" using 1(4) by (rule fmdomI)
  have "inv_leases s'"
    unfolding inv_leases_def
  proof (intro conjI allI impI)
    show "fmdom (st_Leases s') = fmdom (st_Sandboxes s')"
      using assms(1) by (simp add: repo_inv_def inv_leases_def 1(7))
    fix k sb' l'
    assume look: "fmlookup (st_Sandboxes s') k = Some sb'" "fmlookup (st_Leases s') k = Some l'"
    show "lease_agrees s' k sb' l'"
    proof (cases "k = ls_SandboxID l")
      case True
      with look have "sb' = ?sb" "l' = l" by (auto simp: 1(7))
      with True gen sb 1(1,6) assms(3) show ?thesis by (auto simp: lease_agrees_def 1(7))
    next
      case False
      with look have "fmlookup (st_Sandboxes s) k = Some sb'" "fmlookup (st_Leases s) k = Some l'"
        by (auto simp: 1(7))
      with assms(1) have "lease_agrees s k sb' l'" unfolding repo_inv_def inv_leases_def by blast
      then show ?thesis by (rule lease_agrees_mono) (simp add: 1(7))
    qed
  qed
  moreover have "valid_sandbox ?sb" using sb(2) 1(1) by (simp add: Sandbox_Validate_None Lease_Validate_None)
  then have "inv_sandboxes s'"
    using assms(1) sb by (auto simp: repo_inv_def inv_sandboxes_def 1(7))
  moreover have "inv_events s'"
    by (rule inv_events_mono [of s]) (use assms(1) in \<open>auto simp: 1(7) repo_inv_def\<close>)
  ultimately show ?thesis
    using assms(1)
    by (auto simp: repo_inv_def inv_operations_def inv_idempotency_def inv_fencing_def 1(7))
qed

text \<open>
  An appended event must name an operation that the repository holds, which the operation does not
  check either.
\<close>

lemma AppendEvent_inv:
  assumes "repo_inv s" and "AppendEvent e s = Inr (e', s')"
    and "ev_OperationID e |\<in>| fmdom (st_Operations s)"
    and "fmget (st_EventLatest s) (ev_SandboxID e) \<noteq> - 1"
  shows "repo_inv s'"
  using assms(2)
proof (cases rule: AppendEvent_cases)
  case replay
  with assms(1) show ?thesis by simp
next
  case (fresh sb)
  from fresh(2) have "ev_SandboxID e |\<in>| fmdom (st_Sandboxes s)" by (rule fmdomI)
  with assms fresh(1) have "inv_events (snd (appendRetainedEvent e s))"
    by (intro inv_events_append) (auto simp: repo_inv_def)
  moreover have "s' = snd (appendRetainedEvent e s)" using fresh(6) by (metis snd_conv)
  ultimately show ?thesis
    using assms(1)
    unfolding repo_inv_def inv_sandboxes_def inv_operations_def inv_leases_def
      lease_agrees_def inv_fencing_def inv_idempotency_def
    by (simp only: appendRetainedEvent_frame) blast
qed

end
