(* ===== verification/Lifecycle_Safety.thy ===== *)
theory Lifecycle_Safety
  imports Lifecycle_Invariant
begin

text \<open>
  What the repository guarantees over any interleaving of its callers. The adapters run each
  operation under a lock, so a history is a sequence of whole operations, in any order and from any
  number of callers: \<open>repo_step\<close> has one rule per writing operation, with the side conditions the
  callers meet, and \<open>repo_evolves\<close> is a history.
\<close>

inductive repo_step :: "State \<Rightarrow> State \<Rightarrow> bool" where
  create: "ReserveCreate key digest sb p s = Inr (cr, s') \<Longrightarrow> repo_step s s'"
| mutate: "ReserveMutation key digest g sb p e s = Inr (mr, s') \<Longrightarrow>
    fmget (st_EventLatest s) (sb_ID sb) \<noteq> - 1 \<Longrightarrow> repo_step s s'"
| update_sandbox: "UpdateSandbox sb g t s = Inr s' \<Longrightarrow>
    fmlookup (st_Sandboxes s) (sb_ID sb) = Some cur \<Longrightarrow>
    sb_ProviderRevisionID sb = sb_ProviderRevisionID cur \<Longrightarrow> repo_step s s'"
| update_operation: "UpdateOperation p s = Inr s' \<Longrightarrow> repo_step s s'"
| replace_lease: "ReplaceLease l t s = Inr s' \<Longrightarrow> ls_FencingToken l \<le> t \<Longrightarrow> repo_step s s'"
| append: "AppendEvent e s = Inr (e', s') \<Longrightarrow> ev_OperationID e |\<in>| fmdom (st_Operations s) \<Longrightarrow>
    fmget (st_EventLatest s) (ev_SandboxID e) \<noteq> - 1 \<Longrightarrow> repo_step s s'"

inductive repo_evolves :: "State \<Rightarrow> State \<Rightarrow> bool" where
  start: "repo_evolves s s"
| step: "repo_evolves s t \<Longrightarrow> repo_step t u \<Longrightarrow> repo_evolves s u"

lemma repo_evolves_trans: "repo_evolves t u \<Longrightarrow> repo_evolves s t \<Longrightarrow> repo_evolves s u"
  by (induction rule: repo_evolves.induct) (auto intro: repo_evolves.step)

lemma repo_step_evolves: "repo_step s t \<Longrightarrow> repo_evolves s t"
  by (rule repo_evolves.step [OF repo_evolves.start])

lemma repo_step_inv: "repo_step s t \<Longrightarrow> repo_inv s \<Longrightarrow> repo_inv t"
proof (induction rule: repo_step.induct)
  case (create key digest sb p s cr s')
  then show ?case by (blast intro: ReserveCreate_inv)
next
  case (mutate key digest g sb p e s mr s')
  then show ?case by (blast intro: ReserveMutation_inv)
next
  case (update_sandbox sb g t s s' cur)
  then show ?case by (intro UpdateSandbox_inv [of s sb g t s']) auto
next
  case (update_operation p s s')
  then show ?case by (blast intro: UpdateOperation_inv)
next
  case (replace_lease l t s s')
  then show ?case by (blast intro: ReplaceLease_inv)
next
  case (append e s e' s')
  then show ?case by (blast intro: AppendEvent_inv)
qed

lemma repo_evolves_inv: "repo_evolves s t \<Longrightarrow> repo_inv s \<Longrightarrow> repo_inv t"
  by (induction rule: repo_evolves.induct) (auto dest: repo_step_inv)

section \<open>What one step can do to a record\<close>

text \<open>
  How a record may change: a sandbox keeps its identity-bearing keys and its generation grows; an
  idempotency record keeps everything but its copy of the operation; an operation keeps its sandbox
  and attempt; a fencing mark only grows.
\<close>

definition sandbox_follows :: "Sandbox \<Rightarrow> Sandbox \<Rightarrow> bool" where
  "sandbox_follows a b \<longleftrightarrow>
     sb_ID b = sb_ID a \<and> sb_ProviderRevisionID b = sb_ProviderRevisionID a \<and>
     sb_Network b = sb_Network a \<and> sb_Generation a \<le> sb_Generation b"

definition operation_follows :: "Operation \<Rightarrow> Operation \<Rightarrow> bool" where
  "operation_follows a b \<longleftrightarrow>
     op_ID b = op_ID a \<and> op_SandboxID b = op_SandboxID a \<and> op_AttemptID b = op_AttemptID a"

definition record_follows :: "IdempotencyRecord \<Rightarrow> IdempotencyRecord \<Rightarrow> bool" where
  "record_follows a b \<longleftrightarrow>
     ir_Scope b = ir_Scope a \<and> ir_Key b = ir_Key a \<and> ir_RequestDigest b = ir_RequestDigest a \<and>
     operation_follows (ir_Operation a) (ir_Operation b)"

definition state_follows :: "State \<Rightarrow> State \<Rightarrow> bool" where
  "state_follows s t \<longleftrightarrow>
     (\<forall>k a. fmlookup (st_Sandboxes s) k = Some a \<longrightarrow>
        (\<exists>b. fmlookup (st_Sandboxes t) k = Some b \<and> sandbox_follows a b)) \<and>
     (\<forall>k a. fmlookup (st_Operations s) k = Some a \<longrightarrow>
        (\<exists>b. fmlookup (st_Operations t) k = Some b \<and> operation_follows a b)) \<and>
     (\<forall>k a. fmlookup (st_Idempotency s) k = Some a \<longrightarrow>
        (\<exists>b. fmlookup (st_Idempotency t) k = Some b \<and> record_follows a b)) \<and>
     (\<forall>k. fmget (st_Fencing s) k \<le> fmget (st_Fencing t) k)"

lemmas follows_defs = sandbox_follows_def operation_follows_def record_follows_def

lemma follows_refl [simp]:
  "sandbox_follows a a" "operation_follows p p" "record_follows r r" "state_follows s s"
  by (simp_all add: follows_defs state_follows_def)

lemma state_follows_trans: "state_follows s t \<Longrightarrow> state_follows t u \<Longrightarrow> state_follows s u"
proof -
  have sb: "sandbox_follows a b \<Longrightarrow> sandbox_follows b c \<Longrightarrow> sandbox_follows a c" for a b c
    by (auto simp: sandbox_follows_def)
  have op: "operation_follows a b \<Longrightarrow> operation_follows b c \<Longrightarrow> operation_follows a c" for a b c
    by (simp add: operation_follows_def)
  have ir: "record_follows a b \<Longrightarrow> record_follows b c \<Longrightarrow> record_follows a c" for a b c
    unfolding record_follows_def using op by metis
  assume "state_follows s t" "state_follows t u"
  then show ?thesis unfolding state_follows_def using sb op ir by (meson order_trans)
qed

lemma state_followsI:
  assumes "\<And>k a. fmlookup (st_Sandboxes s) k = Some a \<Longrightarrow>
      \<exists>b. fmlookup (st_Sandboxes t) k = Some b \<and> sandbox_follows a b"
    and "\<And>k a. fmlookup (st_Operations s) k = Some a \<Longrightarrow>
      \<exists>b. fmlookup (st_Operations t) k = Some b \<and> operation_follows a b"
    and "\<And>k a. fmlookup (st_Idempotency s) k = Some a \<Longrightarrow>
      \<exists>b. fmlookup (st_Idempotency t) k = Some b \<and> record_follows a b"
    and "\<And>k. fmget (st_Fencing s) k \<le> fmget (st_Fencing t) k"
  shows "state_follows s t"
  using assms unfolding state_follows_def by blast

lemma ReserveCreate_follows:
  "ReserveCreate key digest sb p s = Inr (cr, s') \<Longrightarrow> state_follows s s'"
proof (erule ReserveCreate_cases)
  assume none: "fmlookup (st_Sandboxes s) (sb_ID sb) = None" "fmlookup (st_Operations s) (op_ID p) = None"
    "fmlookup (st_Idempotency s) (idempotencyScope (sb_ProviderRevisionID sb) key) = None"
    "fmget (st_Fencing s) (fencingScope (sb_ProviderRevisionID sb) (sb_ID sb)) < op_FencingToken p"
    and "s' = created_state key digest sb p s"
  then show ?thesis
    by (intro state_followsI) (auto simp: created_state_def Let_def less_imp_le)
qed simp

lemma ReserveMutation_follows:
  assumes "ReserveMutation key digest g sb p e s = Inr (mr, s')"
  shows "state_follows s s'"
  using assms
proof (cases rule: ReserveMutation_cases)
  case (fresh current lease)
  have "sandbox_follows current sb"
    using fresh(14,16) by (auto simp: sandbox_follows_def sandbox_identity_def)
  moreover have "sb_ProviderRevisionID sb = sb_ProviderRevisionID current"
    using fresh(16) by (auto simp: sandbox_identity_def)
  ultimately show ?thesis
    unfolding fresh(25)
    by (intro state_followsI) (use fresh(11,12,20) in \<open>auto simp: mutated_state_def Let_def less_imp_le\<close>)
qed simp

lemma UpdateSandbox_follows:
  assumes "UpdateSandbox sb g t s = Inr s'" and "fmlookup (st_Sandboxes s) (sb_ID sb) = Some cur"
    and "sb_ProviderRevisionID sb = sb_ProviderRevisionID cur" and "repo_inv s"
  shows "state_follows s s'"
  using assms(1)
proof (cases rule: UpdateSandbox_cases)
  case (1 current)
  with assms(2,3) repo_inv_sandboxD [OF assms(4) 1(2)] have "sandbox_follows current sb"
    by (auto simp: sandbox_follows_def)
  with 1(2,10) show ?thesis by (intro state_followsI) auto
qed

lemma UpdateOperation_follows:
  assumes "UpdateOperation p s = Inr s'" and "repo_inv s"
  shows "state_follows s s'"
  using assms(1)
proof (cases rule: UpdateOperation_cases)
  case (1 current)
  have op: "operation_follows current p"
    using 1 repo_inv_operationD [OF assms(2) 1(2)] by (simp add: operation_follows_def)
  have rec: "record_follows r (r\<lparr>ir_Operation := p\<rparr>)"
    "fmlookup (st_Idempotency s) (ir_Scope r) = Some r"
    if "IdempotencyForOperation s (op_ID p) = Some r" for r
  proof -
    from that have r: "fmlookup (st_Idempotency s) (ir_Scope r) = Some r" "op_ID (ir_Operation r) = op_ID p"
      by (simp_all add: IdempotencyForOperation_iff [OF assms(2)])
    with repo_inv_idempotencyD [OF assms(2) r(1)] 1(2) have "ir_Operation r = current" by simp
    with op r show "record_follows r (r\<lparr>ir_Operation := p\<rparr>)"
      "fmlookup (st_Idempotency s) (ir_Scope r) = Some r" by (simp_all add: record_follows_def)
  qed
  show ?thesis
  proof (cases "IdempotencyForOperation s (op_ID p)")
    case None
    with 1(2,6) op show ?thesis by (intro state_followsI) auto
  next
    case (Some r)
    with 1(2,6) op rec [OF Some] show ?thesis by (intro state_followsI) auto
  qed
qed

lemma ReplaceLease_follows:
  assumes "ReplaceLease l t s = Inr s'"
  shows "state_follows s s'"
  using assms
proof (cases rule: ReplaceLease_cases)
  case (1 current sb)
  then show ?thesis by (intro state_followsI) (auto simp: sandbox_follows_def)
qed

lemma AppendEvent_follows:
  "AppendEvent e s = Inr (e', s') \<Longrightarrow> state_follows s s'"
proof (erule AppendEvent_cases)
  assume "(e', s') = appendRetainedEvent e s"
  then have "s' = snd (appendRetainedEvent e s)" by (metis snd_conv)
  then show ?thesis by (intro state_followsI) auto
qed simp

lemma repo_step_follows: "repo_step s t \<Longrightarrow> repo_inv s \<Longrightarrow> state_follows s t"
  by (induction rule: repo_step.induct)
    (auto intro: ReserveCreate_follows ReserveMutation_follows UpdateSandbox_follows
      UpdateOperation_follows ReplaceLease_follows AppendEvent_follows)

lemma repo_evolves_follows: "repo_evolves s t \<Longrightarrow> repo_inv s \<Longrightarrow> state_follows s t"
  by (induction rule: repo_evolves.induct)
    (auto intro: state_follows_trans repo_step_follows repo_evolves_inv)


lemma followsD:
  assumes "state_follows s t"
  shows "fmlookup (st_Sandboxes s) k = Some a \<Longrightarrow>
      \<exists>b. fmlookup (st_Sandboxes t) k = Some b \<and> sandbox_follows a b"
    and "fmlookup (st_Operations s) k = Some p \<Longrightarrow>
      \<exists>q. fmlookup (st_Operations t) k = Some q \<and> operation_follows p q"
    and "fmlookup (st_Idempotency s) k = Some r \<Longrightarrow>
      \<exists>q. fmlookup (st_Idempotency t) k = Some q \<and> record_follows r q"
    and "fmget (st_Fencing s) k \<le> fmget (st_Fencing t) k"
  using assms unfolding state_follows_def by blast+

section \<open>The invariant\<close>

text \<open>A sample history: a sandbox is reserved in an empty repository and its operation starts.\<close>

definition state1 :: State where
  "state1 = created_state ''key1'' digest1 sandbox1 operation1 NewState"

lemma create_sample:
  "ReserveCreate ''key1'' digest1 sandbox1 operation1 NewState =
     Inr (\<lparr>cres_Operation = operation1, cres_Replayed = False\<rparr>, state1)"
  by (simp add: ReserveCreate_def state1_def created_state_def NewState_def Let_def ValidateDigest_None
      not_blank_Cons byte_def sample_fields)

lemma state1_reachable: "repo_evolves NewState state1"
  by (rule repo_step_evolves [OF repo_step.create [OF create_sample]])

definition lease2 :: Lease where
  "lease2 = \<lparr>ls_SandboxID = ''sbx'', ls_ExpiresAt = 9000000000, ls_Generation = 1, ls_FencingToken = 1\<rparr>"

definition state2 :: State where
  "state2 = snd (appendRetainedEvent event2 (mutated_state ''key2'' digest1 sandbox2 operation2 lease2 state1))"

lemma sameSandboxIdentity_sample: "sameSandboxIdentity sandbox1 sandbox2"
  by (simp add: sameSandboxIdentity_def sandbox2_def)

lemma mutate_sample:
  "ReserveMutation ''key2'' digest1 1 sandbox2 operation2 event2 state1 =
     Inr (\<lparr>mres_Operation = operation2, mres_Sandbox = sandbox2, mres_Replayed = False\<rparr>, state2)"
  by (simp add: ReserveMutation_def state2_def state1_def created_state_def mutated_state_def NewState_def
      Let_def ValidateDigest_None not_blank_Cons byte_def idempotencyScope_def lease2_def
      sample_fields sameSandboxIdentity_sample)

lemma state2_reachable: "repo_evolves state1 state2"
  by (rule repo_step_evolves [OF repo_step.mutate [OF mutate_sample]])
    (simp add: state1_def created_state_def NewState_def Let_def)



section \<open>Fencing\<close>

text \<open>A token that the mark of its sandbox has passed.\<close>

definition superseded :: "string \<Rightarrow> u64 \<Rightarrow> State \<Rightarrow> bool" where
  "superseded i t s \<longleftrightarrow> (\<exists>sb. fmlookup (st_Sandboxes s) i = Some sb \<and> t < fence_of s sb)"

lemma superseded_evolves:
  assumes "superseded i t s" and "repo_inv s" and "repo_evolves s s'"
  shows "superseded i t s'"
proof -
  have fol: "state_follows s s'" and inv: "repo_inv s'"
    using assms repo_evolves_follows repo_evolves_inv by blast+
  obtain sb where sb: "fmlookup (st_Sandboxes s) i = Some sb" "t < fence_of s sb"
    using assms(1) by (auto simp: superseded_def)
  from followsD(1) [OF fol sb(1)] obtain b
    where b: "fmlookup (st_Sandboxes s') i = Some b" "sandbox_follows sb b" by blast
  have "sb_ID b = sb_ID sb" using repo_inv_sandboxD [OF inv b(1)] repo_inv_sandboxD [OF assms(2) sb(1)] by simp
  then have "t < fence_of s' b"
    using sb(2) b(2) followsD(4) [OF fol] by (auto simp: fence_of_def sandbox_follows_def intro: less_le_trans)
  then show ?thesis using b(1) by (auto simp: superseded_def)
qed

lemma not_Inr_isl: "(\<And>y. x = Inr y \<Longrightarrow> False) \<Longrightarrow> isl x"
  by (cases x) auto

lemma superseded_refused:
  assumes "repo_inv s" and "superseded i t s"
  shows "sb_ID n = i \<Longrightarrow> isl (UpdateSandbox n g t s)"
    and "op_SandboxID p = i \<Longrightarrow> op_FencingToken p = t \<Longrightarrow> isl (UpdateOperation p s)"
    and "ls_SandboxID l = i \<Longrightarrow> isl (ReplaceLease l t s)"
    and "ev_SandboxID e = i \<Longrightarrow> ev_FencingToken e = t \<Longrightarrow> AppendEvent e s = Inr (e', u) \<Longrightarrow> u = s"
    and "sb_ID n = i \<Longrightarrow> op_FencingToken p = t \<Longrightarrow> ReserveMutation key d g n p e s = Inr (r, u) \<Longrightarrow>
      mres_Replayed r \<and> u = s"
proof -
  obtain b where b: "fmlookup (st_Sandboxes s) i = Some b" "t < fence_of s b"
    using assms(2) by (auto simp: superseded_def)
  have bid: "sb_ID b = i" using repo_inv_sandboxD [OF assms(1) b(1)] by simp
  have fence: "t < fmget (st_Fencing s) (fencingScope (sb_ProviderRevisionID b) i)"
    using b(2) bid by (simp add: fence_of_def)
  have rev: "operationProviderRevision s i = sb_ProviderRevisionID b"
    using b(1) by (simp add: operationProviderRevision_def)
  show "isl (UpdateSandbox n g t s)" if "sb_ID n = i"
    by (rule not_Inr_isl, erule UpdateSandbox_cases) (use that b(1) bid fence in auto)
  show "isl (UpdateOperation p s)" if "op_SandboxID p = i" "op_FencingToken p = t"
    by (rule not_Inr_isl, erule UpdateOperation_cases) (use that rev fence in auto)
  show "isl (ReplaceLease l t s)" if "ls_SandboxID l = i"
    by (rule not_Inr_isl, erule ReplaceLease_cases) (use that b(1) bid fence in auto)
  show "u = s" if "ev_SandboxID e = i" "ev_FencingToken e = t" "AppendEvent e s = Inr (e', u)"
    using that(3) by (rule AppendEvent_cases) (use that(1,2) b(1) bid fence in auto)
  show "mres_Replayed r \<and> u = s"
    if "sb_ID n = i" "op_FencingToken p = t" "ReserveMutation key d g n p e s = Inr (r, u)"
    using that(3)
  proof (cases rule: ReserveMutation_cases)
    case (fresh current lease)
    from fresh(11,16) that(1) b(1) have "sb_ProviderRevisionID n = sb_ProviderRevisionID b"
      by (auto simp: sandbox_identity_def)
    with fresh(19) that(1,2) fence show ?thesis by simp
  qed simp
qed



section \<open>Idempotent replay\<close>

lemma ReserveCreate_valid:
  assumes "ReserveCreate key digest sb p s = Inr (r, s')"
  shows "Sandbox_Validate sb = None" "Operation_Validate p = None" "\<not> blank key"
    "op_Type p = OperationCreate" "op_State p = OperationAccepted" "op_SandboxID p = sb_ID sb"
    "digestPattern digest"
  using assms by (auto simp: ReserveCreate_def ValidateDigest_None)

lemma ReserveCreate_recorded:
  assumes "ReserveCreate key digest sb p s = Inr (r, s')"
  shows "\<exists>x. fmlookup (st_Idempotency s') (idempotencyScope (sb_ProviderRevisionID sb) key) = Some x \<and>
     ir_RequestDigest x = digest \<and> op_ID (ir_Operation x) = op_ID p"
  using assms by (rule ReserveCreate_cases) (auto simp: created_state_def Let_def)

lemma ReserveCreate_known:
  assumes "Sandbox_Validate sb = None" "Operation_Validate p = None" "\<not> blank key"
    "op_Type p = OperationCreate" "op_State p = OperationAccepted" "op_SandboxID p = sb_ID sb"
    "digestPattern digest"
    and "fmlookup (st_Idempotency s) (idempotencyScope (sb_ProviderRevisionID sb) key) = Some x"
  shows "ReserveCreate key digest sb p s =
     (if ir_RequestDigest x = digest \<and> op_ID (ir_Operation x) = op_ID p
      then Inr (\<lparr>cres_Operation = ir_Operation x, cres_Replayed = True\<rparr>, s)
      else Inl [ErrIdempotencyConflict])"
  using assms by (simp add: ReserveCreate_def ValidateDigest_None Let_def)

text \<open>
  C15. Creation is idempotent for as long as the repository lives. After a create was reserved, and
  after any further history, presenting the same create again changes nothing and answers with the
  operation as it stands now, while the same key with another request digest, or for another
  operation, is refused as an idempotency conflict.
\<close>

theorem create_replayed_forever:
  assumes "repo_inv s" and "ReserveCreate key digest sb p s = Inr (r, s1)" and "repo_evolves s1 s2"
  shows "\<exists>q. GetOperation (op_ID p) s2 = Inr q \<and>
    ReserveCreate key digest sb p s2 = Inr (\<lparr>cres_Operation = q, cres_Replayed = True\<rparr>, s2) \<and>
    (\<forall>d. digestPattern d \<and> d \<noteq> digest \<longrightarrow> ReserveCreate key d sb p s2 = Inl [ErrIdempotencyConflict]) \<and>
    (\<forall>p'. Operation_Validate p' = None \<and> op_Type p' = OperationCreate \<and>
       op_State p' = OperationAccepted \<and> op_SandboxID p' = sb_ID sb \<and> op_ID p' \<noteq> op_ID p \<longrightarrow>
       ReserveCreate key digest sb p' s2 = Inl [ErrIdempotencyConflict])"
proof -
  have inv: "repo_inv s1" "repo_inv s2"
    using assms ReserveCreate_inv repo_evolves_inv by blast+
  from ReserveCreate_recorded [OF assms(2)] obtain x
    where x: "fmlookup (st_Idempotency s1) (idempotencyScope (sb_ProviderRevisionID sb) key) = Some x"
      "ir_RequestDigest x = digest" "op_ID (ir_Operation x) = op_ID p" by blast
  from followsD(3) [OF repo_evolves_follows [OF assms(3) inv(1)] x(1)] obtain y
    where y: "fmlookup (st_Idempotency s2) (idempotencyScope (sb_ProviderRevisionID sb) key) = Some y"
      "ir_RequestDigest y = digest" "op_ID (ir_Operation y) = op_ID p"
    using x(2,3) by (auto simp: record_follows_def operation_follows_def)
  have "GetOperation (op_ID p) s2 = Inr (ir_Operation y)"
    using repo_inv_idempotencyD [OF inv(2) y(1)] y(3) by (simp add: GetOperation_def)
  with ReserveCreate_known [OF _ _ _ _ _ _ _ y(1)] y(2,3) ReserveCreate_valid [OF assms(2)]
  show ?thesis by auto
qed

theorem create_replayed_forever_witness:
  "\<exists>q. GetOperation ''op1'' state2 = Inr q \<and> ReserveCreate ''key1'' digest1 sandbox1 operation1 state2 =
     Inr (\<lparr>cres_Operation = q, cres_Replayed = True\<rparr>, state2)"
  using create_replayed_forever [OF repo_inv_NewState create_sample state2_reachable]
  by (auto simp: sample_fields)

lemma ReserveMutation_valid:
  assumes "ReserveMutation key digest g sb p e s = Inr (r, s')"
  shows "Sandbox_Validate sb = None" "Operation_Validate p = None" "Event_Validate e = None"
    "\<not> blank key" "digestPattern digest" "op_Type p \<noteq> OperationCreate" "op_State p = OperationAccepted"
    "op_SandboxID p = sb_ID sb" "ev_OperationID e = op_ID p" "ev_SandboxID e = sb_ID sb"
  using assms by (auto simp: ReserveMutation_def ValidateDigest_None)

lemma ReserveMutation_recorded:
  assumes "ReserveMutation key digest g sb p e s = Inr (r, s')"
  shows "\<exists>c x. fmlookup (st_Sandboxes s') (sb_ID sb) = Some c \<and>
     fmlookup (st_Idempotency s') (idempotencyScope (sb_ProviderRevisionID c) key) = Some x \<and>
     ir_RequestDigest x = digest \<and> op_ID (ir_Operation x) = op_ID p \<and>
     op_AttemptID (ir_Operation x) = op_AttemptID p"
  using assms by (rule ReserveMutation_cases) (auto simp: mutated_state_def Let_def)

lemma ReserveMutation_known:
  assumes "Sandbox_Validate sb = None" "Operation_Validate p = None" "Event_Validate e = None"
    "\<not> blank key" "digestPattern digest" "op_Type p \<noteq> OperationCreate" "op_State p = OperationAccepted"
    "op_SandboxID p = sb_ID sb" "ev_OperationID e = op_ID p" "ev_SandboxID e = sb_ID sb"
    and "fmlookup (st_Sandboxes s) (sb_ID sb) = Some c"
    and "fmlookup (st_Idempotency s) (idempotencyScope (sb_ProviderRevisionID c) key) = Some x"
  shows "ReserveMutation key digest g sb p e s =
     (if ir_RequestDigest x = digest \<and> op_ID (ir_Operation x) = op_ID p \<and>
         op_AttemptID (ir_Operation x) = op_AttemptID p
      then Inr (\<lparr>mres_Operation = ir_Operation x, mres_Sandbox = c, mres_Replayed = True\<rparr>, s)
      else Inl [ErrIdempotencyConflict])"
  using assms by (simp add: ReserveMutation_def ValidateDigest_None Let_def)

text \<open>
  A reserved mutation is idempotent for as long as the repository lives, whatever the generation
  and fence have become: the same request, with any expected generation, is answered from the record
  with the operation and the sandbox as they stand now and applies nothing twice, and another digest
  under the same key is refused.
\<close>

theorem mutation_replayed_forever:
  assumes "repo_inv s" and "ReserveMutation key digest g sb p e s = Inr (r, s1)"
    and "fmget (st_EventLatest s) (sb_ID sb) \<noteq> - 1" and "repo_evolves s1 s2"
  shows "\<exists>q c. GetOperation (op_ID p) s2 = Inr q \<and> GetSandbox (sb_ID sb) s2 = Inr c \<and>
    (\<forall>g'. ReserveMutation key digest g' sb p e s2 =
       Inr (\<lparr>mres_Operation = q, mres_Sandbox = c, mres_Replayed = True\<rparr>, s2)) \<and>
    (\<forall>g' d. digestPattern d \<and> d \<noteq> digest \<longrightarrow>
       ReserveMutation key d g' sb p e s2 = Inl [ErrIdempotencyConflict])"
proof -
  have inv: "repo_inv s1" "repo_inv s2"
    using assms ReserveMutation_inv repo_evolves_inv by blast+
  have fol: "state_follows s1 s2" by (rule repo_evolves_follows [OF assms(4) inv(1)])
  from ReserveMutation_recorded [OF assms(2)] obtain c x
    where x: "fmlookup (st_Sandboxes s1) (sb_ID sb) = Some c"
      "fmlookup (st_Idempotency s1) (idempotencyScope (sb_ProviderRevisionID c) key) = Some x"
      "ir_RequestDigest x = digest" "op_ID (ir_Operation x) = op_ID p"
      "op_AttemptID (ir_Operation x) = op_AttemptID p" by blast
  from followsD(1) [OF fol x(1)] obtain c'
    where c': "fmlookup (st_Sandboxes s2) (sb_ID sb) = Some c'"
      "sb_ProviderRevisionID c' = sb_ProviderRevisionID c" by (auto simp: sandbox_follows_def)
  from followsD(3) [OF fol x(2)] obtain y
    where y: "fmlookup (st_Idempotency s2) (idempotencyScope (sb_ProviderRevisionID c') key) = Some y"
      "ir_RequestDigest y = digest" "op_ID (ir_Operation y) = op_ID p"
      "op_AttemptID (ir_Operation y) = op_AttemptID p"
    using x(3-5) c'(2) by (auto simp: record_follows_def operation_follows_def)
  have "GetOperation (op_ID p) s2 = Inr (ir_Operation y)" "GetSandbox (sb_ID sb) s2 = Inr c'"
    using repo_inv_idempotencyD [OF inv(2) y(1)] y(3) c'(1) by (simp_all add: GetOperation_def GetSandbox_def)
  with ReserveMutation_known [OF _ _ _ _ _ _ _ _ _ _ c'(1) y(1)] y(2-4) ReserveMutation_valid [OF assms(2)]
  show ?thesis by simp
qed

theorem mutation_replayed_forever_witness:
  "\<exists>q c. GetOperation ''op2'' state2 = Inr q \<and> GetSandbox ''sbx'' state2 = Inr c \<and>
     ReserveMutation ''key2'' digest1 1 sandbox2 operation2 event2 state2 =
       Inr (\<lparr>mres_Operation = q, mres_Sandbox = c, mres_Replayed = True\<rparr>, state2)"
proof -
  have "repo_inv state1" using repo_evolves_inv [OF state1_reachable repo_inv_NewState] .
  moreover have "fmget (st_EventLatest state1) (sb_ID sandbox2) \<noteq> - 1"
    by (simp add: state1_def created_state_def NewState_def Let_def)
  ultimately show ?thesis
    using mutation_replayed_forever [OF _ mutate_sample _ repo_evolves.start]
    by (auto simp: sample_fields)
qed

section \<open>Records over time\<close>

text \<open>
  Nothing is lost or moved over a history: every sandbox is kept with its identifiers, provider
  revision and network policy and with a generation that never decreases, every operation is kept
  for the same sandbox and attempt, and no fencing mark decreases.
\<close>

theorem records_only_grow:
  assumes "repo_inv s" and "repo_evolves s s'"
  shows "(\<forall>i a. GetSandbox i s = Inr a \<longrightarrow> (\<exists>b. GetSandbox i s' = Inr b \<and> sb_ID b = sb_ID a \<and>
      sb_ProviderRevisionID b = sb_ProviderRevisionID a \<and> sb_Network b = sb_Network a \<and>
      sb_Generation a \<le> sb_Generation b)) \<and>
    (\<forall>i p. GetOperation i s = Inr p \<longrightarrow> (\<exists>q. GetOperation i s' = Inr q \<and> op_ID q = op_ID p \<and>
      op_SandboxID q = op_SandboxID p \<and> op_AttemptID q = op_AttemptID p)) \<and>
    (\<forall>k. fmget (st_Fencing s) k \<le> fmget (st_Fencing s') k)"
proof -
  have fol: "state_follows s s'" by (rule repo_evolves_follows [OF assms(2,1)])
  show ?thesis
    using followsD(1,2) [OF fol] followsD(4) [OF fol]
    by (fastforce simp: GetSandbox_def GetOperation_def follows_defs split: option.splits)
qed

theorem records_only_grow_witness:
  "\<exists>b. GetSandbox ''sbx'' state2 = Inr b \<and> 1 \<le> sb_Generation b"
proof -
  have "repo_inv state1" using repo_evolves_inv [OF state1_reachable repo_inv_NewState] .
  moreover have "GetSandbox ''sbx'' state1 = Inr sandbox1"
    by (simp add: GetSandbox_def state1_def created_state_def NewState_def Let_def sample_fields)
  ultimately show ?thesis
    using records_only_grow [OF _ state2_reachable] sandbox1_fields(3) by metis
qed

end
