(* ===== verification/Lifecycle_Snapshot.thy ===== *)
theory Lifecycle_Snapshot
  imports Lifecycle_Safety
begin

text \<open>
  Saving and loading: \<^verbatim>\<open>PersistedState\<close>, \<^verbatim>\<open>Export\<close> and \<^verbatim>\<open>Import\<close> of
  \<^verbatim>\<open>src/provider/lifecycle/repository/state.go\<close>, including the version 1 format without event
  cursors. \<^verbatim>\<open>Export\<close> walks maps in an unspecified order and sorts the slices afterwards; the
  model enumerates a map in key order and applies the same sort. \<^verbatim>\<open>Import\<close> builds a fresh state and
  replaces the receiver only when every check passed, so the model returns the new state or the
  error. All errors are \<^verbatim>\<open>ErrCorrupt\<close>, the details being formatted into the message.
\<close>

record FencingRecord =
  fr_Scope :: string
  fr_Token :: u64

record EventCursorRecord =
  ec_SandboxID :: string
  ec_LatestSequence :: u64

record PersistedState =
  ps_Version :: int
  ps_Sandboxes :: "Sandbox list"
  ps_Operations :: "Operation list"
  ps_Leases :: "Lease list"
  ps_Events :: "Event list"
  ps_EventCursors :: "EventCursorRecord list"
  ps_Idempotency :: "IdempotencyRecord list"
  ps_Fencing :: "FencingRecord list"

definition legacySnapshotVersion :: int where "legacySnapshotVersion = 1"

definition snapshotVersion :: int where "snapshotVersion = 2"

definition cursor_records :: "(string, u64) fmap \<Rightarrow> EventCursorRecord list" where
  "cursor_records m =
     map (\<lambda>(k, v). \<lparr>ec_SandboxID = k, ec_LatestSequence = v\<rparr>)
       (filter (\<lambda>(k, v). v > 0) (sorted_list_of_fmap m))"

definition fencing_records :: "(string, u64) fmap \<Rightarrow> FencingRecord list" where
  "fencing_records m = map (\<lambda>(k, v). \<lparr>fr_Scope = k, fr_Token = v\<rparr>) (sorted_list_of_fmap m)"

definition Export :: "State \<Rightarrow> PersistedState" where
  "Export s =
     \<lparr>ps_Version = snapshotVersion,
      ps_Sandboxes = sort_key sb_ID (fmvals (st_Sandboxes s)),
      ps_Operations = sort_key op_ID (fmvals (st_Operations s)),
      ps_Leases = sort_key ls_SandboxID (fmvals (st_Leases s)),
      ps_Events = sort_key (\<lambda>e. (ev_SandboxID e, ev_Sequence e)) (concat (fmvals (st_Events s))),
      ps_EventCursors = sort_key ec_SandboxID (cursor_records (st_EventLatest s)),
      ps_Idempotency = sort_key ir_Scope (fmvals (st_Idempotency s)),
      ps_Fencing = sort_key fr_Scope (fencing_records (st_Fencing s))\<rparr>"

section \<open>The checks of Import, loop by loop\<close>

definition load_sandbox :: "Sandbox \<Rightarrow> State \<Rightarrow> error + State" where
  "load_sandbox sandbox s =
     unless_err (first_err
       [fail_if (Sandbox_Validate sandbox \<noteq> None) [ErrCorrupt],
        fail_if (fmlookup (st_Sandboxes s) (sb_ID sandbox) \<noteq> None) [ErrCorrupt]])
      (Inr (s\<lparr>st_Sandboxes := fmupd (sb_ID sandbox) sandbox (st_Sandboxes s)\<rparr>))"

definition load_operation :: "Operation \<Rightarrow> State \<Rightarrow> error + State" where
  "load_operation operation s =
     unless_err (first_err
       [fail_if (Operation_Validate operation \<noteq> None) [ErrCorrupt],
        fail_if (fmlookup (st_Operations s) (op_ID operation) \<noteq> None) [ErrCorrupt],
        fail_if (fmlookup (st_Sandboxes s) (op_SandboxID operation) = None) [ErrCorrupt]])
      (Inr (s\<lparr>st_Operations := fmupd (op_ID operation) operation (st_Operations s)\<rparr>))"

definition load_lease :: "Lease \<Rightarrow> State \<Rightarrow> error + State" where
  "load_lease lease s =
     unless_err (first_err
       [fail_if (Lease_Validate lease \<noteq> None) [ErrCorrupt],
        fail_if (fmlookup (st_Sandboxes s) (ls_SandboxID lease) = None) [ErrCorrupt],
        fail_if (fmlookup (st_Leases s) (ls_SandboxID lease) \<noteq> None) [ErrCorrupt]])
      (Inr (s\<lparr>st_Leases := fmupd (ls_SandboxID lease) lease (st_Leases s)\<rparr>))"

definition load_event :: "Event \<Rightarrow> State \<Rightarrow> error + State" where
  "load_event event s =
     (let events = fmlist (st_Events s) (ev_SandboxID event)
      in unless_err (first_err
           [fail_if (Event_Validate event \<noteq> None \<or> ev_Sequence event = 0) [ErrCorrupt],
            fail_if (fmlookup (st_Sandboxes s) (ev_SandboxID event) = None) [ErrCorrupt],
            fail_if (fmlookup (st_Operations s) (ev_OperationID event) = None) [ErrCorrupt],
            fail_if (events \<noteq> [] \<and> ev_Sequence event \<noteq> ev_Sequence (last events) + 1) [ErrCorrupt]])
          (Inr (s\<lparr>st_Events := fmupd (ev_SandboxID event) (events @ [event]) (st_Events s)\<rparr>)))"

definition load_cursor :: "EventCursorRecord \<Rightarrow> State \<Rightarrow> error + State" where
  "load_cursor cursor s =
     (let events = fmlist (st_Events s) (ec_SandboxID cursor)
      in unless_err (first_err
           [fail_if (ValidateIdentifier (ec_SandboxID cursor) \<noteq> None \<or> ec_LatestSequence cursor = 0)
              [ErrCorrupt],
            fail_if (fmlookup (st_EventLatest s) (ec_SandboxID cursor) \<noteq> None) [ErrCorrupt],
            fail_if (events = [] \<or> ev_Sequence (last events) \<noteq> ec_LatestSequence cursor) [ErrCorrupt]])
          (Inr (s\<lparr>st_EventLatest :=
             fmupd (ec_SandboxID cursor) (ec_LatestSequence cursor) (st_EventLatest s)\<rparr>)))"

definition check_events :: "int \<Rightarrow> string \<times> Event list \<Rightarrow> State \<Rightarrow> error + State" where
  "check_events version = (\<lambda>(sandboxID, events) s.
     unless_err (fail_if (length events > maxRetainedEvents) [ErrCorrupt])
      (if fmlookup (st_EventLatest s) sandboxID = None \<and> events \<noteq> []
       then unless_err (first_err
              [fail_if (version = snapshotVersion) [ErrCorrupt],
               fail_if (ev_Sequence (hd events) \<noteq> 1) [ErrCorrupt]])
             (Inr (s\<lparr>st_EventLatest := fmupd sandboxID (ev_Sequence (last events)) (st_EventLatest s)\<rparr>))
       else Inr s))"

definition load_idempotency :: "IdempotencyRecord \<Rightarrow> State \<Rightarrow> error + State" where
  "load_idempotency record s =
     unless_err (first_err
       [fail_if (ir_Scope record = [] \<or> ir_Key record = [] \<or> ir_RequestDigest record = []) [ErrCorrupt],
        fail_if (Operation_Validate (ir_Operation record) \<noteq> None) [ErrCorrupt],
        fail_if (fmlookup (st_Operations s) (op_ID (ir_Operation record)) = None) [ErrCorrupt],
        fail_if (fmlookup (st_Idempotency s) (ir_Scope record) \<noteq> None) [ErrCorrupt]])
      (Inr (s\<lparr>st_Idempotency := fmupd (ir_Scope record) record (st_Idempotency s)\<rparr>))"

definition load_fencing :: "FencingRecord \<Rightarrow> State \<Rightarrow> error + State" where
  "load_fencing record s =
     unless_err (first_err
       [fail_if (fr_Scope record = [] \<or> fr_Token record = 0) [ErrCorrupt],
        fail_if (fmlookup (st_Fencing s) (fr_Scope record) \<noteq> None) [ErrCorrupt]])
      (Inr (s\<lparr>st_Fencing := fmupd (fr_Scope record) (fr_Token record) (st_Fencing s)\<rparr>))"

definition check_lease :: "string \<times> Sandbox \<Rightarrow> State \<Rightarrow> error + State" where
  "check_lease = (\<lambda>(sandboxID, sandbox) s.
     case fmlookup (st_Leases s) sandboxID of
       None \<Rightarrow> Inl [ErrCorrupt]
     | Some lease \<Rightarrow>
         unless_err (first_err
           [fail_if (ls_ExpiresAt lease \<noteq> sb_LeaseExpiresAt sandbox \<or>
                ls_Generation lease \<noteq> sb_Generation sandbox) [ErrCorrupt],
            fail_if (case fmlookup (st_Fencing s)
                  (fencingScope (sb_ProviderRevisionID sandbox) (sb_ID sandbox)) of
                None \<Rightarrow> True | Some token \<Rightarrow> token < ls_FencingToken lease) [ErrCorrupt]])
          (Inr s))"

definition Import :: "PersistedState \<Rightarrow> error + State" where
  "Import snapshot =
     unless_err (fail_if (ps_Version snapshot \<noteq> legacySnapshotVersion \<and>
         ps_Version snapshot \<noteq> snapshotVersion) [ErrCorrupt])
      (on_ok (fold_res load_sandbox (ps_Sandboxes snapshot) NewState) (\<lambda>s1.
       on_ok (fold_res load_operation (ps_Operations snapshot) s1) (\<lambda>s2.
       on_ok (fold_res load_lease (ps_Leases snapshot) s2) (\<lambda>s3.
       on_ok (fold_res load_event (ps_Events snapshot) s3) (\<lambda>s4.
       on_ok (fold_res load_cursor (ps_EventCursors snapshot) s4) (\<lambda>s5.
       on_ok (fold_res (check_events (ps_Version snapshot)) (sorted_list_of_fmap (st_Events s5)) s5) (\<lambda>s6.
       on_ok (fold_res load_idempotency (ps_Idempotency snapshot) s6) (\<lambda>s7.
       on_ok (fold_res load_fencing (ps_Fencing snapshot) s7) (\<lambda>s8.
       fold_res check_lease (sorted_list_of_fmap (st_Sandboxes s8)) s8)))))))))"


section \<open>The states Import accepts\<close>

text \<open>
  The repository invariant without the requirement that an idempotency record equals the operation it
  names: \<^verbatim>\<open>Import\<close> only asks for the operation to exist.
\<close>

definition idempotency_loadable :: "State \<Rightarrow> bool" where
  "idempotency_loadable s \<longleftrightarrow>
     (\<forall>k r. fmlookup (st_Idempotency s) k = Some r \<longrightarrow>
        ir_Scope r = k \<and> k \<noteq> [] \<and> ir_Key r \<noteq> [] \<and> ir_RequestDigest r \<noteq> [] \<and>
        valid_operation (ir_Operation r) \<and> op_ID (ir_Operation r) |\<in>| fmdom (st_Operations s))"

definition loadable :: "State \<Rightarrow> bool" where
  "loadable s \<longleftrightarrow>
     inv_sandboxes s \<and> inv_operations s \<and> inv_leases s \<and> inv_fencing s \<and> idempotency_loadable s \<and>
     inv_events s"

lemma repo_inv_loadable:
  assumes "repo_inv s"
  shows "loadable s"
proof -
  have "idempotency_loadable s"
    unfolding idempotency_loadable_def
    using repo_inv_idempotencyD [OF assms] repo_inv_operationD [OF assms] by (blast intro: fmdomI)
  with assms show ?thesis by (simp add: loadable_def repo_inv_def)
qed

section \<open>Sequence numbers of a log\<close>

lemma log_ok_iff:
  "log_ok latest es \<longleftrightarrow> length es \<le> unat latest \<and>
     (\<forall>i < length es. unat (ev_Sequence (es ! i)) = Suc (unat latest) - length es + i)"
proof -
  have "map (\<lambda>e. unat (ev_Sequence e)) es = [Suc (unat latest) - length es ..< Suc (unat latest)] \<longleftrightarrow>
      (\<forall>i < length es. unat (ev_Sequence (es ! i)) = Suc (unat latest) - length es + i)"
    if "length es \<le> unat latest"
    using that by (auto simp: list_eq_iff_nth_eq simp del: upt_Suc)
  then show ?thesis by (auto simp: log_ok_def simp del: upt_Suc)
qed

lemma log_ok_last: "log_ok latest es \<Longrightarrow> es \<noteq> [] \<Longrightarrow> ev_Sequence (last es) = latest"
  by (cases es rule: rev_cases) (auto simp: log_ok_iff word_unat_eq_iff nth_append)

lemma log_ok_Suc:
  assumes "log_ok latest es" and "Suc n < length es"
  shows "ev_Sequence (es ! Suc n) = ev_Sequence (es ! n) + 1"
proof -
  have "unat (ev_Sequence (es ! Suc n)) = Suc (unat (ev_Sequence (es ! n)))"
    using assms by (simp add: log_ok_iff)
  then have "word_of_nat (unat (ev_Sequence (es ! Suc n))) = (word_of_nat (Suc (unat (ev_Sequence (es ! n)))) :: u64)"
    by (rule arg_cong)
  then show ?thesis by (simp add: add.commute)
qed

lemma log_ok_nonzero: "log_ok latest es \<Longrightarrow> e \<in> set es \<Longrightarrow> ev_Sequence e \<noteq> 0"
  by (fastforce simp: log_ok_iff in_set_conv_nth)

lemma log_ok_sorted: "log_ok latest es \<Longrightarrow> sorted (map ev_Sequence es)"
  by (auto simp: log_ok_iff sorted_iff_nth_mono word_le_nat_alt)

section \<open>Saving and loading again\<close>

lemma sort_cursor_records:
  "sort_key ec_SandboxID (cursor_records m) = cursor_records m"
proof (rule sort_key_id_if_sorted)
  have "map ec_SandboxID (cursor_records m) = map fst (filter (\<lambda>(k, v). v > 0) (sorted_list_of_fmap m))"
    by (auto simp: cursor_records_def)
  then show "sorted (map ec_SandboxID (cursor_records m))"
    by (simp add: sorted_filter [OF sorted_sorted_list_of_fmap])
qed

lemma sort_fencing_records:
  "sort_key fr_Scope (fencing_records m) = fencing_records m"
proof (rule sort_key_id_if_sorted)
  have "map fr_Scope (fencing_records m) = map fst (sorted_list_of_fmap m)"
    by (auto simp: fencing_records_def)
  then show "sorted (map fr_Scope (fencing_records m))"
    by (simp add: sorted_sorted_list_of_fmap)
qed

text \<open>Logs concatenated in the order of their sandboxes are in the order \<^verbatim>\<open>Export\<close> sorts them into.\<close>

lemma sorted_concat_logs:
  assumes "sorted (map fst xs)" and "distinct (map fst xs)"
    and "\<And>k es. (k, es) \<in> set xs \<Longrightarrow> sorted (map ev_Sequence es) \<and> (\<forall>e \<in> set es. ev_SandboxID e = k)"
  shows "sorted (map (\<lambda>e. (ev_SandboxID e, ev_Sequence e)) (concat (map snd xs)))"
  using assms
proof (induction xs)
  case (Cons x xs)
  obtain k es where x: "x = (k, es)" by force
  have es: "sorted (map ev_Sequence es)" "\<forall>e \<in> set es. ev_SandboxID e = k"
    using Cons.prems(3) x by auto
  have "sorted (map (\<lambda>e. (ev_SandboxID e, ev_Sequence e)) es)"
    using es by (auto simp: sorted_map sorted_wrt_iff_nth_less)
  moreover have "sorted (map (\<lambda>e. (ev_SandboxID e, ev_Sequence e)) (concat (map snd xs)))"
    using Cons.prems by (intro Cons.IH) auto
  moreover have "k < ev_SandboxID e" if "e \<in> set (concat (map snd xs))" for e
  proof -
    from that obtain k' es' where "(k', es') \<in> set xs" "e \<in> set es'" by auto
    with Cons.prems x have "k \<le> k'" "k \<noteq> k'" "ev_SandboxID e = k'" by force+
    then show ?thesis by simp
  qed
  ultimately show ?case
    using es(2) x by (auto simp: sorted_append less_imp_le)
qed simp

lemma Export_sorted:
  assumes "loadable s"
  shows "Export s =
    \<lparr>ps_Version = snapshotVersion, ps_Sandboxes = fmvals (st_Sandboxes s),
     ps_Operations = fmvals (st_Operations s), ps_Leases = fmvals (st_Leases s),
     ps_Events = concat (fmvals (st_Events s)),
     ps_EventCursors = map (\<lambda>(k, v). \<lparr>ec_SandboxID = k, ec_LatestSequence = v\<rparr>)
       (sorted_list_of_fmap (st_EventLatest s)),
     ps_Idempotency = fmvals (st_Idempotency s),
     ps_Fencing = fencing_records (st_Fencing s)\<rparr>"
proof -
  have inv: "inv_sandboxes s" "inv_operations s" "inv_leases s" "idempotency_loadable s" "inv_events s"
    using assms by (simp_all add: loadable_def)
  have "sort_key (\<lambda>e. (ev_SandboxID e, ev_Sequence e)) (concat (fmvals (st_Events s))) =
      concat (fmvals (st_Events s))"
  proof (rule sort_key_id_if_sorted)
    show "sorted (map (\<lambda>e. (ev_SandboxID e, ev_Sequence e)) (concat (fmvals (st_Events s))))"
      unfolding fmvals_def
      by (rule sorted_concat_logs [OF sorted_sorted_list_of_fmap distinct_sorted_list_of_fmap])
        (use inv(5) log_ok_sorted in \<open>auto simp: inv_events_def set_sorted_list_of_fmap event_ok_def\<close>)
  qed
  moreover have "sort_key ec_SandboxID (cursor_records (st_EventLatest s)) =
      map (\<lambda>(k, v). \<lparr>ec_SandboxID = k, ec_LatestSequence = v\<rparr>) (sorted_list_of_fmap (st_EventLatest s))"
  proof -
    have "0 < v" if "fmlookup (st_EventLatest s) k = Some v" for k v
      using inv_events_log(4) [OF inv(5), of k] inv(5) that fmdomI [OF that]
      by (auto simp: inv_events_def fmget_def fmlist_def fmlookup_dom_iff word_neq_0_conv)
    then have "filter (\<lambda>(k, v). v > 0) (sorted_list_of_fmap (st_EventLatest s)) =
        sorted_list_of_fmap (st_EventLatest s)"
      by (auto simp: filter_id_conv set_sorted_list_of_fmap)
    then show ?thesis unfolding sort_cursor_records by (simp add: cursor_records_def)
  qed
  moreover have "ls_SandboxID l = k" if "fmlookup (st_Leases s) k = Some l" for k l
    using inv(3) that fmdomI [OF that] by (auto simp: inv_leases_def lease_agrees_def fmlookup_dom_iff)
  ultimately show ?thesis
    using inv unfolding Export_def
    by (simp add: sort_key_fmvals inv_sandboxes_def inv_operations_def idempotency_loadable_def
        sort_fencing_records)
qed


lemma load_log:
  assumes "log_ok latest es" and "k |\<notin>| fmdom (st_Events s)" and "k |\<in>| fmdom (st_Sandboxes s)"
    and "\<forall>e \<in> set es. event_ok s k e" and "es \<noteq> []"
  shows "fold_res load_event es s = Inr (s\<lparr>st_Events := fmupd k es (st_Events s)\<rparr>)"
proof -
  have "fold_res load_event (take n es) s = Inr (s\<lparr>st_Events := fmupd k (take n es) (st_Events s)\<rparr>)"
    if "0 < n" "n \<le> length es" for n
    using that
  proof (induction n)
    case (Suc n)
    then have n: "n < length es" by simp
    then have ev: "Event_Validate (es ! n) = None" "ev_SandboxID (es ! n) = k"
      "ev_OperationID (es ! n) |\<in>| fmdom (st_Operations s)" "ev_Sequence (es ! n) \<noteq> 0"
      using assms(4) log_ok_nonzero [OF assms(1)] by (auto simp: event_ok_def)
    show ?case
    proof (cases n)
      case 0
      have "fmlist (st_Events s) k = []" using assms(2) by (simp add: fmlist_def fmdom_notD)
      with 0 ev assms(3) n show ?thesis
        by (auto simp: take_Suc_conv_app_nth load_event_def Let_def fmlookup_dom_iff)
    next
      case (Suc m)
      have "last (take n es) = es ! m" using n Suc by (simp add: take_Suc_conv_app_nth)
      moreover have "ev_Sequence (es ! n) = ev_Sequence (es ! m) + 1"
        using log_ok_Suc [OF assms(1), of m] n Suc by simp
      moreover have "fold_res load_event (take n es) s = Inr (s\<lparr>st_Events := fmupd k (take n es) (st_Events s)\<rparr>)"
        using Suc.IH n Suc by simp
      moreover have "load_event (es ! n) (s\<lparr>st_Events := fmupd k (take n es) (st_Events s)\<rparr>) =
          Inr (s\<lparr>st_Events := fmupd k (take n es @ [es ! n]) (st_Events s)\<rparr>)"
        using calculation(1,2) ev assms(3) by (auto simp: load_event_def Let_def fmlookup_dom_iff)
      ultimately show ?thesis using n by (simp add: take_Suc_conv_app_nth fold_res_append)
    qed
  qed simp
  from this [of "length es"] assms(5) show ?thesis by simp
qed


lemma empty_field:
  "st_Operations t = fmempty \<Longrightarrow> t\<lparr>st_Operations := fmempty\<rparr> = t"
  "st_Leases t = fmempty \<Longrightarrow> t\<lparr>st_Leases := fmempty\<rparr> = t"
  "st_Events t = fmempty \<Longrightarrow> t\<lparr>st_Events := fmempty\<rparr> = t"
  "st_EventLatest t = fmempty \<Longrightarrow> t\<lparr>st_EventLatest := fmempty\<rparr> = t"
  "st_Idempotency t = fmempty \<Longrightarrow> t\<lparr>st_Idempotency := fmempty\<rparr> = t"
  "st_Fencing t = fmempty \<Longrightarrow> t\<lparr>st_Fencing := fmempty\<rparr> = t"
  for t :: State
  by (cases t; simp)+

lemma NewState_fields:
  "st_Sandboxes NewState = fmempty" "st_Operations NewState = fmempty" "st_Leases NewState = fmempty"
  "st_Events NewState = fmempty" "st_EventLatest NewState = fmempty" "st_Idempotency NewState = fmempty"
  "st_Fencing NewState = fmempty"
  by (simp_all add: NewState_def)

lemma load_sandboxes:
  assumes "inv_sandboxes s"
  shows "fold_res load_sandbox (fmvals (st_Sandboxes s)) NewState = Inr (NewState\<lparr>st_Sandboxes := st_Sandboxes s\<rparr>)"
  using fold_res_load_fmvals [of "st_Sandboxes s" sb_ID load_sandbox "\<lambda>m. NewState\<lparr>st_Sandboxes := m\<rparr>"] assms
  by (simp add: NewState_def inv_sandboxes_def load_sandbox_def fmdom_notD)

lemma load_operations:
  assumes "inv_operations s" and "st_Sandboxes t = st_Sandboxes s" and "st_Operations t = fmempty"
  shows "fold_res load_operation (fmvals (st_Operations s)) t = Inr (t\<lparr>st_Operations := st_Operations s\<rparr>)"
proof -
  have "op_ID p = k \<and> Operation_Validate p = None \<and> (\<exists>sb. fmlookup (st_Sandboxes t) (op_SandboxID p) = Some sb)"
    if "fmlookup (st_Operations s) k = Some p" for k p
    using assms(1,2) that by (auto simp: inv_operations_def fmlookup_dom_iff)
  then show ?thesis
    using fold_res_load_fmvals [of "st_Operations s" op_ID load_operation "\<lambda>m. t\<lparr>st_Operations := m\<rparr>"] assms(3)
    by (auto simp: empty_field load_operation_def fmdom_notD)
qed

lemma inv_leases_key:
  "inv_leases s \<Longrightarrow> fmlookup (st_Leases s) k = Some l \<Longrightarrow>
   \<exists>sb. fmlookup (st_Sandboxes s) k = Some sb \<and> lease_agrees s k sb l"
  unfolding inv_leases_def by (metis fmdomI fmlookup_dom_iff)

lemma load_leases:
  assumes "inv_leases s" and "st_Sandboxes t = st_Sandboxes s" and "st_Leases t = fmempty"
  shows "fold_res load_lease (fmvals (st_Leases s)) t = Inr (t\<lparr>st_Leases := st_Leases s\<rparr>)"
proof -
  have "ls_SandboxID l = k \<and> Lease_Validate l = None \<and> (\<exists>sb. fmlookup (st_Sandboxes t) k = Some sb)"
    if "fmlookup (st_Leases s) k = Some l" for k l
    using inv_leases_key [OF assms(1) that] assms(2) by (auto simp: lease_agrees_def)
  then show ?thesis
    using fold_res_load_fmvals [of "st_Leases s" ls_SandboxID load_lease "\<lambda>m. t\<lparr>st_Leases := m\<rparr>"] assms(3)
    by (auto simp: empty_field load_lease_def fmdom_notD)
qed

lemma load_events:
  assumes "inv_events s" and "st_Sandboxes t = st_Sandboxes s" and "st_Operations t = st_Operations s"
    and "st_Events t = fmempty"
  shows "fold_res load_event (concat (fmvals (st_Events s))) t = Inr (t\<lparr>st_Events := st_Events s\<rparr>)"
proof -
  have "fold_res load_event es (t\<lparr>st_Events := m\<rparr>) = Inr (t\<lparr>st_Events := fmupd k es m\<rparr>)"
    if "fmlookup (st_Events s) k = Some es" "k |\<notin>| fmdom m" for k es m
    using assms(1) that load_log [of "fmget (st_EventLatest s) k" es k "t\<lparr>st_Events := m\<rparr>"] assms(2,3)
    by (auto simp: inv_events_def event_ok_def)
  then show ?thesis
    using fold_res_load_fmap [of "st_Events s" "\<lambda>x. fold_res load_event (snd x)" "\<lambda>m. t\<lparr>st_Events := m\<rparr>"]
      assms(4)
    by (simp add: empty_field fmvals_def fold_res_concat fold_res_map)
qed

lemma load_cursors:
  assumes "inv_events s" and "inv_sandboxes s" and "st_Events t = st_Events s" and "st_EventLatest t = fmempty"
  shows "fold_res load_cursor (map (\<lambda>(k, v). \<lparr>ec_SandboxID = k, ec_LatestSequence = v\<rparr>)
      (sorted_list_of_fmap (st_EventLatest s))) t = Inr (t\<lparr>st_EventLatest := st_EventLatest s\<rparr>)"
proof -
  have "identifierPattern k \<and> v \<noteq> 0 \<and> fmlist (st_Events s) k \<noteq> [] \<and>
      ev_Sequence (last (fmlist (st_Events s) k)) = v"
    if "fmlookup (st_EventLatest s) k = Some v" for k v
  proof -
    from that have "k |\<in>| fmdom (st_Events s)" "fmget (st_EventLatest s) k = v"
      using assms(1) by (auto simp: inv_events_def fmget_def fmdomI)
    then obtain es where es: "fmlookup (st_Events s) k = Some es" "es \<noteq> []" "log_ok v es"
      "k |\<in>| fmdom (st_Sandboxes s)"
      using assms(1) unfolding inv_events_def by (metis fmlookup_dom_iff)
    moreover have "identifierPattern k"
      using es(4) assms(2) by (auto simp: inv_sandboxes_def fmlookup_dom_iff Sandbox_Validate_None)
    moreover have "v \<noteq> 0" using es(2,3) by (auto simp: log_ok_def)
    ultimately show ?thesis using log_ok_last by (auto simp: fmlist_def)
  qed
  then show ?thesis
    using fold_res_load_fmap [of "st_EventLatest s" "\<lambda>(k, v). load_cursor \<lparr>ec_SandboxID = k, ec_LatestSequence = v\<rparr>"
        "\<lambda>m. t\<lparr>st_EventLatest := m\<rparr>"] assms(3,4)
    by (simp add: empty_field fold_res_map case_prod_unfold load_cursor_def Let_def fmdom_notD ValidateIdentifier_None)
qed

lemma check_events_ok:
  assumes "inv_events s" and "st_Events t = st_Events s" and "st_EventLatest t = st_EventLatest s"
  shows "fold_res (check_events v) (sorted_list_of_fmap (st_Events s)) t = Inr t"
proof (rule fold_res_check)
  fix x assume "x \<in> set (sorted_list_of_fmap (st_Events s))"
  then obtain k es where x: "x = (k, es)" "fmlookup (st_Events s) k = Some es"
    by (metis set_sorted_list_of_fmap surj_pair)
  then have "k |\<in>| fmdom (st_EventLatest s)" "length es \<le> maxRetainedEvents"
    using assms(1) fmdomI [OF x(2)] by (auto simp: inv_events_def)
  with x assms(3) show "check_events v x t = Inr t"
    by (auto simp: check_events_def fmlookup_dom_iff)
qed

lemma load_idempotencies:
  assumes "idempotency_loadable s" and "st_Operations t = st_Operations s" and "st_Idempotency t = fmempty"
  shows "fold_res load_idempotency (fmvals (st_Idempotency s)) t = Inr (t\<lparr>st_Idempotency := st_Idempotency s\<rparr>)"
proof -
  have "ir_Scope r = k \<and> k \<noteq> [] \<and> ir_Key r \<noteq> [] \<and> ir_RequestDigest r \<noteq> [] \<and>
      Operation_Validate (ir_Operation r) = None \<and>
      (\<exists>p. fmlookup (st_Operations t) (op_ID (ir_Operation r)) = Some p)"
    if "fmlookup (st_Idempotency s) k = Some r" for k r
    using assms(1,2) that by (auto simp: idempotency_loadable_def fmlookup_dom_iff)
  then show ?thesis
    using fold_res_load_fmvals [of "st_Idempotency s" ir_Scope load_idempotency "\<lambda>m. t\<lparr>st_Idempotency := m\<rparr>"]
      assms(3)
    by (auto simp: empty_field load_idempotency_def fmdom_notD)
qed

lemma load_fencings:
  assumes "inv_fencing s" and "st_Fencing t = fmempty"
  shows "fold_res load_fencing (fencing_records (st_Fencing s)) t = Inr (t\<lparr>st_Fencing := st_Fencing s\<rparr>)"
  using fold_res_load_fmap [of "st_Fencing s" "\<lambda>(k, v). load_fencing \<lparr>fr_Scope = k, fr_Token = v\<rparr>"
      "\<lambda>m. t\<lparr>st_Fencing := m\<rparr>"] assms
  by (simp add: empty_field fencing_records_def fold_res_map case_prod_unfold inv_fencing_def load_fencing_def fmdom_notD)

lemma check_leases_ok:
  assumes "inv_sandboxes s" and "inv_leases s"
  shows "fold_res check_lease (sorted_list_of_fmap (st_Sandboxes s)) s = Inr s"
proof (rule fold_res_check)
  fix x assume "x \<in> set (sorted_list_of_fmap (st_Sandboxes s))"
  then obtain k sb where x: "x = (k, sb)" "fmlookup (st_Sandboxes s) k = Some sb"
    by (metis set_sorted_list_of_fmap surj_pair)
  moreover from this obtain l where l: "fmlookup (st_Leases s) k = Some l" "lease_agrees s k sb l"
    using assms(2) unfolding inv_leases_def by (metis fmdomI fmlookup_dom_iff)
  moreover have "sb_ID sb = k" using assms(1) x(2) by (simp add: inv_sandboxes_def)
  moreover have "fmlookup (st_Fencing s) (fencingScope (sb_ProviderRevisionID sb) k) \<noteq> None"
    using l(2) by (auto simp: lease_agrees_def Lease_Validate_None fmget_def split: option.splits)
  ultimately show "check_lease x s = Inr s"
    by (auto simp: check_lease_def lease_agrees_def fmget_def)
qed

lemma Import_Export:
  assumes "loadable s"
  shows "Import (Export s) = Inr s"
proof -
  have inv: "inv_sandboxes s" "inv_operations s" "inv_leases s" "idempotency_loadable s" "inv_events s"
    "inv_fencing s"
    using assms by (simp_all add: loadable_def)
  let ?s = "\<lparr>st_Sandboxes = st_Sandboxes s, st_Operations = st_Operations s, st_Leases = st_Leases s,
    st_Events = st_Events s, st_EventLatest = st_EventLatest s, st_Idempotency = st_Idempotency s,
    st_Fencing = st_Fencing s\<rparr>"
  have "Import (Export s) = fold_res check_lease (sorted_list_of_fmap (st_Sandboxes ?s)) ?s"
    unfolding Import_def Export_sorted [OF assms]
    by (simp add: load_sandboxes [OF inv(1)] load_operations [OF inv(2)] load_leases [OF inv(3)]
        load_events [OF inv(5)] load_cursors [OF inv(5,1)] check_events_ok [OF inv(5)]
        load_idempotencies [OF inv(4)] load_fencings [OF inv(6)] NewState_fields)
      (simp add: NewState_def)
  moreover have "?s = s" by (cases s) simp
  ultimately show ?thesis using check_leases_ok [OF inv(1,3)] by simp
qed


section \<open>What a loaded state satisfies\<close>

text \<open>
  The loops of \<^verbatim>\<open>Import\<close> one by one: \<open>loadedN\<close> holds after the N-th loop, and the maps that are
  still to be filled are empty.
\<close>

definition loaded1 :: "State \<Rightarrow> bool" where
  "loaded1 s \<longleftrightarrow> inv_sandboxes s \<and> st_Operations s = fmempty \<and> st_Leases s = fmempty \<and>
     st_Events s = fmempty \<and> st_EventLatest s = fmempty \<and> st_Idempotency s = fmempty \<and>
     st_Fencing s = fmempty"

definition loaded2 :: "State \<Rightarrow> bool" where
  "loaded2 s \<longleftrightarrow> inv_sandboxes s \<and> inv_operations s \<and> st_Leases s = fmempty \<and>
     st_Events s = fmempty \<and> st_EventLatest s = fmempty \<and> st_Idempotency s = fmempty \<and>
     st_Fencing s = fmempty"

definition leases_loaded :: "State \<Rightarrow> bool" where
  "leases_loaded s \<longleftrightarrow> (\<forall>k l. fmlookup (st_Leases s) k = Some l \<longrightarrow>
     ls_SandboxID l = k \<and> Lease_Validate l = None \<and> k |\<in>| fmdom (st_Sandboxes s))"

definition loaded3 :: "State \<Rightarrow> bool" where
  "loaded3 s \<longleftrightarrow> inv_sandboxes s \<and> inv_operations s \<and> leases_loaded s \<and>
     st_Events s = fmempty \<and> st_EventLatest s = fmempty \<and> st_Idempotency s = fmempty \<and>
     st_Fencing s = fmempty"

definition events_loaded :: "State \<Rightarrow> bool" where
  "events_loaded s \<longleftrightarrow> (\<forall>k es. fmlookup (st_Events s) k = Some es \<longrightarrow>
     k |\<in>| fmdom (st_Sandboxes s) \<and> es \<noteq> [] \<and> (\<forall>e \<in> set es. event_ok s k e) \<and>
     log_ok (ev_Sequence (last es)) es)"

definition loaded4 :: "State \<Rightarrow> bool" where
  "loaded4 s \<longleftrightarrow> inv_sandboxes s \<and> inv_operations s \<and> leases_loaded s \<and> events_loaded s \<and>
     (\<forall>k v. fmlookup (st_EventLatest s) k = Some v \<longrightarrow>
        (\<exists>es. fmlookup (st_Events s) k = Some es \<and> v = ev_Sequence (last es))) \<and>
     idempotency_loadable s \<and> inv_fencing s"

lemmas loaded_defs = inv_sandboxes_def inv_operations_def leases_loaded_def events_loaded_def
  event_ok_def idempotency_loadable_def inv_fencing_def

lemma load_sandbox_loaded: "load_sandbox x s = Inr t \<Longrightarrow> loaded1 s \<Longrightarrow> loaded1 t"
  by (auto simp: load_sandbox_def loaded1_def inv_sandboxes_def split: if_splits)

lemma load_operation_loaded: "load_operation x s = Inr t \<Longrightarrow> loaded2 s \<Longrightarrow> loaded2 t"
  by (auto simp: load_operation_def loaded2_def inv_sandboxes_def inv_operations_def fmdomI split: if_splits)

lemma load_lease_loaded: "load_lease x s = Inr t \<Longrightarrow> loaded3 s \<Longrightarrow> loaded3 t"
  by (auto simp: load_lease_def loaded3_def loaded_defs fmdomI split: if_splits)

lemma log_ok_single: "ev_Sequence e \<noteq> 0 \<Longrightarrow> log_ok (ev_Sequence e) [e]"
  unfolding log_ok_iff by (simp add: Suc_le_eq word_unat_eq_iff)

lemma load_event_loaded:
  assumes "load_event x s = Inr t" and "loaded4 s" and "st_EventLatest s = fmempty"
  shows "loaded4 t \<and> st_EventLatest t = fmempty"
proof -
  let ?k = "ev_SandboxID x" and ?es = "fmlist (st_Events s) (ev_SandboxID x)"
  have x: "Event_Validate x = None" "ev_Sequence x \<noteq> 0" "?k |\<in>| fmdom (st_Sandboxes s)"
    "ev_OperationID x |\<in>| fmdom (st_Operations s)"
    "?es \<noteq> [] \<longrightarrow> ev_Sequence x = ev_Sequence (last ?es) + 1"
    using assms(1) by (auto simp: load_event_def Let_def fmdomI)
  have t: "t = s\<lparr>st_Events := fmupd ?k (?es @ [x]) (st_Events s)\<rparr>"
    using assms(1) by (simp add: load_event_def Let_def)
  have ev: "events_loaded s" using assms(2) by (simp add: loaded4_def)
  have es: "\<forall>e \<in> set ?es. event_ok s ?k e" "?es \<noteq> [] \<longrightarrow> log_ok (ev_Sequence (last ?es)) ?es"
  proof -
    have "(\<forall>e \<in> set ?es. event_ok s ?k e) \<and> (?es \<noteq> [] \<longrightarrow> log_ok (ev_Sequence (last ?es)) ?es)"
      using ev by (cases "fmlookup (st_Events s) ?k") (simp_all add: events_loaded_def fmlist_def)
    then show "\<forall>e \<in> set ?es. event_ok s ?k e" "?es \<noteq> [] \<longrightarrow> log_ok (ev_Sequence (last ?es)) ?es" by blast+
  qed
  have "log_ok (ev_Sequence x) (?es @ [x])"
  proof (cases "?es = []")
    case True
    then show ?thesis using x(2) by (simp add: log_ok_single)
  next
    case False
    with x(5) have seq: "ev_Sequence x = ev_Sequence (last ?es) + 1" by blast
    with x(2) have "ev_Sequence (last ?es) \<noteq> - 1" by (metis add.left_inverse)
    with log_ok_append [OF es(2) [rule_format, OF False] _ seq] seq show ?thesis by simp
  qed
  with x es(1) have "events_loaded t"
    using ev by (simp add: events_loaded_def t event_ok_def)
  with assms(2,3) show ?thesis
    by (simp add: loaded4_def t inv_sandboxes_def inv_operations_def leases_loaded_def
        idempotency_loadable_def inv_fencing_def)
qed

lemma latest_frame:
  "inv_sandboxes (s\<lparr>st_EventLatest := m\<rparr>) = inv_sandboxes s"
  "inv_operations (s\<lparr>st_EventLatest := m\<rparr>) = inv_operations s"
  "leases_loaded (s\<lparr>st_EventLatest := m\<rparr>) = leases_loaded s"
  "events_loaded (s\<lparr>st_EventLatest := m\<rparr>) = events_loaded s"
  "idempotency_loadable (s\<lparr>st_EventLatest := m\<rparr>) = idempotency_loadable s"
  "inv_fencing (s\<lparr>st_EventLatest := m\<rparr>) = inv_fencing s"
  by (simp_all add: loaded_defs)

lemma idempotency_frame:
  "inv_sandboxes (s\<lparr>st_Idempotency := i\<rparr>) = inv_sandboxes s"
  "inv_operations (s\<lparr>st_Idempotency := i\<rparr>) = inv_operations s"
  "leases_loaded (s\<lparr>st_Idempotency := i\<rparr>) = leases_loaded s"
  "events_loaded (s\<lparr>st_Idempotency := i\<rparr>) = events_loaded s"
  "inv_fencing (s\<lparr>st_Idempotency := i\<rparr>) = inv_fencing s"
  by (simp_all add: loaded_defs)

lemma fencing_frame:
  "inv_sandboxes (s\<lparr>st_Fencing := f\<rparr>) = inv_sandboxes s"
  "inv_operations (s\<lparr>st_Fencing := f\<rparr>) = inv_operations s"
  "leases_loaded (s\<lparr>st_Fencing := f\<rparr>) = leases_loaded s"
  "events_loaded (s\<lparr>st_Fencing := f\<rparr>) = events_loaded s"
  "idempotency_loadable (s\<lparr>st_Fencing := f\<rparr>) = idempotency_loadable s"
  by (simp_all add: loaded_defs)

lemma load_cursor_loaded: "load_cursor x s = Inr t \<Longrightarrow> loaded4 s \<Longrightarrow> loaded4 t"
  by (auto simp: load_cursor_def Let_def loaded4_def latest_frame fmlist_def split: option.splits if_splits)

lemma check_events_loaded:
  assumes "check_events v (k, es) s = Inr t" and "loaded4 s" and "fmlookup (st_Events s) k = Some es"
  shows "loaded4 t" "st_Events t = st_Events s" "length es \<le> maxRetainedEvents" "k |\<in>| fmdom (st_EventLatest t)"
    "fmdom (st_EventLatest s) |\<subseteq>| fmdom (st_EventLatest t)"
proof -
  have "es \<noteq> []" using assms(2,3) by (auto simp: loaded4_def events_loaded_def)
  show "loaded4 t" "st_Events t = st_Events s" "length es \<le> maxRetainedEvents" "k |\<in>| fmdom (st_EventLatest t)"
    "fmdom (st_EventLatest s) |\<subseteq>| fmdom (st_EventLatest t)"
    using assms \<open>es \<noteq> []\<close>
    by (auto simp: check_events_def loaded4_def latest_frame fmdomI not_less split: if_splits)
qed

lemma load_idempotency_loaded: "load_idempotency x s = Inr t \<Longrightarrow> loaded4 s \<Longrightarrow> loaded4 t"
  by (auto simp: load_idempotency_def loaded4_def idempotency_frame idempotency_loadable_def fmdomI split: if_splits)
    blast+

lemma load_fencing_loaded: "load_fencing x s = Inr t \<Longrightarrow> loaded4 s \<Longrightarrow> loaded4 t"
  by (auto simp: load_fencing_def loaded4_def fencing_frame inv_fencing_def split: if_splits)
    blast+


lemma fold_res_kept:
  assumes "fold_res f xs s = Inr s'" and "P s" and "\<And>x s t. f x s = Inr t \<Longrightarrow> P s \<Longrightarrow> P t"
  shows "P s'"
  using assms(1,2) by (rule fold_res_invariant) (use assms(3) in blast)

lemma check_events_all:
  assumes "fold_res (check_events v) xs s = Inr t" and "loaded4 s"
    and "\<And>k es. (k, es) \<in> set xs \<Longrightarrow> fmlookup (st_Events s) k = Some es"
  shows "loaded4 t \<and> st_Events t = st_Events s \<and> fmdom (st_EventLatest s) |\<subseteq>| fmdom (st_EventLatest t) \<and>
    (\<forall>(k, es) \<in> set xs. length es \<le> maxRetainedEvents \<and> k |\<in>| fmdom (st_EventLatest t))"
  using assms
proof (induction xs arbitrary: s)
  case (Cons x xs)
  obtain k es where x: "x = (k, es)" by force
  from Cons.prems(1) obtain u where u: "check_events v (k, es) s = Inr u" "fold_res (check_events v) xs u = Inr t"
    using x by auto
  note c = check_events_loaded [OF u(1) Cons.prems(2)]
  have "fmlookup (st_Events s) k = Some es" using Cons.prems(3) x by simp
  note c = c [OF this]
  from Cons.IH [OF u(2) c(1)] Cons.prems(3) c(2) x
  have "loaded4 t \<and> st_Events t = st_Events u \<and> fmdom (st_EventLatest u) |\<subseteq>| fmdom (st_EventLatest t) \<and>
    (\<forall>(k, es) \<in> set xs. length es \<le> maxRetainedEvents \<and> k |\<in>| fmdom (st_EventLatest t))"
    by simp
  with c x show ?case by auto
qed simp

lemma check_lease_all:
  assumes "fold_res check_lease xs s = Inr t"
  shows "t = s \<and> (\<forall>x \<in> set xs. check_lease x s = Inr s)"
  using assms
proof (induction xs arbitrary: s)
  case (Cons x xs)
  then obtain u where u: "check_lease x s = Inr u" "fold_res check_lease xs u = Inr t" by auto
  then have "u = s" by (auto simp: check_lease_def split: prod.splits option.splits)
  with u Cons.IH show ?case by auto
qed simp

lemma checked_leases:
  assumes "loaded4 s" and "\<forall>x \<in> set (sorted_list_of_fmap (st_Sandboxes s)). check_lease x s = Inr s"
  shows "inv_leases s"
proof -
  have "\<exists>l. fmlookup (st_Leases s) k = Some l \<and> lease_agrees s k sb l"
    if "fmlookup (st_Sandboxes s) k = Some sb" for k sb
  proof -
    have "check_lease (k, sb) s = Inr s" "sb_ID sb = k"
      using assms that by (auto simp: set_sorted_list_of_fmap loaded4_def inv_sandboxes_def)
    then obtain l where "fmlookup (st_Leases s) k = Some l" "ls_ExpiresAt l = sb_LeaseExpiresAt sb"
      "ls_Generation l = sb_Generation sb"
      "ls_FencingToken l \<le> fmget (st_Fencing s) (fencingScope (sb_ProviderRevisionID sb) k)"
      by (auto simp: check_lease_def fmget_def not_less split: option.splits)
    with assms(1) show ?thesis by (auto simp: lease_agrees_def loaded4_def leases_loaded_def)
  qed
  moreover have "fmdom (st_Leases s) |\<subseteq>| fmdom (st_Sandboxes s)"
    using assms(1) by (auto simp: loaded4_def leases_loaded_def fmlookup_dom_iff)
  ultimately show ?thesis
    unfolding inv_leases_def by (metis fmdomI fmlookup_dom_iff fsubset_antisym fsubsetI option.inject)
qed

definition events_checked :: "State \<Rightarrow> bool" where
  "events_checked s \<longleftrightarrow> fmdom (st_EventLatest s) = fmdom (st_Events s) \<and>
     (\<forall>k es. fmlookup (st_Events s) k = Some es \<longrightarrow> length es \<le> maxRetainedEvents)"

lemma checked_events:
  assumes "loaded4 s" and "events_checked s"
  shows "inv_events s"
proof -
  have "fmget (st_EventLatest s) k = ev_Sequence (last es)" if "fmlookup (st_Events s) k = Some es" for k es
  proof -
    from assms(2) that obtain v where "fmlookup (st_EventLatest s) k = Some v"
      unfolding events_checked_def by (metis fmdomI fmlookup_dom_iff)
    moreover from this assms(1) that have "v = ev_Sequence (last es)"
      unfolding loaded4_def by (metis option.inject)
    ultimately show ?thesis by (simp add: fmget_def)
  qed
  with assms show ?thesis
    by (auto simp: inv_events_def events_checked_def loaded4_def events_loaded_def)
qed

lemma Import_loadable:
  assumes "Import p = Inr s"
  shows "loadable s"
proof -
  let ?v = "ps_Version p"
  from assms obtain s1 s2 s3 s4 s5 s6 s7 where
    s1: "fold_res load_sandbox (ps_Sandboxes p) NewState = Inr s1" and
    s2: "fold_res load_operation (ps_Operations p) s1 = Inr s2" and
    s3: "fold_res load_lease (ps_Leases p) s2 = Inr s3" and
    s4: "fold_res load_event (ps_Events p) s3 = Inr s4" and
    s5: "fold_res load_cursor (ps_EventCursors p) s4 = Inr s5" and
    s6: "fold_res (check_events ?v) (sorted_list_of_fmap (st_Events s5)) s5 = Inr s6" and
    s7: "fold_res load_idempotency (ps_Idempotency p) s6 = Inr s7" and
    s8: "on_ok (fold_res load_fencing (ps_Fencing p) s7)
      (\<lambda>s8. fold_res check_lease (sorted_list_of_fmap (st_Sandboxes s8)) s8) = Inr s"
    by (auto simp: Import_def)
  have "loaded1 NewState" by (simp add: loaded1_def inv_sandboxes_def NewState_def)
  with s1 have "loaded1 s1" by (rule fold_res_kept) (rule load_sandbox_loaded)
  then have "loaded2 s1" by (simp add: loaded1_def loaded2_def inv_operations_def)
  with s2 have "loaded2 s2" by (rule fold_res_kept) (rule load_operation_loaded)
  then have "loaded3 s2" by (simp add: loaded3_def loaded2_def leases_loaded_def)
  with s3 have "loaded3 s3" by (rule fold_res_kept) (rule load_lease_loaded)
  then have "loaded4 s3 \<and> st_EventLatest s3 = fmempty"
    by (simp add: loaded4_def loaded3_def events_loaded_def idempotency_loadable_def inv_fencing_def)
  with s4 have "loaded4 s4 \<and> st_EventLatest s4 = fmempty"
    by (rule fold_res_kept) (use load_event_loaded in blast)
  then have "loaded4 s4" ..
  with s5 have l5: "loaded4 s5" by (rule fold_res_kept) (rule load_cursor_loaded)
  note l6 = check_events_all [OF s6 l5]
  have s5_events: "(k, es) \<in> set (sorted_list_of_fmap (st_Events s5)) \<longleftrightarrow> fmlookup (st_Events s5) k = Some es"
    for k es by (rule set_sorted_list_of_fmap)
  note l6 = l6 [OF s5_events [THEN iffD1]]
  have checked: "events_checked s6"
    using l6 s5_events by (fastforce simp: events_checked_def loaded4_def fmlookup_dom_iff)
  with l6 have "loaded4 s6 \<and> events_checked s6" by simp
  with s7 have l7: "loaded4 s7 \<and> events_checked s7"
    by (rule fold_res_kept)
      (use load_idempotency_loaded in \<open>auto simp: events_checked_def load_idempotency_def\<close>)
  from s8 obtain s8 where s8: "fold_res load_fencing (ps_Fencing p) s7 = Inr s8"
    "fold_res check_lease (sorted_list_of_fmap (st_Sandboxes s8)) s8 = Inr s" by auto
  from s8(1) l7 have l8: "loaded4 s8 \<and> events_checked s8"
    by (rule fold_res_kept)
      (use load_fencing_loaded in \<open>auto simp: events_checked_def load_fencing_def\<close>)
  have "s = s8 \<and> inv_leases s8"
    using check_lease_all [OF s8(2)] checked_leases [of s8] l8 by blast
  with l8 checked_events show ?thesis by (simp add: loadable_def loaded4_def)
qed

section \<open>How Import fails\<close>

definition corrupt_only :: "error + 'a \<Rightarrow> bool" where
  "corrupt_only r \<longleftrightarrow> (\<forall>e. r = Inl e \<longrightarrow> e = [ErrCorrupt])"

lemma corrupt_only_intros:
  "corrupt_only (Inr x)"
  "corrupt_only r \<Longrightarrow> (\<And>x. corrupt_only (k x)) \<Longrightarrow> corrupt_only (on_ok r k)"
  "\<forall>c \<in> set cs. c = None \<or> c = Some [ErrCorrupt] \<Longrightarrow> corrupt_only q \<Longrightarrow> corrupt_only (unless_err (first_err cs) q)"
  "corrupt_only q \<Longrightarrow> corrupt_only (unless_err (fail_if b [ErrCorrupt]) q)"
  by (auto simp: corrupt_only_def dest!: first_err_in)

lemma corrupt_only_fold:
  assumes "\<And>x s. corrupt_only (f x s)"
  shows "corrupt_only (fold_res f xs s)"
proof (induction xs arbitrary: s)
  case (Cons x xs)
  then show ?case unfolding fold_res.simps using assms by (intro corrupt_only_intros)
qed (simp add: corrupt_only_intros)

lemma fail_corrupt: "fail_if b [ErrCorrupt] = None \<or> fail_if b [ErrCorrupt] = Some [ErrCorrupt]"
  by (simp add: fail_if_def)

lemma steps_corrupt:
  "corrupt_only (load_sandbox a s)" "corrupt_only (load_operation b s)" "corrupt_only (load_lease c s)"
  "corrupt_only (load_event d s)" "corrupt_only (load_cursor e s)" "corrupt_only (check_events v f s)"
  "corrupt_only (load_idempotency g s)" "corrupt_only (load_fencing h s)" "corrupt_only (check_lease i s)"
  unfolding load_sandbox_def load_operation_def load_lease_def load_event_def load_cursor_def
    check_events_def load_idempotency_def load_fencing_def check_lease_def Let_def
  by (auto intro!: corrupt_only_intros simp: fail_corrupt split: prod.splits option.splits)
    (simp add: corrupt_only_def)

lemma Import_corrupt: "corrupt_only (Import p)"
  unfolding Import_def by (intro corrupt_only_intros corrupt_only_fold steps_corrupt)

lemma load_event_operation:
  assumes "fold_res load_event es s = Inr t"
  shows "\<forall>e \<in> set es. ev_OperationID e |\<in>| fmdom (st_Operations s)"
  using assms
proof (induction es arbitrary: s)
  case (Cons e es)
  then obtain u where u: "load_event e s = Inr u" "fold_res load_event es u = Inr t" by auto
  then have "st_Operations u = st_Operations s" "ev_OperationID e |\<in>| fmdom (st_Operations s)"
    by (auto simp: load_event_def Let_def fmdomI)
  with Cons.IH [OF u(2)] show ?case by simp
qed simp

lemma load_operation_dom:
  assumes "fold_res load_operation ps s = Inr t"
  shows "fset (fmdom (st_Operations t)) = fset (fmdom (st_Operations s)) \<union> op_ID ` set ps"
  using assms
proof (induction ps arbitrary: s)
  case (Cons p ps)
  then obtain u where u: "load_operation p s = Inr u" "fold_res load_operation ps u = Inr t" by auto
  then have "st_Operations u = fmupd (op_ID p) p (st_Operations s)" by (auto simp: load_operation_def)
  with Cons.IH [OF u(2)] show ?case by auto
qed simp

lemma Import_event_operation:
  assumes "Import p = Inr s" and "e \<in> set (ps_Events p)"
  shows "ev_OperationID e \<in> op_ID ` set (ps_Operations p)"
proof -
  from assms(1) obtain s1 s2 s3 s4 where
    s1: "fold_res load_sandbox (ps_Sandboxes p) NewState = Inr s1" and
    s2: "fold_res load_operation (ps_Operations p) s1 = Inr s2" and
    s3: "fold_res load_lease (ps_Leases p) s2 = Inr s3" and
    s4: "fold_res load_event (ps_Events p) s3 = Inr s4"
    by (auto simp: Import_def)
  have "st_Operations s1 = fmempty"
    using s1 by (rule fold_res_kept) (auto simp: load_sandbox_def NewState_def)
  moreover have "st_Operations s3 = st_Operations s2"
    using s3 by (rule fold_res_kept [where P = "\<lambda>t. st_Operations t = st_Operations s2"])
      (auto simp: load_lease_def)
  ultimately show ?thesis
    using load_event_operation [OF s4] load_operation_dom [OF s2] assms(2) by auto
qed

lemma exported_event_operation:
  assumes "Import (Export s) = Inr t" and "fmlookup (st_Events s) k = Some es" and "e \<in> set es"
  shows "\<exists>k' p. fmlookup (st_Operations s) k' = Some p \<and> ev_OperationID e = op_ID p"
proof -
  have "e \<in> set (ps_Events (Export s))"
    using assms(2,3) by (simp add: Export_def) (meson set_fmvals)
  from Import_event_operation [OF assms(1) this] show ?thesis by (auto simp: Export_def set_fmvals) blast
qed

section \<open>Properties\<close>



text \<open>
  C18. Loading is safe on any input. A snapshot of any version and content is either refused as corrupt
  or yields a state in which records are valid and filed under their own identifiers, references and
  leases resolve, fencing marks cover the leases and the event logs are gap-free and bounded; and such
  a state can be saved and loaded again unchanged, also when it came from a version 1 snapshot.
\<close>

theorem Import_sound:
  "case Import p of
     Inl e \<Rightarrow> e = [ErrCorrupt]
   | Inr s \<Rightarrow> loadable s \<and> Import (Export s) = Inr s"
proof (cases "Import p")
  case (Inl e)
  then show ?thesis using Import_corrupt [of p] by (simp add: corrupt_only_def)
next
  case (Inr s)
  with Import_loadable [OF Inr] Import_Export show ?thesis by simp
qed



end
