(* ===== verification/Lifecycle_Events.thy ===== *)
theory Lifecycle_Events
  imports Lifecycle_Snapshot
begin

text \<open>
  The event log of \<^verbatim>\<open>src/provider/lifecycle/repository/state.go\<close> against its specification: the
  unbounded list of all events ever appended for a sandbox. The repository keeps only the newest
  \<^verbatim>\<open>maxRetainedEvents\<close> of them and the latest sequence number; pages read from it are pages of the
  full history, and a cursor that fell behind the retained part is reported, never silently skipped.
\<close>

section \<open>Reading a page\<close>

lemma log_ok_hd: "log_ok latest es \<Longrightarrow> es \<noteq> [] \<Longrightarrow> unat (ev_Sequence (hd es)) = Suc (unat latest) - length es"
  by (simp add: log_ok_iff hd_conv_nth)

lemma log_ok_filter:
  assumes "log_ok latest es" and "unat after \<le> unat latest" and "unat latest \<le> unat after + length es"
  shows "filter (\<lambda>e. after < ev_Sequence e) es = drop (unat after + length es - unat latest) es"
proof -
  let ?n = "unat after + length es - unat latest"
  have seq: "unat (ev_Sequence (es ! i)) = Suc (unat latest) - length es + i" if "i < length es" for i
    using assms(1) that by (simp add: log_ok_iff)
  have len: "length es \<le> unat latest" using assms(1) by (simp add: log_ok_iff)
  have "\<forall>e \<in> set (take ?n es). \<not> after < ev_Sequence e"
  proof
    fix e assume "e \<in> set (take ?n es)"
    then obtain i where i: "i < ?n" "i < length es" "e = es ! i" by (auto simp: in_set_conv_nth)
    then show "\<not> after < ev_Sequence e"
      using seq [of i] len assms(3) by (simp add: word_less_nat_alt)
  qed
  moreover have "\<forall>e \<in> set (drop ?n es). after < ev_Sequence e"
  proof
    fix e assume "e \<in> set (drop ?n es)"
    then obtain i where i: "?n + i < length es" "e = es ! (?n + i)"
      unfolding in_set_conv_nth by (auto simp: less_diff_conv add.commute)
    then show "after < ev_Sequence e"
      using seq [of "?n + i"] len assms(3) by (simp add: word_less_nat_alt)
  qed
  ultimately have "filter (\<lambda>e. after < ev_Sequence e) (take ?n es @ drop ?n es) = drop ?n es"
    unfolding filter_append by (simp add: filter_id_conv)
  then show ?thesis by simp
qed

text \<open>What a page of a log must be.\<close>

definition page_of :: "Event list \<Rightarrow> u64 \<Rightarrow> u64 \<Rightarrow> nat \<Rightarrow> EventPage" where
  "page_of es latest after n =
     (let result = take n (filter (\<lambda>e. after < ev_Sequence e) es)
      in \<lparr>pg_Events = result,
          pg_FirstAvailableSequence = (if es = [] then 0 else ev_Sequence (hd es)),
          pg_LatestSequence = latest,
          pg_NextSequence = (if result = [] then after else ev_Sequence (last result))\<rparr>)"

lemma sint_small: "unat (w :: u64) < 2 ^ 63 \<Longrightarrow> sint w = int (unat w)"
proof -
  assume "unat w < 2 ^ 63"
  then have "int (unat w) < int (2 ^ 63)" by (rule of_nat_less_iff [THEN iffD2])
  then have "uint w < 2 ^ 63" by simp
  moreover have "- (2 ^ 63) \<le> uint w" by (rule order_trans [of _ 0]) simp_all
  ultimately show "sint w = int (unat w)" by (simp add: sint_uint signed_take_bit_int_eq_self)
qed

lemma slice_page:
  assumes "m \<le> length xs" and "length xs \<le> 1000" and "int n \<le> 1000"
  shows "slice xs (int m) (if wrap_int64 (int m + int n) > int (length xs) then int (length xs)
      else wrap_int64 (int m + int n)) = Inr (take n (drop m xs))"
proof -
  have "wrap_int64 (int m + int n) = int m + int n" using assms by (intro wrap_int64_id) simp_all
  then show ?thesis using assms(1) by (auto simp: slice_def)
qed

lemma cursor_arith:
  fixes after first latest :: u64
  assumes "after \<le> latest" and "latest \<noteq> - 1" and "0 < unat first"
  shows "after + 1 < first \<longleftrightarrow> Suc (unat after) < unat first"
    and "\<not> after + 1 < first \<Longrightarrow> unat latest < unat first + 1000 \<Longrightarrow>
      sint (after + 1 - first) = int (Suc (unat after) - unat first)"
proof -
  have "after \<noteq> - 1" using assms(1,2) by (metis word_order.extremum_unique)
  then have suc: "unat (after + 1) = Suc (unat after)" by (rule unat_succ)
  then show 1: "after + 1 < first \<longleftrightarrow> Suc (unat after) < unat first"
    by (simp add: word_less_nat_alt)
  assume "\<not> after + 1 < first" and small: "unat latest < unat first + 1000"
  then have "first \<le> after + 1" by simp
  then have diff: "unat (after + 1 - first) = Suc (unat after) - unat first"
    using suc by (simp add: unat_sub)
  also have "\<dots> < 2 ^ 63" using small assms(1) by (simp add: word_le_nat_alt)
  finally have "unat (after + 1 - first) < 2 ^ 63" .
  then have "sint (after + 1 - first) = int (unat (after + 1 - first))" by (rule sint_small)
  with diff show "sint (after + 1 - first) = int (Suc (unat after) - unat first)" by simp
qed

lemma ReadEvents_page:
  assumes inv: "inv_events s" and "fmlookup (st_Sandboxes s) k \<noteq> None" and "0 < n" and "int n \<le> maxEventPageSize"
    and "fmget (st_EventLatest s) k \<noteq> - 1"
  defines "es \<equiv> fmlist (st_Events s) k" and "latest \<equiv> fmget (st_EventLatest s) k"
  shows "ReadEvents k after (int n) s =
    (if latest < after then Inl [ErrInvalidCursor, ErrCursorAhead]
     else if unat after + length es < unat latest then Inl [ErrInvalidCursor, ErrCursorExpired]
     else Inr (page_of es latest after n))"
proof -
  have log: "log_ok latest es" "es = [] \<longleftrightarrow> latest = 0" "length es \<le> maxRetainedEvents"
    using inv_events_log [OF inv] by (simp_all add: es_def latest_def)
  have n: "int n \<le> 1000" using assms(4) by (simp add: maxEventPageSize_def)
  show ?thesis
  proof (cases "es = []")
    case True
    with log(2) assms(2,3) n show ?thesis
      by (auto simp: ReadEvents_def Let_def page_of_def slice_def wrap_int64_id maxEventPageSize_def
          es_def [symmetric] latest_def [symmetric])
  next
    case False
    let ?first = "ev_Sequence (hd es)"
    have first: "unat ?first = Suc (unat latest) - length es" using log_ok_hd [OF log(1) False] .
    have len: "length es \<le> unat latest" using log(1) by (simp add: log_ok_iff)
    have pos: "0 < latest" "0 < ?first" "0 < unat ?first"
      using False log(2) first len by (simp_all add: word_neq_0_conv word_less_nat_alt)
    show ?thesis
    proof (cases "latest < after")
      case True
      with False pos assms(2-4) show ?thesis
        by (simp add: ReadEvents_def Let_def es_def [symmetric] latest_def [symmetric])
    next
      case le: False
      then have le: "after \<le> latest" by simp
      have le': "unat after \<le> unat latest" using le by (simp add: word_le_nat_alt)
      note arith = cursor_arith [OF le assms(5) [folded latest_def] pos(3)]
      show ?thesis
      proof (cases "unat after + length es < unat latest")
        case True
        then have "after + 1 < ?first" using arith(1) first by simp
        with True False pos assms(2-4) le show ?thesis
          by (simp add: ReadEvents_def Let_def es_def [symmetric] latest_def [symmetric])
      next
        case retained: False
        then have "\<not> after + 1 < ?first" using arith(1) first len by simp
        define start where "start = unat after + length es - unat latest"
        have "sint (after + 1 - ?first) = int start"
          using arith(2) \<open>\<not> after + 1 < ?first\<close> first len log(3) retained
          by (simp add: maxRetainedEvents_def start_def)
        moreover have "start \<le> length es" using le' by (simp add: start_def)
        moreover have "filter (\<lambda>e. after < ev_Sequence e) es = drop start es"
          unfolding start_def using retained by (intro log_ok_filter [OF log(1) le']) simp
        moreover have "length es \<le> 1000" using log(3) by (simp add: maxRetainedEvents_def)
        ultimately show ?thesis
          using retained False pos assms(2-4) le \<open>\<not> after + 1 < ?first\<close>
            slice_page [of start es n] n
          by (simp add: ReadEvents_def Let_def page_of_def es_def [symmetric] latest_def [symmetric])
      qed
    qed
  qed
qed

section \<open>The history behind a log\<close>

text \<open>
  \<open>represents hist latest es\<close>: the log with cursor \<open>latest\<close> and retained events \<open>es\<close> represents the full
  history \<open>hist\<close>, whose events carry the sequence numbers 1, 2, and so on.
\<close>

definition represents :: "Event list \<Rightarrow> u64 \<Rightarrow> Event list \<Rightarrow> bool" where
  "represents hist latest es \<longleftrightarrow>
     unat latest = length hist \<and> es = drop (length hist - maxRetainedEvents) hist \<and>
     (\<forall>i < length hist. unat (ev_Sequence (hist ! i)) = Suc i)"

abbreviation represents_log :: "Event list \<Rightarrow> string \<Rightarrow> State \<Rightarrow> bool" where
  "represents_log hist k s \<equiv> represents hist (fmget (st_EventLatest s) k) (fmlist (st_Events s) k)"

lemma represents_append:
  assumes "represents_log hist (ev_SandboxID e) s" and "fmget (st_EventLatest s) (ev_SandboxID e) \<noteq> - 1"
    and "appendRetainedEvent e s = (e', s')"
  shows "represents_log (hist @ [e']) (ev_SandboxID e) s'"
    and "k \<noteq> ev_SandboxID e \<Longrightarrow> represents_log h k s' = represents_log h k s"
    and "e' = e\<lparr>ev_Sequence := of_nat (Suc (length hist))\<rparr>"
proof -
  let ?k = "ev_SandboxID e"
  define latest where "latest = fmget (st_EventLatest s) ?k"
  have e': "e' = e\<lparr>ev_Sequence := latest + 1\<rparr>" and s': "s' = snd (appendRetainedEvent e s)"
    using assms(3) by (auto simp: appendRetainedEvent_def Let_def latest_def)
  have hist: "unat latest = length hist"
    and es: "fmlist (st_Events s) ?k = drop (length hist - maxRetainedEvents) hist"
    and seq: "\<forall>i < length hist. unat (ev_Sequence (hist ! i)) = Suc i"
    using assms(1) by (simp_all add: represents_def latest_def)
  have suc: "unat (latest + 1) = Suc (length hist)"
    using assms(2) hist by (simp add: unat_succ latest_def)
  show "represents_log (hist @ [e']) ?k s'"
    unfolding s' appendRetainedEvent_maps fmlist_upd fmget_upd es represents_def
    using suc seq e'
    by (auto simp: latest_def nth_append less_Suc_eq maxRetainedEvents_def drop_append)
      (rule arg_cong [where f = "\<lambda>n. drop n hist"], linarith)
  show "k \<noteq> ?k \<Longrightarrow> represents_log h k s' = represents_log h k s"
    by (simp add: s' appendRetainedEvent_maps)
  show "e' = e\<lparr>ev_Sequence := of_nat (Suc (length hist))\<rparr>"
    unfolding e' suc [symmetric] by simp
qed

lemma represents_log_ok: "represents hist latest es \<Longrightarrow> log_ok latest es"
  by (auto simp: represents_def log_ok_iff maxRetainedEvents_def)


lemma history_filter:
  assumes "represents hist latest es" and "unat after \<le> length hist" and "length hist \<le> unat after + maxRetainedEvents"
  shows "filter (\<lambda>e. after < ev_Sequence e) es = drop (unat after) hist"
proof -
  have len: "length es = min (length hist) maxRetainedEvents" "unat latest = length hist"
    "es = drop (length hist - maxRetainedEvents) hist"
    using assms(1) by (auto simp: represents_def)
  have "filter (\<lambda>e. after < ev_Sequence e) es = drop (unat after + length es - unat latest) es"
    using assms(2,3) len(1,2) by (intro log_ok_filter [OF represents_log_ok [OF assms(1)]]) auto
  also have "\<dots> = drop (unat after) hist"
    unfolding len(3) drop_drop using assms(3) len(1,2) by (intro arg_cong2 [where f = drop]) auto
  finally show ?thesis .
qed

lemma represents_next:
  assumes "represents hist latest es" and "unat after \<le> length hist" and "r = take n (drop (unat after) hist)"
  shows "(if r = [] then after else ev_Sequence (last r)) = after + of_nat (length r)"
proof (cases "r = []")
  case False
  then have "unat after + length r \<le> length hist" "0 < length r" using assms(2,3) by auto
  moreover have "last r = hist ! (unat after + (length r - 1))"
    using False assms(2,3) calculation by (simp add: last_conv_nth)
  moreover have "unat (ev_Sequence (hist ! (unat after + (length r - 1)))) = Suc (unat after + (length r - 1))"
  proof -
    have "unat after + (length r - 1) < length hist" using calculation(1,2) by linarith
    then show ?thesis using assms(1) by (simp add: represents_def)
  qed
  ultimately have "unat (ev_Sequence (last r)) = unat after + length r" by simp
  then have "word_of_nat (unat (ev_Sequence (last r))) = (word_of_nat (unat after + length r) :: u64)"
    by (rule arg_cong)
  with False show ?thesis by simp
qed simp

section \<open>Properties\<close>

text \<open>
  C19. Reading events is exact in every well-formed state: for a known sandbox and a page size between 1
  and 1000, the answer is a cursor-ahead error when the cursor is past the latest event, a
  cursor-expired error when events after the cursor are no longer retained, and otherwise the first
  retained events with a larger sequence number, with the bounds of the log and the next cursor; in
  particular the slice expression never goes out of range.
\<close>

theorem ReadEvents_exact:
  assumes "repo_inv s" and "GetSandbox k s = Inr sb" and "0 < n" and "n \<le> 1000"
    and "fmget (st_EventLatest s) k \<noteq> - 1"
  shows "ReadEvents k after (int n) s =
    (if fmget (st_EventLatest s) k < after then Inl [ErrInvalidCursor, ErrCursorAhead]
     else if unat after + length (fmlist (st_Events s) k) < unat (fmget (st_EventLatest s) k)
     then Inl [ErrInvalidCursor, ErrCursorExpired]
     else Inr (page_of (fmlist (st_Events s) k) (fmget (st_EventLatest s) k) after n))"
  using assms by (intro ReadEvents_page)
    (auto simp: repo_inv_def GetSandbox_def maxEventPageSize_def split: option.splits)

theorem ReadEvents_exact_witness:
  "ReadEvents ''sbx'' 0 (int 5) state2 =
     Inr \<lparr>pg_Events = [event2\<lparr>ev_Sequence := 1\<rparr>], pg_FirstAvailableSequence = 1, pg_LatestSequence = 1,
          pg_NextSequence = 1\<rparr>"
proof -
  have inv: "repo_inv state2"
    using repo_evolves_inv [OF repo_evolves_trans [OF state2_reachable state1_reachable] repo_inv_NewState] .
  have log: "fmget (st_EventLatest state2) ''sbx'' = 1"
    "fmlist (st_Events state2) ''sbx'' = [event2\<lparr>ev_Sequence := 1\<rparr>]"
    by (simp_all add: state2_def mutated_state_def state1_def created_state_def NewState_def Let_def
        appendRetainedEvent_maps maxRetainedEvents_def sample_fields)
  have "GetSandbox ''sbx'' state2 = Inr sandbox2"
    by (simp add: GetSandbox_def state2_def mutated_state_def Let_def sample_fields)
  from ReadEvents_exact [OF inv this, of 5 0] show ?thesis
    unfolding log by (simp add: page_of_def Let_def)
qed

text \<open>
  C17. The bounded log implements the full history. Appending an event stamps it with the next number
  and extends the history by exactly it, leaving the other sandboxes' logs alone; and reading with a
  cursor at most 1000 events behind returns the next events of the full history, in order, without a
  gap or a repetition, and the cursor to continue from. Older cursors are told that they expired.
\<close>

theorem event_log_refines_history:
  assumes "repo_inv s" and "GetSandbox k s = Inr sb" and "represents_log hist k s" and "0 < n" and "n \<le> 1000"
    and "fmget (st_EventLatest s) k \<noteq> - 1"
  shows "(\<forall>e e' s'. ev_SandboxID e = k \<and> appendRetainedEvent e s = (e', s') \<longrightarrow>
      e' = e\<lparr>ev_Sequence := of_nat (Suc (length hist))\<rparr> \<and> represents_log (hist @ [e']) k s' \<and>
      (\<forall>h j. j \<noteq> k \<longrightarrow> represents_log h j s' = represents_log h j s)) \<and>
    (\<forall>after. unat after \<le> length hist \<and> length hist \<le> unat after + 1000 \<longrightarrow>
      (\<exists>page. ReadEvents k after (int n) s = Inr page \<and> pg_Events page = take n (drop (unat after) hist) \<and>
        pg_NextSequence page = after + of_nat (length (pg_Events page)))) \<and>
    (\<forall>after. unat after + 1000 < length hist \<longrightarrow>
      ReadEvents k after (int n) s = Inl [ErrInvalidCursor, ErrCursorExpired])"
proof (intro conjI allI impI)
  fix e e' s' assume "ev_SandboxID e = k \<and> appendRetainedEvent e s = (e', s')"
  then show "e' = e\<lparr>ev_Sequence := of_nat (Suc (length hist))\<rparr>" "represents_log (hist @ [e']) k s'"
    "\<And>h j. j \<noteq> k \<Longrightarrow> represents_log h j s' = represents_log h j s"
    using represents_append [of hist s e e' s'] assms(3,6) by auto
next
  let ?es = "fmlist (st_Events s) k" and ?latest = "fmget (st_EventLatest s) k"
  have read: "ReadEvents k after (int n) s =
    (if ?latest < after then Inl [ErrInvalidCursor, ErrCursorAhead]
     else if unat after + length ?es < unat ?latest then Inl [ErrInvalidCursor, ErrCursorExpired]
     else Inr (page_of ?es ?latest after n))" for after
    using assms by (intro ReadEvents_page)
      (auto simp: repo_inv_def GetSandbox_def maxEventPageSize_def split: option.splits)
  have len: "length ?es = min (length hist) 1000" "unat ?latest = length hist"
    using assms(3) by (auto simp: represents_def maxRetainedEvents_def)
  {
    fix after :: u64 assume a: "unat after \<le> length hist \<and> length hist \<le> unat after + 1000"
    then have "ReadEvents k after (int n) s = Inr (page_of ?es ?latest after n)"
      unfolding read using len by (auto simp: word_less_nat_alt)
    moreover have "pg_Events (page_of ?es ?latest after n) = take n (drop (unat after) hist)"
      using history_filter [OF assms(3), of after] a by (simp add: page_of_def Let_def maxRetainedEvents_def)
    moreover have "pg_NextSequence (page_of ?es ?latest after n) =
        after + of_nat (length (pg_Events (page_of ?es ?latest after n)))"
      using represents_next [OF assms(3), of after] calculation(2) a by (simp add: page_of_def Let_def)
    ultimately show "\<exists>page. ReadEvents k after (int n) s = Inr page \<and>
        pg_Events page = take n (drop (unat after) hist) \<and>
        pg_NextSequence page = after + of_nat (length (pg_Events page))" by blast
  }
  fix after :: u64 assume "unat after + 1000 < length hist"
  then show "ReadEvents k after (int n) s = Inl [ErrInvalidCursor, ErrCursorExpired]"
    unfolding read using len by (auto simp: word_less_nat_alt)
qed

theorem event_log_refines_history_witness:
  "\<exists>page. ReadEvents ''sbx'' 0 (int 5) state1 = Inr page \<and> pg_Events page = take 5 (drop (unat (0 :: u64)) []) \<and>
     pg_NextSequence page = 0 + of_nat (length (pg_Events page))"
proof -
  have "repo_inv state1" using repo_evolves_inv [OF state1_reachable repo_inv_NewState] .
  moreover have "GetSandbox ''sbx'' state1 = Inr sandbox1"
    by (simp add: GetSandbox_def state1_def created_state_def NewState_def Let_def sample_fields)
  moreover have log: "fmget (st_EventLatest state1) ''sbx'' = 0" "fmlist (st_Events state1) ''sbx'' = []"
    by (simp_all add: state1_def created_state_def NewState_def Let_def)
  then have "represents_log [] ''sbx'' state1" "fmget (st_EventLatest state1) ''sbx'' \<noteq> - 1"
    by (simp_all add: represents_def)
  ultimately show ?thesis
    using event_log_refines_history [of state1 "''sbx''" sandbox1 "[]" 5,
        THEN conjunct2, THEN conjunct1, rule_format, of 0] by simp
qed

end
