(* ===== verification/Go_World.thy ===== *)
theory Go_World
  imports Go_Prelude
begin

text \<open>
  How a call of a coordinator runs: a function of the world, made of the steps below. The world is the
  repository, the runtime outside (a driver or an executor) and a tick that counts what the call has done.
  The environment answers by tick: what the clock reads, whether a timer has fired, and what other callers
  did to the repository before the next access. A Go method that returns a value and an error returns both
  as options, the zero value of the result being \<open>None\<close>.

  A context is the sequence of answers its \<^verbatim>\<open>Err\<close> method gives to successive calls, so it may be
  cancelled between any two of them; a nil context is \<open>None\<close>.
\<close>

section \<open>Contexts\<close>

type_synonym ctx = "nat \<Rightarrow> error option"

definition contextError :: "ctx option \<Rightarrow> nat \<Rightarrow> error option" where
  "contextError c n = (case c of None \<Rightarrow> Some [ContextCanceled] | Some err \<Rightarrow> err n)"

text \<open>A context that never ends.\<close>

definition live :: "ctx option" where
  "live = Some (\<lambda>_. None)"

section \<open>The world of a call\<close>

record 'r Env =
  en_Clock :: "nat \<Rightarrow> time"
  en_Timer :: "nat \<Rightarrow> nat \<Rightarrow> bool"
  en_Others :: "nat \<Rightarrow> 'r \<Rightarrow> 'r"

record ('r, 'd) World =
  w_Repository :: 'r
  w_Driver :: 'd
  w_Tick :: nat

type_synonym 'a returns = "'a option \<times> error option"

section \<open>Steps of a call\<close>

definition return :: "'a \<Rightarrow> 'w \<Rightarrow> 'a returns \<times> 'w" where
  "return x w = ((Some x, None), w)"

definition return_err :: "error \<Rightarrow> 'w \<Rightarrow> 'a returns \<times> 'w" where
  "return_err e w = ((None, Some e), w)"

definition return_both :: "'a \<Rightarrow> error \<Rightarrow> 'w \<Rightarrow> 'a returns \<times> 'w" where
  "return_both x e w = ((Some x, Some e), w)"

definition or_return :: "error + 'a \<Rightarrow> ('a \<Rightarrow> 'w \<Rightarrow> 'b returns \<times> 'w) \<Rightarrow> 'w \<Rightarrow> 'b returns \<times> 'w" where
  "or_return r k w = (case r of Inl e \<Rightarrow> return_err e w | Inr x \<Rightarrow> k x w)"

definition clock_now ::
    "'r Env \<Rightarrow> (time \<Rightarrow> ('r, 'd) World \<Rightarrow> 'b returns \<times> ('r, 'd) World) \<Rightarrow>
     ('r, 'd) World \<Rightarrow> 'b returns \<times> ('r, 'd) World" where
  "clock_now env k w = k (en_Clock env (w_Tick w)) (w\<lparr>w_Tick := Suc (w_Tick w)\<rparr>)"

definition poll ::
    "ctx option \<Rightarrow> (error option \<Rightarrow> ('r, 'd) World \<Rightarrow> 'b returns \<times> ('r, 'd) World) \<Rightarrow>
     ('r, 'd) World \<Rightarrow> 'b returns \<times> ('r, 'd) World" where
  "poll c k w = k (contextError c (w_Tick w)) (w\<lparr>w_Tick := Suc (w_Tick w)\<rparr>)"

text \<open>A context as a callee sees it: it asks its own first, second and later answer from now on.\<close>

definition from_now :: "nat \<Rightarrow> ctx option \<Rightarrow> ctx option" where
  "from_now t c = map_option (\<lambda>err n. err (t + n)) c"

text \<open>
  An access to the repository: other callers go first, then the port's method runs. A call asks its context
  at most five times.
\<close>

definition repo_write ::
    "'r Env \<Rightarrow> ctx option \<Rightarrow> (ctx option \<Rightarrow> 'r \<Rightarrow> (error + 'a) \<times> 'r) \<Rightarrow>
     (error + 'a \<Rightarrow> ('r, 'd) World \<Rightarrow> 'b returns \<times> ('r, 'd) World) \<Rightarrow>
     ('r, 'd) World \<Rightarrow> 'b returns \<times> ('r, 'd) World" where
  "repo_write env c method k w =
     (case method (from_now (w_Tick w) c) (en_Others env (w_Tick w) (w_Repository w)) of
        (res, r) \<Rightarrow> k res (w\<lparr>w_Repository := r, w_Tick := w_Tick w + 5\<rparr>))"

definition repo_read ::
    "'r Env \<Rightarrow> ctx option \<Rightarrow> (ctx option \<Rightarrow> 'r \<Rightarrow> error + 'a) \<Rightarrow>
     (error + 'a \<Rightarrow> ('r, 'd) World \<Rightarrow> 'b returns \<times> ('r, 'd) World) \<Rightarrow>
     ('r, 'd) World \<Rightarrow> 'b returns \<times> ('r, 'd) World" where
  "repo_read env c method = repo_write env c (\<lambda>c r. (method c r, r))"

text \<open>The common form: an error is returned at once.\<close>

definition write_or_return where
  "write_or_return env c method k = repo_write env c method (\<lambda>res. or_return res k)"

definition read_or_return where
  "read_or_return env c method k = repo_read env c method (\<lambda>res. or_return res k)"

definition driver_call ::
    "ctx option \<Rightarrow> (ctx option \<Rightarrow> 'd \<Rightarrow> 'a \<times> 'd) \<Rightarrow> ('a \<Rightarrow> ('r, 'd) World \<Rightarrow> 'b returns \<times> ('r, 'd) World) \<Rightarrow>
     ('r, 'd) World \<Rightarrow> 'b returns \<times> ('r, 'd) World" where
  "driver_call c method k w =
     (case method (from_now (w_Tick w) c) (w_Driver w) of
        (res, d) \<Rightarrow> k res (w\<lparr>w_Driver := d, w_Tick := w_Tick w + 5\<rparr>))"

section \<open>Derived contexts\<close>

text \<open>
  \<^verbatim>\<open>context.WithTimeout\<close>: a parent that is already done, or a timeout that is not positive, ends the
  child at once; otherwise it ends with its parent or when its timer fires.
\<close>

definition with_timeout :: "(nat \<Rightarrow> bool) \<Rightarrow> ctx \<Rightarrow> nat \<Rightarrow> int \<Rightarrow> ctx" where
  "with_timeout fired parent created timeout =
     (case parent created of
        Some e \<Rightarrow> (\<lambda>_. Some e)
      | None \<Rightarrow> if timeout \<le> 0 then (\<lambda>_. Some [ContextDeadlineExceeded])
          else (\<lambda>n. if fired n then Some [ContextDeadlineExceeded] else parent n))"

end
