(* ===== verification/Go_File.thy ===== *)
theory Go_File
  imports Go_World
begin

text \<open>
  The repositories that keep their state in one file, atomically replaced at every write, share one shape in
  the source: \<^verbatim>\<open>src/provider/lifecycle/repository/file/repository.go\<close>,
  \<^verbatim>\<open>src/provider/exec/repository/file/repository.go\<close> and
  \<^verbatim>\<open>src/provider/usage/repository/file/repository.go\<close> differ in what they store, in a size limit and in
  their errors. This theory has that shape once, over a description of the format, and what follows for any
  format whose states survive a save and a load.

  A repository also holds the file: its content is the sequence of JSON documents in it, each either the
  encoding of a snapshot or something the strict decoder refuses. The outcome of every system call comes from an
  oracle, one record per attempted write, so that every combination of failures is covered.

  The n-th time a method asks its context, it asks the answer with the index written in the method.
\<close>

section \<open>Files\<close>

datatype 'p Document = Snapshot 'p | Malformed

record 'p DiskFile =
  df_Regular :: bool
  df_Size :: int
  df_Documents :: "'p Document list"

text \<open>
  The outcome of the system calls of one \<^verbatim>\<open>persist\<close>, \<open>True\<close> where the call fails, and the size of an
  encoded snapshot.
\<close>

record 'p PersistEnv =
  pe_MkdirAll :: bool
  pe_CreateTemp :: bool
  pe_Chmod :: bool
  pe_Encode :: bool
  pe_Stat :: bool
  pe_Size :: "'p \<Rightarrow> int"
  pe_Sync :: bool
  pe_Close :: bool
  pe_Rename :: bool
  pe_OpenDirectory :: bool
  pe_SyncDirectory :: bool
  pe_CloseDirectory :: bool

text \<open>The outcome of the calls of \<^verbatim>\<open>NewRepository\<close> and \<^verbatim>\<open>load\<close>.\<close>

record LoadEnv =
  le_MkdirAll :: bool
  le_Lock :: bool
  le_Open :: bool
  le_Stat :: bool
  le_Read :: bool

record ('s, 'p) FileStore =
  file_State :: 's
  file_Closed :: bool
  file_Disk :: "'p DiskFile option"
  file_Env :: "nat \<Rightarrow> 'p PersistEnv"
  file_Writes :: nat
  file_ReleaseFails :: bool

text \<open>
  A format: the empty state, \<^verbatim>\<open>Export\<close> and \<^verbatim>\<open>Import\<close>, the size limit, whether a write makes the
  directory again, the errors, and how \<^verbatim>\<open>load\<close> passes on an error of \<^verbatim>\<open>Import\<close>.
\<close>

record ('s, 'p) FileFormat =
  ff_NewState :: 's
  ff_Export :: "'s \<Rightarrow> 'p"
  ff_Import :: "'p \<Rightarrow> error + 's"
  ff_MaxFileSize :: int
  ff_MakesDirectory :: bool
  ff_ErrClosed :: error
  ff_ErrDurability :: error
  ff_ErrCorrupt :: error
  ff_ErrStat :: error
  ff_ImportError :: "error \<Rightarrow> error"

section \<open>Writing\<close>

text \<open>Everything up to and including the rename, which is what makes the new content visible.\<close>

definition store_replace ::
    "('s, 'p) FileFormat \<Rightarrow> ctx option \<Rightarrow> nat \<Rightarrow> 'p PersistEnv \<Rightarrow> 'p \<Rightarrow> error option" where
  "store_replace fmt c n env snapshot = first_err
     [contextError c n,
      fail_if (ff_MakesDirectory fmt \<and> pe_MkdirAll env) (ff_ErrDurability fmt),
      fail_if (pe_CreateTemp env) (ff_ErrDurability fmt),
      fail_if (pe_Chmod env) (ff_ErrDurability fmt),
      fail_if (pe_Encode env) (ff_ErrDurability fmt),
      fail_if (pe_Stat env) (ff_ErrDurability fmt),
      fail_if (pe_Size env snapshot > ff_MaxFileSize fmt) (ff_ErrDurability fmt),
      fail_if (pe_Sync env) (ff_ErrDurability fmt),
      fail_if (pe_Close env) (ff_ErrDurability fmt),
      contextError c (Suc n),
      fail_if (pe_Rename env) (ff_ErrDurability fmt)]"

definition store_sync :: "('s, 'p) FileFormat \<Rightarrow> 'p PersistEnv \<Rightarrow> error option" where
  "store_sync fmt env = first_err
     [fail_if (pe_OpenDirectory env) (ff_ErrDurability fmt),
      fail_if (pe_SyncDirectory env \<or> pe_CloseDirectory env) (ff_ErrDurability fmt)]"

definition store_persist ::
    "('s, 'p) FileFormat \<Rightarrow> ctx option \<Rightarrow> nat \<Rightarrow> ('s, 'p) FileStore \<Rightarrow> (bool \<times> error option) \<times> ('s, 'p) FileStore" where
  "store_persist fmt c n r =
     (let env = file_Env r (file_Writes r);
          r' = r\<lparr>file_Writes := Suc (file_Writes r)\<rparr>;
          snapshot = ff_Export fmt (file_State r)
      in case store_replace fmt c n env snapshot of
           Some e \<Rightarrow> ((False, Some e), r')
         | None \<Rightarrow>
             ((True, store_sync fmt env),
              r'\<lparr>file_Disk := Some \<lparr>df_Regular = True, df_Size = pe_Size env snapshot,
                 df_Documents = [Snapshot snapshot]\<rparr>\<rparr>))"

text \<open>The error of the rollback's \<^verbatim>\<open>Import\<close> is discarded by the source; a failed one leaves the state.\<close>

definition store_rollback :: "('s, 'p) FileFormat \<Rightarrow> 'p \<Rightarrow> ('s, 'p) FileStore \<Rightarrow> ('s, 'p) FileStore" where
  "store_rollback fmt previous r = (case ff_Import fmt previous of Inl _ \<Rightarrow> r | Inr s \<Rightarrow> r\<lparr>file_State := s\<rparr>)"

text \<open>Persisting the state that a method has put in place of the previous one, and undoing it if that failed.\<close>

definition store_commit ::
    "('s, 'p) FileFormat \<Rightarrow> ctx option \<Rightarrow> nat \<Rightarrow> 's \<Rightarrow> ('s, 'p) FileStore \<Rightarrow> error option \<times> ('s, 'p) FileStore" where
  "store_commit fmt c n s r =
     (case store_persist fmt c n (r\<lparr>file_State := s\<rparr>) of
        ((committed, None), r') \<Rightarrow> (None, r')
      | ((committed, Some e), r') \<Rightarrow>
          (Some e, if committed then r' else store_rollback fmt (ff_Export fmt (file_State r)) r'))"

definition store_mutate ::
    "('s, 'p) FileFormat \<Rightarrow> ctx option \<Rightarrow> nat \<Rightarrow> ('s \<Rightarrow> error + 'a \<times> 's) \<Rightarrow> ('s, 'p) FileStore \<Rightarrow>
     (error + 'a) \<times> ('s, 'p) FileStore" where
  "store_mutate fmt c n mutation r =
     (case first_err [contextError c n, fail_if (file_Closed r) (ff_ErrClosed fmt), contextError c (Suc n)] of
        Some e \<Rightarrow> (Inl e, r)
      | None \<Rightarrow>
          (case mutation (file_State r) of
             Inl e \<Rightarrow> (Inl e, r)
           | Inr (x, s) \<Rightarrow>
               (case store_commit fmt c (n + 2) s r of
                  (None, r') \<Rightarrow> (Inr x, r')
                | (Some e, r') \<Rightarrow> (Inl e, r'))))"

section \<open>Reading, closing and opening\<close>

definition store_read ::
    "('s, 'p) FileFormat \<Rightarrow> ctx option \<Rightarrow> nat \<Rightarrow> ('s \<Rightarrow> error + 'a) \<Rightarrow> ('s, 'p) FileStore \<Rightarrow> error + 'a" where
  "store_read fmt c n f r =
     unless_err (first_err [contextError c n, fail_if (file_Closed r) (ff_ErrClosed fmt)]) (f (file_State r))"

text \<open>Closing releases the lock; a failure to do so is the error returned.\<close>

definition store_close :: "('s, 'p) FileStore \<Rightarrow> error option \<times> ('s, 'p) FileStore" where
  "store_close r =
     (if file_Closed r then (None, r)
      else (fail_if (file_ReleaseFails r) [ErrOther], r\<lparr>file_Closed := True\<rparr>))"

definition store_json_eof :: "('s, 'p) FileFormat \<Rightarrow> 'p Document list \<Rightarrow> error option" where
  "store_json_eof fmt rest = (case rest of [] \<Rightarrow> None | _ # _ \<Rightarrow> Some (ff_ErrCorrupt fmt))"

definition store_load :: "('s, 'p) FileFormat \<Rightarrow> LoadEnv \<Rightarrow> ('s, 'p) FileStore \<Rightarrow> error + ('s, 'p) FileStore" where
  "store_load fmt env r =
     (case file_Disk r of
        None \<Rightarrow> if le_Open env then Inl [ErrOther] else Inr r
      | Some d \<Rightarrow>
          unless_err (first_err
            [fail_if (le_Open env) [ErrOther],
             fail_if (le_Stat env) (ff_ErrStat fmt),
             fail_if (\<not> df_Regular d \<or> df_Size d > ff_MaxFileSize fmt) (ff_ErrCorrupt fmt),
             fail_if (le_Read env) (ff_ErrCorrupt fmt)])
           (case df_Documents d of
              [] \<Rightarrow> Inl (ff_ErrCorrupt fmt)
            | Malformed # _ \<Rightarrow> Inl (ff_ErrCorrupt fmt)
            | Snapshot snapshot # rest \<Rightarrow>
                unless_err (store_json_eof fmt rest)
                 (case ff_Import fmt snapshot of
                    Inl e \<Rightarrow> Inl (ff_ImportError fmt e)
                  | Inr s \<Rightarrow> Inr (r\<lparr>file_State := s\<rparr>))))"

definition store_open ::
    "('s, 'p) FileFormat \<Rightarrow> string \<Rightarrow> LoadEnv \<Rightarrow> 'p DiskFile option \<Rightarrow> (nat \<Rightarrow> 'p PersistEnv) \<Rightarrow> bool \<Rightarrow>
     error + ('s, 'p) FileStore" where
  "store_open fmt path env disk writes release =
     unless_err (first_err
       [fail_if (blank path) [ErrOther],
        fail_if (le_MkdirAll env) [ErrOther],
        fail_if (le_Lock env) [ErrOther]])
      (store_load fmt env \<lparr>file_State = ff_NewState fmt, file_Closed = False, file_Disk = disk, file_Env = writes,
                file_Writes = 0, file_ReleaseFails = release\<rparr>)"

lemmas store_eval = store_mutate_def store_commit_def store_persist_def store_replace_def store_sync_def store_rollback_def

section \<open>What a sound format gives\<close>

text \<open>What the file holds: the snapshot of the state in memory, or nothing while that is empty.\<close>

definition stored :: "('s, 'p) FileFormat \<Rightarrow> 's \<Rightarrow> 'p DiskFile option \<Rightarrow> bool" where
  "stored fmt s d \<longleftrightarrow>
     (case d of
        None \<Rightarrow> s = ff_NewState fmt
      | Some f \<Rightarrow> df_Regular f \<and> df_Size f \<le> ff_MaxFileSize fmt \<and> df_Documents f = [Snapshot (ff_Export fmt s)])"

definition store_durable :: "('s, 'p) FileFormat \<Rightarrow> ('s \<Rightarrow> bool) \<Rightarrow> ('s, 'p) FileStore \<Rightarrow> bool" where
  "store_durable fmt good r \<longleftrightarrow> good (file_State r) \<and> stored fmt (file_State r) (file_Disk r)"

lemma store_replace_size: "store_replace fmt c n env p = None \<Longrightarrow> pe_Size env p \<le> ff_MaxFileSize fmt"
  by (simp add: store_replace_def)

lemma store_sync_error: "store_sync fmt env = None \<or> store_sync fmt env = Some (ff_ErrDurability fmt)"
  by (simp add: store_sync_def fail_if_def)

locale file_format =
  fixes fmt :: "('s, 'p) FileFormat"
    and good :: "'s \<Rightarrow> bool"
  assumes new_good: "good (ff_NewState fmt)"
    and round_trip: "good s \<Longrightarrow> ff_Import fmt (ff_Export fmt s) = Inr s"
begin

lemma commit_cases:
  assumes "store_commit fmt c n s r = (err, r')" and "good (file_State r)"
  obtains (applied) "err = None" "file_State r' = s" "stored fmt s (file_Disk r')" "file_Closed r' = file_Closed r"
  | (unconfirmed) "err = Some (ff_ErrDurability fmt)" "file_State r' = s" "stored fmt s (file_Disk r')"
      "file_Closed r' = file_Closed r"
  | (refused) e where "err = Some e" "file_State r' = file_State r" "file_Disk r' = file_Disk r"
      "file_Closed r' = file_Closed r"
proof (cases "store_replace fmt c n (file_Env r (file_Writes r)) (ff_Export fmt s)")
  case (Some e)
  with assms(1) round_trip [OF assms(2)] show ?thesis
    by (intro refused [of e]) (auto simp: store_commit_def store_persist_def store_rollback_def Let_def)
next
  case None
  have err: "err = store_sync fmt (file_Env r (file_Writes r))" and r': "file_State r' = s" "file_Closed r' = file_Closed r"
    "stored fmt s (file_Disk r')"
    using assms(1) None store_replace_size [OF None]
    by (auto simp: store_commit_def store_persist_def Let_def stored_def split: option.splits)
  from store_sync_error [of fmt "file_Env r (file_Writes r)"] show ?thesis
    by (rule disjE) (use err r' in \<open>auto intro: applied unconfirmed\<close>)
qed

lemma mutate_cases:
  assumes "store_mutate fmt c n f r = (res, r')" and "good (file_State r)"
  obtains (applied) x s where "res = Inr x" "f (file_State r) = Inr (x, s)" "file_State r' = s" "stored fmt s (file_Disk r')"
      "file_Closed r' = file_Closed r"
  | (unconfirmed) x s where "res = Inl (ff_ErrDurability fmt)" "f (file_State r) = Inr (x, s)" "file_State r' = s"
      "stored fmt s (file_Disk r')" "file_Closed r' = file_Closed r"
  | (refused) e where "res = Inl e" "file_State r' = file_State r" "file_Disk r' = file_Disk r"
      "file_Closed r' = file_Closed r"
proof (cases "first_err [contextError c n, fail_if (file_Closed r) (ff_ErrClosed fmt), contextError c (Suc n)]")
  case (Some e)
  with assms(1) show ?thesis by (intro refused [of e]) (auto simp: store_mutate_def simp del: first_err.simps)
next
  case None
  show ?thesis
  proof (cases "f (file_State r)")
    case (Inl e)
    with assms(1) None show ?thesis by (intro refused [of e]) (auto simp: store_mutate_def)
  next
    case (Inr y)
    obtain x s where xs: "y = (x, s)" by force
    obtain err q where q: "store_commit fmt c (n + 2) s r = (err, q)" by force
    have res: "(res, r') = (case err of None \<Rightarrow> (Inr x, q) | Some e \<Rightarrow> (Inl e, q))"
      using assms(1) None Inr xs q by (cases err) (simp_all add: store_mutate_def)
    from q assms(2) show ?thesis
      by (cases rule: commit_cases)
        (use res Inr xs in \<open>auto intro: applied unconfirmed refused\<close>)
  qed
qed

lemma mutate_durable:
  assumes "store_mutate fmt c n f r = (res, r')" and "store_durable fmt good r" and "\<And>x s. f (file_State r) = Inr (x, s) \<Longrightarrow> good s"
  shows "store_durable fmt good r'"
proof -
  have i: "good (file_State r)" and st: "stored fmt (file_State r) (file_Disk r)"
    using assms(2) by (simp_all add: store_durable_def)
  from assms(1) i show ?thesis
    by (cases rule: mutate_cases) (use assms(3) i st in \<open>auto simp: store_durable_def\<close>)
qed

lemma commit_durable:
  assumes "store_commit fmt c n s r = (err, r')" and "store_durable fmt good r" and "good s"
  shows "store_durable fmt good r'"
proof -
  have i: "good (file_State r)" and st: "stored fmt (file_State r) (file_Disk r)"
    using assms(2) by (simp_all add: store_durable_def)
  from assms(1) i show ?thesis
    by (cases rule: commit_cases) (use assms(3) i st in \<open>auto simp: store_durable_def\<close>)
qed

lemma close_durable: "store_close r = (err, r') \<Longrightarrow> store_durable fmt good r \<Longrightarrow> store_durable fmt good r'"
  by (auto simp: store_close_def store_durable_def split: if_splits)

lemma open_stored:
  assumes "stored fmt s d" and "good s" and "store_open fmt path env d writes release = Inr r'"
  shows "file_State r' = s \<and> file_Disk r' = d"
  using assms round_trip [OF assms(2)]
  by (cases d) (auto simp: store_open_def store_load_def store_json_eof_def stored_def split: if_splits)

lemma open_durable: "store_open fmt path env (file_Disk r) writes release = Inr r' \<Longrightarrow> store_durable fmt good r \<Longrightarrow>
    store_durable fmt good r' \<and> file_State r' = file_State r"
  using open_stored [of "file_State r" "file_Disk r" path env writes release r'] by (simp add: store_durable_def)

lemma open_absent: "store_open fmt path env None writes release = Inr r \<Longrightarrow> store_durable fmt good r \<and> file_State r = ff_NewState fmt"
  using new_good by (auto simp: store_open_def store_load_def store_durable_def stored_def split: if_splits)

lemma opens:
  assumes "store_durable fmt good r" and "\<not> blank path" and "\<not> le_MkdirAll env" and "\<not> le_Lock env"
    and "\<not> le_Open env" and "\<not> le_Stat env" and "\<not> le_Read env"
  shows "\<exists>r'. store_open fmt path env (file_Disk r) writes release = Inr r' \<and> file_State r' = file_State r"
proof -
  have "good (file_State r)" "stored fmt (file_State r) (file_Disk r)" using assms(1) by (simp_all add: store_durable_def)
  then show ?thesis
    using assms(2-) round_trip
    by (cases "file_Disk r") (auto simp: store_open_def store_load_def store_json_eof_def stored_def)
qed

end

end
