(* ===== verification/Lifecycle_Repository.thy ===== *)
theory Lifecycle_Repository
  imports Lifecycle_Events Go_File
begin

text \<open>
  The repository port of \<^verbatim>\<open>src/provider/lifecycle/repository/repository.go\<close> and its two adapters,
  \<^verbatim>\<open>memory/repository.go\<close> and \<^verbatim>\<open>file/repository.go\<close>. An adapter runs the operations of
  \<^verbatim>\<open>State\<close> under its lock, so each call is one step of the adapter's state.

  The n-th time an adapter method asks its context, it asks the answer with the index written in the method.

  The file adapter is the shape of \<open>Go_File\<close> over this package's format.
\<close>

text \<open>An operation of \<^verbatim>\<open>State\<close> that returns only an error, as one that returns the unit value.\<close>

definition void :: "(State \<Rightarrow> error + State) \<Rightarrow> State \<Rightarrow> error + unit \<times> State" where
  "void f s = on_ok (f s) (\<lambda>s'. Inr ((), s'))"

section \<open>The port\<close>

record 'r Port =
  po_ReserveCreate :: "ctx option \<Rightarrow> string \<Rightarrow> string \<Rightarrow> Sandbox \<Rightarrow> Operation \<Rightarrow> 'r \<Rightarrow> (error + CreateResult) \<times> 'r"
  po_ReserveMutation :: "ctx option \<Rightarrow> string \<Rightarrow> string \<Rightarrow> u64 \<Rightarrow> Sandbox \<Rightarrow> Operation \<Rightarrow> Event \<Rightarrow> 'r \<Rightarrow>
    (error + MutationResult) \<times> 'r"
  po_GetSandbox :: "ctx option \<Rightarrow> string \<Rightarrow> 'r \<Rightarrow> error + Sandbox"
  po_ListSandboxes :: "ctx option \<Rightarrow> 'r \<Rightarrow> error + Sandbox list"
  po_UpdateSandbox :: "ctx option \<Rightarrow> Sandbox \<Rightarrow> u64 \<Rightarrow> u64 \<Rightarrow> 'r \<Rightarrow> (error + unit) \<times> 'r"
  po_GetOperation :: "ctx option \<Rightarrow> string \<Rightarrow> 'r \<Rightarrow> error + Operation"
  po_ListOperations :: "ctx option \<Rightarrow> 'r \<Rightarrow> error + Operation list"
  po_UpdateOperation :: "ctx option \<Rightarrow> Operation \<Rightarrow> 'r \<Rightarrow> (error + unit) \<times> 'r"
  po_GetLease :: "ctx option \<Rightarrow> string \<Rightarrow> 'r \<Rightarrow> error + Lease"
  po_ReplaceLease :: "ctx option \<Rightarrow> Lease \<Rightarrow> u64 \<Rightarrow> 'r \<Rightarrow> (error + unit) \<times> 'r"
  po_AppendEvent :: "ctx option \<Rightarrow> Event \<Rightarrow> 'r \<Rightarrow> (error + Event) \<times> 'r"
  po_ListEvents :: "ctx option \<Rightarrow> string \<Rightarrow> u64 \<Rightarrow> int \<Rightarrow> 'r \<Rightarrow> error + Event list"
  po_ReadEvents :: "ctx option \<Rightarrow> string \<Rightarrow> u64 \<Rightarrow> int \<Rightarrow> 'r \<Rightarrow> error + EventPage"
  po_Close :: "'r \<Rightarrow> error option \<times> 'r"

section \<open>The memory adapter\<close>

record MemoryRepository =
  mem_State :: State
  mem_Closed :: bool

definition Memory_NewRepository :: MemoryRepository where
  "Memory_NewRepository = \<lparr>mem_State = NewState, mem_Closed = False\<rparr>"

definition checkOpenAndContext :: "MemoryRepository \<Rightarrow> ctx option \<Rightarrow> nat \<Rightarrow> error option" where
  "checkOpenAndContext r c n = (if mem_Closed r then Some [ErrClosed] else contextError c n)"

text \<open>The bodies the writing and the reading methods share.\<close>

definition mem_write ::
    "ctx option \<Rightarrow> (State \<Rightarrow> error + 'a \<times> State) \<Rightarrow> MemoryRepository \<Rightarrow> (error + 'a) \<times> MemoryRepository" where
  "mem_write c f r =
     (case first_err [contextError c 0, checkOpenAndContext r c 1] of
        Some e \<Rightarrow> (Inl e, r)
      | None \<Rightarrow>
          (case f (mem_State r) of
             Inl e \<Rightarrow> (Inl e, r)
           | Inr (x, s) \<Rightarrow> (Inr x, r\<lparr>mem_State := s\<rparr>)))"

definition mem_read :: "ctx option \<Rightarrow> (State \<Rightarrow> error + 'a) \<Rightarrow> MemoryRepository \<Rightarrow> error + 'a" where
  "mem_read c f r =
     unless_err (first_err [contextError c 0, fail_if (mem_Closed r) [ErrClosed]]) (f (mem_State r))"

definition Memory_ReserveCreate where
  "Memory_ReserveCreate c key digest sandbox operation = mem_write c (ReserveCreate key digest sandbox operation)"

definition Memory_ReserveMutation where
  "Memory_ReserveMutation c key digest expectedGeneration sandbox operation event =
     mem_write c (ReserveMutation key digest expectedGeneration sandbox operation event)"

definition Memory_GetSandbox where
  "Memory_GetSandbox c i = mem_read c (GetSandbox i)"

definition Memory_UpdateSandbox where
  "Memory_UpdateSandbox c sandbox expectedGeneration fencingToken =
     mem_write c (void (UpdateSandbox sandbox expectedGeneration fencingToken))"

definition Memory_ListSandboxes where
  "Memory_ListSandboxes c = mem_read c (\<lambda>s. Inr (ListSandboxes s))"

definition Memory_GetOperation where
  "Memory_GetOperation c i = mem_read c (GetOperation i)"

definition Memory_UpdateOperation where
  "Memory_UpdateOperation c operation = mem_write c (void (UpdateOperation operation))"

definition Memory_ListOperations where
  "Memory_ListOperations c = mem_read c (\<lambda>s. Inr (ListOperations s))"

definition Memory_GetLease where
  "Memory_GetLease c i = mem_read c (GetLease i)"

definition Memory_ReplaceLease where
  "Memory_ReplaceLease c lease fencingToken = mem_write c (void (ReplaceLease lease fencingToken))"

definition Memory_AppendEvent where
  "Memory_AppendEvent c event = mem_write c (AppendEvent event)"

definition Memory_ListEvents where
  "Memory_ListEvents c sandboxID after limit = mem_read c (ListEvents sandboxID after limit)"

definition Memory_ReadEvents where
  "Memory_ReadEvents c sandboxID after limit = mem_read c (ReadEvents sandboxID after limit)"

definition Memory_Close :: "MemoryRepository \<Rightarrow> error option \<times> MemoryRepository" where
  "Memory_Close r = (None, r\<lparr>mem_Closed := True\<rparr>)"

definition memory_port :: "MemoryRepository Port" where
  "memory_port =
     \<lparr>po_ReserveCreate = Memory_ReserveCreate, po_ReserveMutation = Memory_ReserveMutation,
      po_GetSandbox = Memory_GetSandbox, po_ListSandboxes = Memory_ListSandboxes,
      po_UpdateSandbox = Memory_UpdateSandbox, po_GetOperation = Memory_GetOperation,
      po_ListOperations = Memory_ListOperations, po_UpdateOperation = Memory_UpdateOperation,
      po_GetLease = Memory_GetLease, po_ReplaceLease = Memory_ReplaceLease,
      po_AppendEvent = Memory_AppendEvent, po_ListEvents = Memory_ListEvents,
      po_ReadEvents = Memory_ReadEvents, po_Close = Memory_Close\<rparr>"

section \<open>The file adapter\<close>

definition maxFileSize :: int where "maxFileSize = 2 ^ 25"

definition lifecycle_format :: "(State, PersistedState) FileFormat" where
  "lifecycle_format =
     \<lparr>ff_NewState = NewState, ff_Export = Export, ff_Import = Import, ff_MaxFileSize = maxFileSize,
      ff_MakesDirectory = True, ff_ErrClosed = [ErrClosed], ff_ErrDurability = [ErrDurability],
      ff_ErrCorrupt = [ErrCorrupt], ff_ErrStat = [ErrOther], ff_ImportError = (\<lambda>e. e)\<rparr>"

type_synonym FileRepository = "(State, PersistedState) FileStore"

definition persist :: "ctx option \<Rightarrow> FileRepository \<Rightarrow> (bool \<times> error option) \<times> FileRepository" where
  "persist c = store_persist lifecycle_format c 3"

definition mutate ::
    "ctx option \<Rightarrow> (State \<Rightarrow> error + 'a \<times> State) \<Rightarrow> FileRepository \<Rightarrow> (error + 'a) \<times> FileRepository" where
  "mutate c = store_mutate lifecycle_format c 1"

definition file_read :: "ctx option \<Rightarrow> (State \<Rightarrow> error + 'a) \<Rightarrow> FileRepository \<Rightarrow> error + 'a" where
  "file_read c = store_read lifecycle_format c 0"

definition File_ReserveCreate where
  "File_ReserveCreate c key digest sandbox operation r =
     (case contextError c 0 of
        Some e \<Rightarrow> (Inl e, r)
      | None \<Rightarrow> mutate c (ReserveCreate key digest sandbox operation) r)"

definition File_ReserveMutation where
  "File_ReserveMutation c key digest expectedGeneration sandbox operation event r =
     (case contextError c 0 of
        Some e \<Rightarrow> (Inl e, r)
      | None \<Rightarrow> mutate c (ReserveMutation key digest expectedGeneration sandbox operation event) r)"

definition File_GetSandbox where
  "File_GetSandbox c i = file_read c (GetSandbox i)"

definition File_UpdateSandbox where
  "File_UpdateSandbox c sandbox expectedGeneration fencingToken =
     mutate c (void (UpdateSandbox sandbox expectedGeneration fencingToken))"

definition File_ListSandboxes where
  "File_ListSandboxes c = file_read c (\<lambda>s. Inr (ListSandboxes s))"

definition File_GetOperation where
  "File_GetOperation c i = file_read c (GetOperation i)"

definition File_UpdateOperation where
  "File_UpdateOperation c operation = mutate c (void (UpdateOperation operation))"

definition File_ListOperations where
  "File_ListOperations c = file_read c (\<lambda>s. Inr (ListOperations s))"

definition File_GetLease where
  "File_GetLease c i = file_read c (GetLease i)"

definition File_ReplaceLease where
  "File_ReplaceLease c lease fencingToken = mutate c (void (ReplaceLease lease fencingToken))"

definition File_AppendEvent where
  "File_AppendEvent c event = mutate c (AppendEvent event)"

definition File_ListEvents where
  "File_ListEvents c sandboxID after limit = file_read c (ListEvents sandboxID after limit)"

definition File_ReadEvents where
  "File_ReadEvents c sandboxID after limit = file_read c (ReadEvents sandboxID after limit)"

definition File_Close :: "FileRepository \<Rightarrow> error option \<times> FileRepository" where
  "File_Close = store_close"

definition file_port :: "FileRepository Port" where
  "file_port =
     \<lparr>po_ReserveCreate = File_ReserveCreate, po_ReserveMutation = File_ReserveMutation,
      po_GetSandbox = File_GetSandbox, po_ListSandboxes = File_ListSandboxes,
      po_UpdateSandbox = File_UpdateSandbox, po_GetOperation = File_GetOperation,
      po_ListOperations = File_ListOperations, po_UpdateOperation = File_UpdateOperation,
      po_GetLease = File_GetLease, po_ReplaceLease = File_ReplaceLease,
      po_AppendEvent = File_AppendEvent, po_ListEvents = File_ListEvents,
      po_ReadEvents = File_ReadEvents, po_Close = File_Close\<rparr>"

definition load :: "LoadEnv \<Rightarrow> FileRepository \<Rightarrow> error + FileRepository" where
  "load = store_load lifecycle_format"

definition File_NewRepository ::
    "string \<Rightarrow> LoadEnv \<Rightarrow> PersistedState DiskFile option \<Rightarrow> (nat \<Rightarrow> PersistedState PersistEnv) \<Rightarrow> bool \<Rightarrow>
     error + FileRepository" where
  "File_NewRepository = store_open lifecycle_format"

section \<open>The contract of the port\<close>

text \<open>
  What a caller may rely on. A write that succeeds did what \<^verbatim>\<open>State\<close> does; a write that fails did
  nothing, or was applied in full and only its durability is unconfirmed. A read returns what the state
  holds. The contract speaks about well-formed states, which is what every history reaches.
\<close>

definition writes_through :: "('r \<Rightarrow> State) \<Rightarrow> (State \<Rightarrow> error + 'a \<times> State) \<Rightarrow> ('r \<Rightarrow> (error + 'a) \<times> 'r) \<Rightarrow> bool" where
  "writes_through view f write \<longleftrightarrow>
     (\<forall>r. repo_inv (view r) \<longrightarrow>
        (case write r of
           (Inr x, r') \<Rightarrow> f (view r) = Inr (x, view r')
         | (Inl e, r') \<Rightarrow> view r' = view r \<or> (\<exists>x. f (view r) = Inr (x, view r'))))"

definition reads_through :: "('r \<Rightarrow> State) \<Rightarrow> (State \<Rightarrow> error + 'a) \<Rightarrow> ('r \<Rightarrow> error + 'a) \<Rightarrow> bool" where
  "reads_through view f read \<longleftrightarrow> (\<forall>r x. read r = Inr x \<longrightarrow> f (view r) = Inr x)"

locale lifecycle_repository =
  fixes port :: "'r Port"
    and view :: "'r \<Rightarrow> State"
  assumes ReserveCreate_law: "writes_through view (ReserveCreate key d sb p) (po_ReserveCreate port c key d sb p)"
    and ReserveMutation_law:
      "writes_through view (ReserveMutation key d g sb p e) (po_ReserveMutation port c key d g sb p e)"
    and UpdateSandbox_law: "writes_through view (void (UpdateSandbox sb g t)) (po_UpdateSandbox port c sb g t)"
    and UpdateOperation_law: "writes_through view (void (UpdateOperation p)) (po_UpdateOperation port c p)"
    and ReplaceLease_law: "writes_through view (void (ReplaceLease l t)) (po_ReplaceLease port c l t)"
    and AppendEvent_law: "writes_through view (AppendEvent e) (po_AppendEvent port c e)"
    and GetSandbox_law: "reads_through view (GetSandbox i) (po_GetSandbox port c i)"
    and GetOperation_law: "reads_through view (GetOperation i) (po_GetOperation port c i)"
    and GetLease_law: "reads_through view (GetLease i) (po_GetLease port c i)"
    and ListSandboxes_law: "reads_through view (\<lambda>s. Inr (ListSandboxes s)) (po_ListSandboxes port c)"
    and ListOperations_law: "reads_through view (\<lambda>s. Inr (ListOperations s)) (po_ListOperations port c)"
    and ListEvents_law: "reads_through view (ListEvents i a n) (po_ListEvents port c i a n)"
    and ReadEvents_law: "reads_through view (ReadEvents i a n) (po_ReadEvents port c i a n)"
    and Close_law: "view (snd (po_Close port r)) = view r"

lemma mem_write_through: "writes_through mem_State f (mem_write c f)"
  by (auto simp: writes_through_def mem_write_def split: option.splits sum.splits)

lemma mem_read_through: "reads_through mem_State f (mem_read c f)"
  by (simp add: reads_through_def mem_read_def)

interpretation memory_repo: lifecycle_repository memory_port mem_State
  by unfold_locales
    (simp_all add: memory_port_def Memory_ReserveCreate_def Memory_ReserveMutation_def Memory_GetSandbox_def
      Memory_UpdateSandbox_def Memory_ListSandboxes_def Memory_GetOperation_def Memory_UpdateOperation_def
      Memory_ListOperations_def Memory_GetLease_def Memory_ReplaceLease_def Memory_AppendEvent_def
      Memory_ListEvents_def Memory_ReadEvents_def Memory_Close_def mem_write_through mem_read_through)

section \<open>Atomicity of file writes\<close>

lemma lifecycle_format_simps [simp]:
  "ff_NewState lifecycle_format = NewState" "ff_Export lifecycle_format = Export" "ff_Import lifecycle_format = Import"
  "ff_MaxFileSize lifecycle_format = maxFileSize" "ff_MakesDirectory lifecycle_format"
  "ff_ErrClosed lifecycle_format = [ErrClosed]" "ff_ErrDurability lifecycle_format = [ErrDurability]"
  "ff_ErrCorrupt lifecycle_format = [ErrCorrupt]" "ff_ImportError lifecycle_format e = e"
  by (simp_all add: lifecycle_format_def)

interpretation lifecycle_file: file_format lifecycle_format repo_inv
  by unfold_locales (simp_all add: repo_inv_NewState Import_Export repo_inv_loadable)

lemmas mutate_cases [consumes 2, case_names applied unconfirmed refused] = lifecycle_file.mutate_cases [where n = 1, folded mutate_def]

lemma mutate_through: "writes_through file_State f (mutate c f)"
  unfolding writes_through_def
proof (intro allI impI)
  fix r :: FileRepository assume inv: "repo_inv (file_State r)"
  obtain res r' where m: "mutate c f r = (res, r')" by force
  from m inv show "case mutate c f r of (Inr x, r') \<Rightarrow> f (file_State r) = Inr (x, file_State r')
      | (Inl e, r') \<Rightarrow> file_State r' = file_State r \<or> (\<exists>x. f (file_State r) = Inr (x, file_State r'))"
    by (cases rule: mutate_cases) (auto simp: m)
qed

lemma file_read_through: "reads_through file_State f (file_read c f)"
  by (simp add: reads_through_def file_read_def store_read_def)

lemma guarded_write_through:
  "writes_through view f w \<Longrightarrow> writes_through view f (\<lambda>r. case g of Some e \<Rightarrow> (Inl e, r) | None \<Rightarrow> w r)"
  by (cases g) (auto simp: writes_through_def)

interpretation file_repo: lifecycle_repository file_port file_State
  by unfold_locales
    (simp_all add: file_port_def File_ReserveCreate_def [abs_def] File_ReserveMutation_def [abs_def]
      File_GetSandbox_def File_UpdateSandbox_def File_ListSandboxes_def File_GetOperation_def
      File_UpdateOperation_def File_ListOperations_def File_GetLease_def File_ReplaceLease_def
      File_AppendEvent_def File_ListEvents_def File_ReadEvents_def File_Close_def store_close_def mutate_through
      file_read_through guarded_write_through)

section \<open>Histories of a file repository\<close>

text \<open>
  A history of the file adapter: calls with any context and any outcome of the system calls, closing, and
  reopening what the file holds, which is also what happens after a crash. As for \<open>repo_step\<close>, callers
  append events of known operations only, keep the provider revision and lease within their token.
\<close>

inductive file_step :: "FileRepository \<Rightarrow> FileRepository \<Rightarrow> bool" where
  create: "File_ReserveCreate c key digest sb p r = (res, r') \<Longrightarrow> file_step r r'"
| mutate: "File_ReserveMutation c key digest g sb p e r = (res, r') \<Longrightarrow>
    fmget (st_EventLatest (file_State r)) (sb_ID sb) \<noteq> - 1 \<Longrightarrow> file_step r r'"
| update_sandbox: "File_UpdateSandbox c sb g t r = (res, r') \<Longrightarrow>
    fmlookup (st_Sandboxes (file_State r)) (sb_ID sb) = Some cur \<Longrightarrow>
    sb_ProviderRevisionID sb = sb_ProviderRevisionID cur \<Longrightarrow> file_step r r'"
| update_operation: "File_UpdateOperation c p r = (res, r') \<Longrightarrow> file_step r r'"
| replace_lease: "File_ReplaceLease c l t r = (res, r') \<Longrightarrow> ls_FencingToken l \<le> t \<Longrightarrow> file_step r r'"
| append: "File_AppendEvent c e r = (res, r') \<Longrightarrow>
    ev_OperationID e |\<in>| fmdom (st_Operations (file_State r)) \<Longrightarrow>
    fmget (st_EventLatest (file_State r)) (ev_SandboxID e) \<noteq> - 1 \<Longrightarrow> file_step r r'"
| close: "File_Close r = (err, r') \<Longrightarrow> file_step r r'"
| reopen: "File_NewRepository path env (file_Disk r) writes release = Inr r' \<Longrightarrow> file_step r r'"

inductive file_evolves :: "FileRepository \<Rightarrow> FileRepository \<Rightarrow> bool" where
  start: "file_evolves r r"
| step: "file_evolves r s \<Longrightarrow> file_step s t \<Longrightarrow> file_evolves r t"

abbreviation durable :: "FileRepository \<Rightarrow> bool" where
  "durable \<equiv> store_durable lifecycle_format repo_inv"

lemmas mutate_durable = lifecycle_file.mutate_durable [where n = 1, folded mutate_def]

lemma guarded_durable:
  assumes "(case g of Some e \<Rightarrow> (Inl e, r) | None \<Rightarrow> mutate c f r) = (res, r')" and "durable r"
    and "\<And>x s. f (file_State r) = Inr (x, s) \<Longrightarrow> repo_inv s"
  shows "durable r'"
proof (cases g)
  case None
  with assms(1) show ?thesis by (auto intro: mutate_durable [OF _ assms(2,3)])
next
  case (Some e)
  with assms(1,2) show ?thesis by simp
qed

lemma void_Inr: "void f s = Inr (x, s') \<longleftrightarrow> f s = Inr s'"
  by (auto simp: void_def)

lemma file_step_durable: "file_step r r' \<Longrightarrow> durable r \<Longrightarrow> durable r'"
proof (induction rule: file_step.induct)
  case (create c key digest sb p r res r')
  then show ?case unfolding File_ReserveCreate_def
    by (elim guarded_durable) (auto simp: store_durable_def intro: ReserveCreate_inv)
next
  case (mutate c key digest g sb p e r res r')
  then show ?case unfolding File_ReserveMutation_def
    by (elim guarded_durable) (auto simp: store_durable_def intro: ReserveMutation_inv)
next
  case (update_sandbox c sb g t r res r' cur)
  then show ?case unfolding File_UpdateSandbox_def
    by (elim mutate_durable) (auto simp: store_durable_def void_Inr intro!: UpdateSandbox_inv [of "file_State r" sb g t])
next
  case (update_operation c p r res r')
  then show ?case unfolding File_UpdateOperation_def
    by (elim mutate_durable) (auto simp: store_durable_def void_Inr intro: UpdateOperation_inv)
next
  case (replace_lease c l t r res r')
  then show ?case unfolding File_ReplaceLease_def
    by (elim mutate_durable) (auto simp: store_durable_def void_Inr intro: ReplaceLease_inv)
next
  case (append c e r res r')
  then show ?case unfolding File_AppendEvent_def
    by (elim mutate_durable) (auto simp: store_durable_def intro: AppendEvent_inv)
next
  case (close r err r')
  then show ?case unfolding File_Close_def by (rule lifecycle_file.close_durable)
next
  case (reopen path env r writes release r')
  then show ?case unfolding File_NewRepository_def using lifecycle_file.open_durable by blast
qed

lemma file_evolves_durable: "file_evolves r r' \<Longrightarrow> durable r \<Longrightarrow> durable r'"
  by (induction rule: file_evolves.induct) (auto dest: file_step_durable)

section \<open>Properties\<close>


text \<open>An environment whose second write fails to replace the file, and whose other calls succeed.\<close>

definition env1 :: "nat \<Rightarrow> PersistedState PersistEnv" where
  "env1 n = \<lparr>pe_MkdirAll = False, pe_CreateTemp = False, pe_Chmod = False, pe_Encode = False, pe_Stat = False,
     pe_Size = \<lambda>_. 4096, pe_Sync = False, pe_Close = False, pe_Rename = (n = 1), pe_OpenDirectory = False,
     pe_SyncDirectory = False, pe_CloseDirectory = False\<rparr>"

definition file1 :: FileRepository where
  "file1 = \<lparr>file_State = NewState, file_Closed = False, file_Disk = None, file_Env = env1, file_Writes = 0,
     file_ReleaseFails = False\<rparr>"

definition load_env1 :: LoadEnv where
  "load_env1 = \<lparr>le_MkdirAll = False, le_Lock = False, le_Open = False, le_Stat = False, le_Read = False\<rparr>"

definition file2 :: FileRepository where
  "file2 = file1\<lparr>file_State := state1, file_Writes := 1, file_Disk := Some \<lparr>df_Regular = True, df_Size = 4096,
     df_Documents = [Snapshot (Export state1)]\<rparr>\<rparr>"

lemma file1_opened: "File_NewRepository ''repo.json'' load_env1 None env1 False = Inr file1"
  by (simp add: File_NewRepository_def store_open_def store_load_def load_env1_def file1_def not_blank_Cons byte_def)

lemma create_file_sample:
  "File_ReserveCreate live ''key1'' digest1 sandbox1 operation1 file1 =
     (Inr \<lparr>cres_Operation = operation1, cres_Replayed = False\<rparr>, file2)"
  by (simp add: File_ReserveCreate_def contextError_def live_def mutate_def Let_def file1_def file2_def
      create_sample store_eval env1_def maxFileSize_def)




end
