(* ===== verification/Go_Hash.thy ===== *)
theory Go_Hash
  imports Go_Prelude
begin

text \<open>
  The parts of the Go standard library that derive identifiers: \<^verbatim>\<open>crypto/sha256.Sum256\<close> (FIPS 180-4
  over 32-bit words), the \<^verbatim>\<open>%x\<close> and \<^verbatim>\<open>%d\<close> verbs of \<^verbatim>\<open>fmt\<close>, and \<^verbatim>\<open>time.RFC3339Nano\<close>
  for a UTC time. All of it is executable.
\<close>

unbundle bit_operations_syntax

section \<open>SHA-256\<close>

type_synonym w32 = "32 word"

text \<open>
  The constants of the standard are computed from their definition: the first 32 bits of the fractional parts
  of the cube roots (of the square roots, for the initial state) of the first primes. \<open>iroot\<close> is the integer
  part of a root, found bit by bit.
\<close>

fun iroot :: "nat \<Rightarrow> nat \<Rightarrow> int \<Rightarrow> int \<Rightarrow> int" where
  "iroot 0 k x r = r"
| "iroot (Suc b) k x r = iroot b k x (if (r + 2 ^ b) ^ k \<le> x then r + 2 ^ b else r)"

definition root_fraction :: "nat \<Rightarrow> nat \<Rightarrow> w32" where
  "root_fraction k p = word_of_int (iroot 37 k (int p * 2 ^ (32 * k)) 0)"

definition first_primes :: "nat list" where
  "first_primes = filter (\<lambda>n. list_all (\<lambda>d. n mod d \<noteq> 0) [2..<n]) [2..<312]"

definition sha256_K :: "w32 list" where
  "sha256_K = map (root_fraction 3) first_primes"

definition rotr :: "nat \<Rightarrow> w32 \<Rightarrow> w32" where
  "rotr n x = drop_bit n x OR push_bit (32 - n) x"

definition big_sigma0 :: "w32 \<Rightarrow> w32" where "big_sigma0 x = rotr 2 x XOR rotr 13 x XOR rotr 22 x"

definition big_sigma1 :: "w32 \<Rightarrow> w32" where "big_sigma1 x = rotr 6 x XOR rotr 11 x XOR rotr 25 x"

definition small_sigma0 :: "w32 \<Rightarrow> w32" where "small_sigma0 x = rotr 7 x XOR rotr 18 x XOR drop_bit 3 x"

definition small_sigma1 :: "w32 \<Rightarrow> w32" where "small_sigma1 x = rotr 17 x XOR rotr 19 x XOR drop_bit 10 x"

definition sha_ch :: "w32 \<Rightarrow> w32 \<Rightarrow> w32 \<Rightarrow> w32" where "sha_ch x y z = (x AND y) XOR (NOT x AND z)"

definition sha_maj :: "w32 \<Rightarrow> w32 \<Rightarrow> w32 \<Rightarrow> w32" where
  "sha_maj x y z = (x AND y) XOR (x AND z) XOR (y AND z)"

fun be_word :: "nat list \<Rightarrow> w32" where
  "be_word bs = fold (\<lambda>b w. push_bit 8 w OR word_of_nat b) bs 0"

text \<open>The bytes of a number, most significant first.\<close>

fun be_bytes :: "nat \<Rightarrow> int \<Rightarrow> nat list" where
  "be_bytes 0 x = []"
| "be_bytes (Suc n) x = be_bytes n (x div 256) @ [nat (x mod 256)]"

definition sha256_pad :: "nat list \<Rightarrow> nat list" where
  "sha256_pad m =
     m @ [0x80] @ replicate ((119 - length m mod 64) mod 64) 0 @ be_bytes 8 (8 * int (length m) mod 2 ^ 64)"

function chunks :: "nat \<Rightarrow> 'a list \<Rightarrow> 'a list list" where
  "chunks n xs = (if xs = [] \<or> n = 0 then [] else take n xs # chunks n (drop n xs))"
  by auto
termination by (relation "measure (\<lambda>(n, xs). length xs)") auto

declare chunks.simps [simp del]

text \<open>The message schedule: each of the 48 further words is computed from the 16 before it.\<close>

fun schedule :: "nat \<Rightarrow> w32 list \<Rightarrow> w32 list" where
  "schedule 0 ws = ws"
| "schedule (Suc n) ws =
     (let t = length ws
      in schedule n (ws @ [small_sigma1 (ws ! (t - 2)) + ws ! (t - 7) + small_sigma0 (ws ! (t - 15)) + ws ! (t - 16)]))"

type_synonym sha_state = "w32 \<times> w32 \<times> w32 \<times> w32 \<times> w32 \<times> w32 \<times> w32 \<times> w32"

fun sha_round :: "w32 \<times> w32 \<Rightarrow> sha_state \<Rightarrow> sha_state" where
  "sha_round (k, w) (a, b, c, d, e, f, g, h) =
     (let t1 = h + big_sigma1 e + sha_ch e f g + k + w;
          t2 = big_sigma0 a + sha_maj a b c
      in (t1 + t2, a, b, c, d + t1, e, f, g))"

fun sha_add :: "sha_state \<Rightarrow> sha_state \<Rightarrow> sha_state" where
  "sha_add (a, b, c, d, e, f, g, h) (a', b', c', d', e', f', g', h') =
     (a + a', b + b', c + c', d + d', e + e', f + f', g + g', h + h')"

definition sha_block :: "nat list \<Rightarrow> sha_state \<Rightarrow> sha_state" where
  "sha_block b s = sha_add s (fold sha_round (zip sha256_K (schedule 48 (map be_word (chunks 4 b)))) s)"

definition sha_start :: sha_state where
  "sha_start =
     (root_fraction 2 2, root_fraction 2 3, root_fraction 2 5, root_fraction 2 7, root_fraction 2 11, root_fraction 2 13,
      root_fraction 2 17, root_fraction 2 19)"

fun sha_words :: "sha_state \<Rightarrow> w32 list" where
  "sha_words (a, b, c, d, e, f, g, h) = [a, b, c, d, e, f, g, h]"

definition sha256 :: "string \<Rightarrow> nat list" where
  "sha256 s = concat (map (\<lambda>w. be_bytes 4 (uint w)) (sha_words (fold sha_block (chunks 64 (sha256_pad (map byte s))) sha_start)))"

lemma length_be_bytes [simp]: "length (be_bytes n x) = n"
  by (induction n arbitrary: x) auto

lemma be_bytes_less: "b \<in> set (be_bytes n x) \<Longrightarrow> b < 256"
  by (induction n arbitrary: x) auto

lemma length_sha_words [simp]: "length (sha_words s) = 8"
  by (cases s rule: sha_words.cases) simp

lemma sha256_length: "length (sha256 s) = 32"
  by (simp add: sha256_def length_concat comp_def sum_list_triv del: be_bytes.simps)

lemma sha256_less: "b \<in> set (sha256 s) \<Longrightarrow> b < 256"
  by (auto simp: sha256_def dest: be_bytes_less)

section \<open>Formatting\<close>

definition hex_char :: "nat \<Rightarrow> char" where
  "hex_char n = (if n < 10 then char_of (48 + n) else char_of (87 + n))"

definition format_x :: "nat list \<Rightarrow> string" where
  "format_x bs = concat (map (\<lambda>b. [hex_char (b div 16), hex_char (b mod 16)]) bs)"

lemma length_format_x: "length (format_x bs) = 2 * length bs"
  by (induction bs) (auto simp: format_x_def)

text \<open>The decimal digits of a number.\<close>

function format_d :: "nat \<Rightarrow> string" where
  "format_d n = (if n < 10 then [char_of (48 + n)] else format_d (n div 10) @ [char_of (48 + n mod 10)])"
  by auto
termination by (relation "measure id") auto

declare format_d.simps [simp del]

definition pad_zero :: "nat \<Rightarrow> string \<Rightarrow> string" where
  "pad_zero n s = replicate (n - length s) (CHR ''0'') @ s"

definition format_int :: "nat \<Rightarrow> int \<Rightarrow> string" where
  "format_int width i = (if i < 0 then ''-'' @ pad_zero width (format_d (nat (- i))) else pad_zero width (format_d (nat i)))"

section \<open>Calendar\<close>

text \<open>The proleptic Gregorian date of a day counted from the first of January of year 1.\<close>

definition civil_year :: "int \<Rightarrow> int \<times> int" where
  "civil_year days =
     (let n400 = days div 146097; d400 = days mod 146097;
          n100 = min 3 (d400 div 36524); d100 = d400 - n100 * 36524;
          n4 = d100 div 1461; d4 = d100 mod 1461;
          n1 = min 3 (d4 div 365)
      in (400 * n400 + 100 * n100 + 4 * n4 + n1 + 1, d4 - n1 * 365))"

definition leap_year :: "int \<Rightarrow> bool" where
  "leap_year y \<longleftrightarrow> y mod 4 = 0 \<and> (y mod 100 \<noteq> 0 \<or> y mod 400 = 0)"

fun month_day :: "int list \<Rightarrow> int \<Rightarrow> int \<Rightarrow> int \<times> int" where
  "month_day [] m d = (m, d + 1)"
| "month_day (n # ns) m d = (if d < n then (m, d + 1) else month_day ns (m + 1) (d - n))"

definition month_lengths :: "int \<Rightarrow> int list" where
  "month_lengths y = [31, if leap_year y then 29 else 28, 31, 30, 31, 30, 31, 31, 30, 31, 30, 31]"

fun strip_zeros :: "string \<Rightarrow> string" where
  "strip_zeros s = rev (dropWhile (\<lambda>c. c = CHR ''0'') (rev s))"

definition format_fraction :: "int \<Rightarrow> string" where
  "format_fraction ns = (if ns = 0 then [] else ''.'' @ strip_zeros (format_int 9 ns))"

definition format_RFC3339Nano :: "time \<Rightarrow> string" where
  "format_RFC3339Nano t =
     (let secs = t div nanos_per_second; ns = t mod nanos_per_second;
          days = secs div 86400; s = secs mod 86400;
          (y, yd) = civil_year days;
          (m, d) = month_day (month_lengths y) 1 yd
      in format_int 4 y @ ''-'' @ format_int 2 m @ ''-'' @ format_int 2 d @ ''T'' @
         format_int 2 (s div 3600) @ '':'' @ format_int 2 (s mod 3600 div 60) @ '':'' @ format_int 2 (s mod 60) @
         format_fraction ns @ ''Z'')"

end
