(* ===== verification/Lifecycle_Coordinator.thy ===== *)
theory Lifecycle_Coordinator
  imports Lifecycle_Repository Go_Hash
begin

text \<open>
  The lifecycle coordinator of \<^verbatim>\<open>src/provider/lifecycle/coordinator\<close>: it accepts requests through the
  repository port and carries accepted operations out on a driver.

  Its calls run in the world of the repository and the driver, and may be interleaved with those of any
  other caller of the repository. The mutex of the coordinator excludes concurrent reconciliations and
  leaves no trace in the model.
\<close>

section \<open>The ports\<close>

datatype RuntimeState = RuntimeAbsent | RuntimeProvisioning | RuntimeReady | RuntimeSuspended
  | RuntimeStateUnknown string

text \<open>
  The driver with its optional capabilities: \<^verbatim>\<open>StateController\<close> as the pair of suspend and resume,
  \<^verbatim>\<open>OrphanCleaner\<close> as remove.
\<close>

record 'd Driver =
  dv_Create :: "ctx option \<Rightarrow> Sandbox \<Rightarrow> 'd \<Rightarrow> error option \<times> 'd"
  dv_Inspect :: "ctx option \<Rightarrow> string \<Rightarrow> 'd \<Rightarrow> (error + RuntimeState) \<times> 'd"
  dv_StateController ::
    "((ctx option \<Rightarrow> string \<Rightarrow> 'd \<Rightarrow> error option \<times> 'd) \<times> (ctx option \<Rightarrow> string \<Rightarrow> 'd \<Rightarrow> error option \<times> 'd)) option"
  dv_OrphanCleaner :: "(ctx option \<Rightarrow> string \<Rightarrow> 'd \<Rightarrow> error option \<times> 'd) option"

record ('r, 'd) Coordinator =
  co_Repository :: "'r Port"
  co_Driver :: "'d Driver"
  co_Env :: "'r Env"

record Result =
  rs_Operation :: Operation
  rs_Sandbox :: Sandbox
  rs_Dispatched :: bool

type_synonym ('r, 'd, 'a) call = "('r, 'd) World \<Rightarrow> 'a returns \<times> ('r, 'd) World"

section \<open>Derived contexts\<close>

definition operationContext ::
    "('r, 'd) Coordinator \<Rightarrow> ctx option \<Rightarrow> time \<Rightarrow> (ctx option \<Rightarrow> ('r, 'd) World \<Rightarrow> 'b returns \<times> ('r, 'd) World) \<Rightarrow>
     ('r, 'd) World \<Rightarrow> 'b returns \<times> ('r, 'd) World" where
  "operationContext co parent deadline k =
     clock_now (co_Env co) (\<lambda>now w.
       let remaining = (if deadline - now < 0 then 0 else deadline - now)
       in k (map_option (\<lambda>p. with_timeout (en_Timer (co_Env co) (w_Tick w)) p (w_Tick w) remaining) parent) w)"

definition persistenceTimeout :: int where "persistenceTimeout = 5 * nanos_per_second"

text \<open>\<^verbatim>\<open>WithoutCancel\<close> detaches from the parent, nil or not, so only the timer ends this context.\<close>

definition persistenceContext ::
    "('r, 'd) Coordinator \<Rightarrow> (ctx option \<Rightarrow> ('r, 'd) World \<Rightarrow> 'b returns \<times> ('r, 'd) World) \<Rightarrow>
     ('r, 'd) World \<Rightarrow> 'b returns \<times> ('r, 'd) World" where
  "persistenceContext co k w =
     k (Some (with_timeout (en_Timer (co_Env co) (w_Tick w)) (\<lambda>_. None) (w_Tick w) persistenceTimeout)) w"

section \<open>Events\<close>

fun OperationState_string :: "OperationState \<Rightarrow> string" where
  "OperationState_string OperationAccepted = ''accepted''"
| "OperationState_string OperationRunning = ''running''"
| "OperationState_string OperationSucceeded = ''succeeded''"
| "OperationState_string OperationFailed = ''failed''"
| "OperationState_string OperationCancelled = ''cancelled''"
| "OperationState_string OperationOutcomeUnknown = ''outcome_unknown''"
| "OperationState_string (OperationStateUnknown s) = s"

fun ObservedState_string :: "ObservedState \<Rightarrow> string" where
  "ObservedState_string ObservedRequested = ''requested''"
| "ObservedState_string ObservedProvisioning = ''provisioning''"
| "ObservedState_string ObservedReady = ''ready''"
| "ObservedState_string ObservedSuspending = ''suspending''"
| "ObservedState_string ObservedSuspended = ''suspended''"
| "ObservedState_string ObservedResuming = ''resuming''"
| "ObservedState_string ObservedTerminating = ''terminating''"
| "ObservedState_string ObservedTerminated = ''terminated''"
| "ObservedState_string ObservedExpired = ''expired''"
| "ObservedState_string ObservedFailed = ''failed''"
| "ObservedState_string (ObservedUnknown s) = s"

definition event_of :: "Operation \<Rightarrow> Sandbox \<Rightarrow> string \<Rightarrow> time \<Rightarrow> Event" where
  "event_of operation sandbox kind now =
     \<lparr>ev_ID = ''event-'' @ format_x (sha256 (op_ID operation @ [CHR 0x00] @
         OperationState_string (op_State operation) @ [CHR 0x00] @ kind)),
      ev_SandboxID = sb_ID sandbox, ev_OperationID = op_ID operation, ev_Sequence = 0,
      ev_Generation = sb_Generation sandbox, ev_FencingToken = op_FencingToken operation,
      ev_Kind = kind, ev_DataDigest = [], ev_OccurredAt = now\<rparr>"

definition append_event ::
    "('r, 'd) Coordinator \<Rightarrow> ctx option \<Rightarrow> Operation \<Rightarrow> Sandbox \<Rightarrow>
     string \<Rightarrow> time \<Rightarrow> ('r, 'd, 'b) call \<Rightarrow> ('r, 'd, 'b) call" where
  "append_event co c operation sandbox kind now k =
     write_or_return (co_Env co) c (\<lambda>c. po_AppendEvent (co_Repository co) c (event_of operation sandbox kind now)) (\<lambda>_. k)"

definition operationEventDigest :: "string \<Rightarrow> string \<Rightarrow> nat list" where
  "operationEventDigest operationID kind = sha256 (operationID @ [CHR 0x00] @ kind)"

definition eventID :: "string \<Rightarrow> string \<Rightarrow> string" where
  "eventID operationID kind = ''event-'' @ format_x (operationEventDigest operationID kind)"

definition acceptedEvent :: "Operation \<Rightarrow> Sandbox \<Rightarrow> string \<Rightarrow> string \<Rightarrow> time \<Rightarrow> Event" where
  "acceptedEvent operation sandbox digest kind now =
     \<lparr>ev_ID = eventID (op_ID operation) kind, ev_SandboxID = sb_ID sandbox,
      ev_OperationID = op_ID operation, ev_Sequence = 0, ev_Generation = sb_Generation sandbox,
      ev_FencingToken = op_FencingToken operation, ev_Kind = kind, ev_DataDigest = digest,
      ev_OccurredAt = now\<rparr>"

section \<open>Accepting requests\<close>

definition AcceptCreate ::
    "('r, 'd) Coordinator \<Rightarrow> ctx option \<Rightarrow> CreateRequest \<Rightarrow>
     ('r, 'd, CreateResult) call" where
  "AcceptCreate co c request =
     poll c (\<lambda>err. case err of Some e \<Rightarrow> return_err e | None \<Rightarrow>
       clock_now (co_Env co) (\<lambda>now.
         or_return (StartCreate request now) (\<lambda>(sandbox, operation).
           write_or_return (co_Env co) c (\<lambda>c. po_ReserveCreate (co_Repository co) c (cr_IdempotencyKey request)
             (cr_RequestDigest request) sandbox operation) return)))"

definition Coordinator_GetSandbox ::
    "('r, 'd) Coordinator \<Rightarrow> ctx option \<Rightarrow> string \<Rightarrow>
     ('r, 'd, Sandbox) call" where
  "Coordinator_GetSandbox co c i =
     poll c (\<lambda>err. case err of Some e \<Rightarrow> return_err e | None \<Rightarrow>
       read_or_return (co_Env co) c (\<lambda>c. po_GetSandbox (co_Repository co) c i) return)"

definition Coordinator_GetOperation ::
    "('r, 'd) Coordinator \<Rightarrow> ctx option \<Rightarrow> string \<Rightarrow>
     ('r, 'd, Operation) call" where
  "Coordinator_GetOperation co c i =
     poll c (\<lambda>err. case err of Some e \<Rightarrow> return_err e | None \<Rightarrow>
       read_or_return (co_Env co) c (\<lambda>c. po_GetOperation (co_Repository co) c i) return)"

definition eventPageSize :: int where "eventPageSize = 100"

definition Coordinator_ReadEvents ::
    "('r, 'd) Coordinator \<Rightarrow> ctx option \<Rightarrow> string \<Rightarrow> u64 \<Rightarrow>
     ('r, 'd, EventPage) call" where
  "Coordinator_ReadEvents co c sandboxID after =
     poll c (\<lambda>err. case err of Some e \<Rightarrow> return_err e | None \<Rightarrow>
       read_or_return (co_Env co) c (\<lambda>c. po_ReadEvents (co_Repository co) c sandboxID after eventPageSize) return)"

text \<open>
  The replay check: continues where the operation is not known yet, and otherwise ends the call with the
  retained result or an error.
\<close>

definition mutationReplay ::
    "('r, 'd) Coordinator \<Rightarrow> ctx option \<Rightarrow> string \<Rightarrow>
     MutationRequest \<Rightarrow> ('r, 'd, MutationResult) call \<Rightarrow> ('r, 'd, MutationResult) call" where
  "mutationReplay co c sandboxID request k =
     repo_read (co_Env co) c (\<lambda>c. po_GetOperation (co_Repository co) c (mr_OperationID request)) (\<lambda>res. case res of
       Inl e \<Rightarrow> if errors_is e ErrNotFound then k else return_err e
     | Inr operation \<Rightarrow>
         if op_SandboxID operation \<noteq> sandboxID \<or> op_AttemptID operation \<noteq> mr_AttemptID request \<or>
            op_FencingToken operation \<noteq> mr_FencingToken request \<or>
            op_IdempotencyKey operation \<noteq> mr_IdempotencyKey request \<or>
            op_RequestDigest operation \<noteq> mr_RequestDigest request
         then return_err [ErrIdempotencyConflict]
         else read_or_return (co_Env co) c (\<lambda>c. po_GetSandbox (co_Repository co) c sandboxID) (\<lambda>sandbox.
           return \<lparr>mres_Operation = operation, mres_Sandbox = sandbox, mres_Replayed = True\<rparr>))"

definition reserve_mutation ::
    "('r, 'd) Coordinator \<Rightarrow> ctx option \<Rightarrow> 'm MutationRequest_scheme \<Rightarrow>
     Sandbox \<Rightarrow> Operation \<Rightarrow> Event \<Rightarrow> ('r, 'd, MutationResult) call" where
  "reserve_mutation co c request sandbox operation event =
     write_or_return (co_Env co) c (\<lambda>c. po_ReserveMutation (co_Repository co) c (mr_IdempotencyKey request)
       (mr_RequestDigest request) (mr_ExpectedGeneration request) sandbox operation event) return"

definition AcceptDesiredState ::
    "('r, 'd) Coordinator \<Rightarrow> ctx option \<Rightarrow> string \<Rightarrow>
     DesiredStateRequest \<Rightarrow> ('r, 'd, MutationResult) call" where
  "AcceptDesiredState co c sandboxID request =
     poll c (\<lambda>err. case err of Some e \<Rightarrow> return_err e | None \<Rightarrow>
       mutationReplay co c sandboxID (MutationRequest.truncate request)
        (clock_now (co_Env co) (\<lambda>now.
          read_or_return (co_Env co) c (\<lambda>c. po_GetSandbox (co_Repository co) c sandboxID) (\<lambda>sandbox.
            or_return (StartDesiredState sandbox request now) (\<lambda>(updated, operation).
              reserve_mutation co c request updated operation
                (acceptedEvent operation updated (mr_RequestDigest request) ''desired-state-requested'' now))))))"

definition AcceptLease ::
    "('r, 'd) Coordinator \<Rightarrow> ctx option \<Rightarrow> string \<Rightarrow> LeaseRequest \<Rightarrow>
     int \<Rightarrow> ('r, 'd, MutationResult) call" where
  "AcceptLease co c sandboxID request maxLeaseSeconds =
     poll c (\<lambda>err. case err of Some e \<Rightarrow> return_err e | None \<Rightarrow>
       mutationReplay co c sandboxID (MutationRequest.truncate request)
        (clock_now (co_Env co) (\<lambda>now.
          read_or_return (co_Env co) c (\<lambda>c. po_GetSandbox (co_Repository co) c sandboxID) (\<lambda>sandbox.
            or_return (StartLeaseRenewal sandbox request maxLeaseSeconds now) (\<lambda>(updated, _, operation).
              reserve_mutation co c request updated operation
                (acceptedEvent operation updated (mr_RequestDigest request) ''lease-extended'' now))))))"

definition AcceptTerminate ::
    "('r, 'd) Coordinator \<Rightarrow> ctx option \<Rightarrow> string \<Rightarrow>
     TerminateRequest \<Rightarrow> ('r, 'd, MutationResult) call" where
  "AcceptTerminate co c sandboxID request =
     poll c (\<lambda>err. case err of Some e \<Rightarrow> return_err e | None \<Rightarrow>
       mutationReplay co c sandboxID (MutationRequest.truncate request)
        (clock_now (co_Env co) (\<lambda>now.
          read_or_return (co_Env co) c (\<lambda>c. po_GetSandbox (co_Repository co) c sandboxID) (\<lambda>sandbox.
            or_return (StartTerminate sandbox request now) (\<lambda>(updated, operation).
              reserve_mutation co c request updated operation
                (acceptedEvent operation updated (mr_RequestDigest request) ''termination-requested'' now))))))"

section \<open>Recording outcomes\<close>

definition terminalOperation :: "OperationState \<Rightarrow> bool" where
  "terminalOperation state \<longleftrightarrow>
     state = OperationSucceeded \<or> state = OperationFailed \<or> state = OperationCancelled"

definition unknownOutcomeObserved :: "OperationType \<Rightarrow> Sandbox \<Rightarrow> bool" where
  "unknownOutcomeObserved operationType sandbox =
     (if sb_ObservedGeneration sandbox \<noteq> sb_Generation sandbox then False
      else case operationType of
        OperationCreate \<Rightarrow> sb_ObservedState sandbox = ObservedReady
      | OperationResume \<Rightarrow> sb_ObservedState sandbox = ObservedReady
      | OperationSuspend \<Rightarrow> sb_ObservedState sandbox = ObservedSuspended
      | OperationTerminate \<Rightarrow> sb_ObservedState sandbox = ObservedTerminated
      | _ \<Rightarrow> False)"

definition update_sandbox ::
    "('r, 'd) Coordinator \<Rightarrow> ctx option \<Rightarrow> Sandbox \<Rightarrow> u64 \<Rightarrow>
     u64 \<Rightarrow> ('r, 'd, 'b) call \<Rightarrow> ('r, 'd, 'b) call" where
  "update_sandbox co c sandbox generation token k =
     write_or_return (co_Env co) c (\<lambda>c. po_UpdateSandbox (co_Repository co) c sandbox generation token) (\<lambda>_. k)"

definition update_operation ::
    "('r, 'd) Coordinator \<Rightarrow> ctx option \<Rightarrow> Operation \<Rightarrow>
     ('r, 'd, 'b) call \<Rightarrow> ('r, 'd, 'b) call" where
  "update_operation co c operation k =
     write_or_return (co_Env co) c (\<lambda>c. po_UpdateOperation (co_Repository co) c operation) (\<lambda>_. k)"

definition failBeforeDispatch ::
    "('r, 'd) Coordinator \<Rightarrow> Operation \<Rightarrow> Sandbox \<Rightarrow> string \<Rightarrow>
     error \<Rightarrow> ('r, 'd, Result) call" where
  "failBeforeDispatch co operation sandbox code cause =
     persistenceContext co (\<lambda>writeCtx.
       clock_now (co_Env co) (\<lambda>now.
         or_return (FailOperation operation now \<lparr>fl_Code = code, fl_Retryable = False, fl_Outcome = FailureKnown\<rparr>)
          (\<lambda>updatedOperation.
            update_operation co writeCtx updatedOperation
             (clock_now (co_Env co) (\<lambda>now'.
               append_event co writeCtx updatedOperation sandbox ''failed'' now'
                (return_both \<lparr>rs_Operation = updatedOperation, rs_Sandbox = sandbox, rs_Dispatched = False\<rparr> cause))))))"

definition markReady ::
    "('r, 'd) Coordinator \<Rightarrow> Operation \<Rightarrow> Sandbox \<Rightarrow> bool \<Rightarrow>
     ('r, 'd, Result) call" where
  "markReady co operation sandbox dispatched =
     persistenceContext co (\<lambda>writeCtx.
       clock_now (co_Env co) (\<lambda>now.
         or_return (ApplyObservedTransition sandbox ObservedReady (sb_Generation sandbox) now) (\<lambda>ready.
           update_sandbox co writeCtx ready (sb_Generation sandbox) (op_FencingToken operation)
            (clock_now (co_Env co) (\<lambda>now'.
              or_return (SucceedOperation operation now') (\<lambda>updatedOperation.
                update_operation co writeCtx updatedOperation
                 (clock_now (co_Env co) (\<lambda>now''.
                   append_event co writeCtx updatedOperation ready ''ready'' now''
                    (return \<lparr>rs_Operation = updatedOperation, rs_Sandbox = ready, rs_Dispatched = dispatched\<rparr>)))))))))"

definition markSandboxReady ::
    "('r, 'd) Coordinator \<Rightarrow> Operation \<Rightarrow> Sandbox \<Rightarrow>
     ('r, 'd, Result) call" where
  "markSandboxReady co operation sandbox =
     (if sb_ObservedState sandbox = ObservedReady \<and> sb_ObservedGeneration sandbox = sb_Generation sandbox
      then return \<lparr>rs_Operation = operation, rs_Sandbox = sandbox, rs_Dispatched = False\<rparr>
      else persistenceContext co (\<lambda>writeCtx.
        clock_now (co_Env co) (\<lambda>now.
          or_return (ApplyObservedTransition sandbox ObservedReady (sb_Generation sandbox) now) (\<lambda>ready.
            update_sandbox co writeCtx ready (sb_Generation sandbox) (op_FencingToken operation)
             (clock_now (co_Env co) (\<lambda>now'.
               append_event co writeCtx operation ready ''reconciled-ready'' now'
                (return \<lparr>rs_Operation = operation, rs_Sandbox = ready, rs_Dispatched = False\<rparr>)))))))"

text \<open>The part of \<^verbatim>\<open>markKnownFailure\<close> after the sandbox was dealt with.\<close>

definition record_failure ::
    "('r, 'd) Coordinator \<Rightarrow> ctx option \<Rightarrow> Operation \<Rightarrow> Sandbox \<Rightarrow>
     string \<Rightarrow> error \<Rightarrow> ('r, 'd, Result) call" where
  "record_failure co writeCtx operation failedSandbox code cause =
     clock_now (co_Env co) (\<lambda>now.
       or_return (FailOperation operation now \<lparr>fl_Code = code, fl_Retryable = True, fl_Outcome = FailureKnown\<rparr>)
        (\<lambda>updatedOperation.
          update_operation co writeCtx updatedOperation
           (clock_now (co_Env co) (\<lambda>now'.
             append_event co writeCtx updatedOperation failedSandbox ''failed'' now'
              (return_both \<lparr>rs_Operation = updatedOperation, rs_Sandbox = failedSandbox, rs_Dispatched = True\<rparr> cause)))))"

definition markKnownFailure ::
    "('r, 'd) Coordinator \<Rightarrow> Operation \<Rightarrow> Sandbox \<Rightarrow> string \<Rightarrow>
     error \<Rightarrow> ('r, 'd, Result) call" where
  "markKnownFailure co operation sandbox code cause =
     persistenceContext co (\<lambda>writeCtx.
       clock_now (co_Env co) (\<lambda>now.
         case ApplyObservedTransition sandbox ObservedFailed (sb_Generation sandbox) now of
           Inr failedSandbox \<Rightarrow>
             update_sandbox co writeCtx failedSandbox (sb_Generation sandbox) (op_FencingToken operation)
              (record_failure co writeCtx operation failedSandbox code cause)
         | Inl transitionErr \<Rightarrow>
             if \<not> errors_is transitionErr ErrInvalidTransition then return_err transitionErr
             else record_failure co writeCtx operation sandbox code cause))"

definition markUnknownWithDispatch ::
    "('r, 'd) Coordinator \<Rightarrow> Operation \<Rightarrow> Sandbox \<Rightarrow> string \<Rightarrow>
     error \<Rightarrow> bool \<Rightarrow> ('r, 'd, Result) call" where
  "markUnknownWithDispatch co operation sandbox code cause dispatched =
     persistenceContext co (\<lambda>writeCtx.
       clock_now (co_Env co) (\<lambda>now.
         case MarkOutcomeUnknown operation now
             \<lparr>fl_Code = code, fl_Retryable = True, fl_Outcome = FailureUnknown\<rparr> of
           Inl e \<Rightarrow>
             if errors_is e ErrTerminalOperation
             then return \<lparr>rs_Operation = operation, rs_Sandbox = sandbox, rs_Dispatched = False\<rparr>
             else return_err e
         | Inr updatedOperation \<Rightarrow>
             update_operation co writeCtx updatedOperation
              (clock_now (co_Env co) (\<lambda>now'.
                append_event co writeCtx updatedOperation sandbox ''outcome-unknown'' now'
                 (return_both \<lparr>rs_Operation = updatedOperation, rs_Sandbox = sandbox, rs_Dispatched = dispatched\<rparr>
                   cause)))))"

definition markUnknown ::
    "('r, 'd) Coordinator \<Rightarrow> Operation \<Rightarrow> Sandbox \<Rightarrow> string \<Rightarrow>
     error \<Rightarrow> ('r, 'd, Result) call" where
  "markUnknown co operation sandbox code cause = markUnknownWithDispatch co operation sandbox code cause True"

definition unknown_outcome :: "error \<Rightarrow> bool" where
  "unknown_outcome err \<longleftrightarrow> errors_is err ErrUnknownRuntime \<or> errors_is err ContextCanceled \<or>
     errors_is err ContextDeadlineExceeded"

section \<open>Create\<close>

definition dispatchCreate ::
    "('r, 'd) Coordinator \<Rightarrow> ctx option \<Rightarrow> Operation \<Rightarrow> Sandbox \<Rightarrow>
     ('r, 'd, Result) call" where
  "dispatchCreate co c operation sandbox =
     clock_now (co_Env co) (\<lambda>now.
       case CheckDeadline now (op_Deadline operation) of
         Some err \<Rightarrow> failBeforeDispatch co operation sandbox ''deadline_expired'' err
       | None \<Rightarrow>
         poll c (\<lambda>perr. case perr of
           Some err \<Rightarrow> failBeforeDispatch co operation sandbox ''cancelled_before_dispatch'' err
         | None \<Rightarrow>
           or_return (ApplyObservedTransition sandbox ObservedProvisioning (sb_Generation sandbox) now) (\<lambda>provisioning.
             update_sandbox co c provisioning (sb_Generation sandbox) (op_FencingToken operation)
              (or_return (BeginOperation operation now) (\<lambda>updatedOperation.
                update_operation co c updatedOperation
                 (append_event co c updatedOperation provisioning ''provisioning'' now
                  (operationContext co c (op_Deadline operation) (\<lambda>oc.
                    poll oc (\<lambda>oerr. case oerr of
                      Some err \<Rightarrow>
                        markUnknownWithDispatch co updatedOperation provisioning ''dispatch_deadline'' err False
                    | None \<Rightarrow>
                      driver_call oc (\<lambda>c. dv_Create (co_Driver co) c provisioning) (\<lambda>derr. case derr of
                        Some err \<Rightarrow>
                          if unknown_outcome err
                          then markUnknown co updatedOperation provisioning ''runtime_create_unknown'' err
                          else markKnownFailure co updatedOperation provisioning ''runtime_create_failed'' err
                      | None \<Rightarrow> markReady co updatedOperation provisioning True))))))))))"

definition reconcileCreate ::
    "('r, 'd) Coordinator \<Rightarrow> ctx option \<Rightarrow> Operation \<Rightarrow> Sandbox \<Rightarrow>
     ('r, 'd, Result) call" where
  "reconcileCreate co c operation sandbox =
     operationContext co c (op_Deadline operation) (\<lambda>oc.
       poll oc (\<lambda>oerr. case oerr of
         Some err \<Rightarrow> markUnknown co operation sandbox ''reconcile_deadline'' err
       | None \<Rightarrow>
         driver_call oc (\<lambda>c. dv_Inspect (co_Driver co) c (sb_ID sandbox)) (\<lambda>observed. case observed of
           Inl err \<Rightarrow> markUnknown co operation sandbox ''reconcile_inspect_unknown'' err
         | Inr state \<Rightarrow>
           (case state of
              RuntimeReady \<Rightarrow>
                if op_State operation = OperationOutcomeUnknown then markSandboxReady co operation sandbox
                else markReady co operation sandbox False
            | RuntimeAbsent \<Rightarrow>
                if op_State operation = OperationOutcomeUnknown
                then return \<lparr>rs_Operation = operation, rs_Sandbox = sandbox, rs_Dispatched = False\<rparr>
                else markKnownFailure co operation sandbox ''runtime_absent'' [ErrOther]
            | RuntimeProvisioning \<Rightarrow>
                return \<lparr>rs_Operation = operation, rs_Sandbox = sandbox, rs_Dispatched = False\<rparr>
            | _ \<Rightarrow> markUnknown co operation sandbox ''invalid_runtime_observation'' [ErrUnknownRuntime]))))"

section \<open>Lease renewal\<close>

definition complete_lease ::
    "('r, 'd) Coordinator \<Rightarrow> ctx option \<Rightarrow> Operation \<Rightarrow> Sandbox \<Rightarrow>
     ('r, 'd, Result) call" where
  "complete_lease co writeCtx updated sandbox =
     clock_now (co_Env co) (\<lambda>now.
       or_return (SucceedOperation updated now) (\<lambda>updated'.
         update_operation co writeCtx updated'
          (clock_now (co_Env co) (\<lambda>now'.
            append_event co writeCtx updated' sandbox ''lease-renewal-succeeded'' now'
             (return \<lparr>rs_Operation = updated', rs_Sandbox = sandbox, rs_Dispatched = False\<rparr>)))))"

definition reconcileLease ::
    "('r, 'd) Coordinator \<Rightarrow> Operation \<Rightarrow> Sandbox \<Rightarrow>
     ('r, 'd, Result) call" where
  "reconcileLease co operation sandbox =
     (if op_State operation = OperationOutcomeUnknown
      then return \<lparr>rs_Operation = operation, rs_Sandbox = sandbox, rs_Dispatched = False\<rparr>
      else persistenceContext co (\<lambda>writeCtx.
        if op_State operation = OperationAccepted
        then clock_now (co_Env co) (\<lambda>now. case BeginOperation operation now of
               Inl err \<Rightarrow> failBeforeDispatch co operation sandbox ''deadline_expired'' err
             | Inr updated \<Rightarrow> update_operation co writeCtx updated (complete_lease co writeCtx updated sandbox))
        else complete_lease co writeCtx operation sandbox))"

section \<open>Suspend and resume\<close>

definition desiredRuntimeAction where
  "desiredRuntimeAction driver operationType =
     (case dv_StateController driver of
        None \<Rightarrow> Inl [ErrInvalidCoordinator]
      | Some (suspend, resume) \<Rightarrow>
          (case operationType of
             OperationSuspend \<Rightarrow> Inr (RuntimeSuspended, ObservedSuspending, suspend)
           | OperationResume \<Rightarrow> Inr (RuntimeReady, ObservedResuming, resume)
           | _ \<Rightarrow> Inl [ErrInvalidCoordinator]))"

text \<open>
  Succeeding the operation and recording the reached state, which \<^verbatim>\<open>markDesiredTarget\<close> and
  \<^verbatim>\<open>markTerminated\<close> do alike.
\<close>

definition reach_target ::
    "('r, 'd) Coordinator \<Rightarrow> Operation \<Rightarrow> Sandbox \<Rightarrow> ObservedState \<Rightarrow>
     string \<Rightarrow> bool \<Rightarrow> ('r, 'd, Result) call" where
  "reach_target co operation sandbox observed kind dispatched =
     (if sb_ObservedState sandbox = observed \<and> sb_ObservedGeneration sandbox = sb_Generation sandbox
      then return \<lparr>rs_Operation = operation, rs_Sandbox = sandbox, rs_Dispatched = dispatched\<rparr>
      else persistenceContext co (\<lambda>writeCtx.
        clock_now (co_Env co) (\<lambda>now.
          or_return (ApplyObservedTransition sandbox observed (sb_Generation sandbox) now) (\<lambda>updatedSandbox.
            update_sandbox co writeCtx updatedSandbox (sb_Generation sandbox) (op_FencingToken operation)
             (let finish = (\<lambda>updatedOperation. clock_now (co_Env co) (\<lambda>now''.
                    append_event co writeCtx updatedOperation updatedSandbox kind now''
                     (return \<lparr>rs_Operation = updatedOperation, rs_Sandbox = updatedSandbox, rs_Dispatched = dispatched\<rparr>)))
              in if op_State operation \<noteq> OperationOutcomeUnknown
                 then clock_now (co_Env co) (\<lambda>now'.
                   or_return (SucceedOperation operation now') (\<lambda>updatedOperation.
                     update_operation co writeCtx updatedOperation (finish updatedOperation)))
                 else finish operation)))))"

definition markDesiredTarget ::
    "('r, 'd) Coordinator \<Rightarrow> Operation \<Rightarrow> Sandbox \<Rightarrow> RuntimeState \<Rightarrow>
     bool \<Rightarrow> ('r, 'd, Result) call" where
  "markDesiredTarget co operation sandbox target dispatched =
     (if target = RuntimeSuspended
      then reach_target co operation sandbox ObservedSuspended ''suspended'' dispatched
      else reach_target co operation sandbox ObservedReady ''ready'' dispatched)"

text \<open>The part of \<^verbatim>\<open>reconcileDesiredState\<close> after the operation has begun.\<close>

definition drive_desired_state ::
    "('r, 'd) Coordinator \<Rightarrow> ctx option \<Rightarrow> Operation \<Rightarrow> Sandbox \<Rightarrow>
     RuntimeState \<Rightarrow> (ctx option \<Rightarrow> string \<Rightarrow> 'd \<Rightarrow> error option \<times> 'd) \<Rightarrow> ('r, 'd, Result) call" where
  "drive_desired_state co c operation sandbox target action =
     operationContext co c (op_Deadline operation) (\<lambda>oc.
       driver_call oc (\<lambda>c. dv_Inspect (co_Driver co) c (sb_ID sandbox)) (\<lambda>observed. case observed of
         Inl err \<Rightarrow> markUnknown co operation sandbox ''reconcile_inspect_unknown'' err
       | Inr state \<Rightarrow>
         if state = target then markDesiredTarget co operation sandbox target False
         else if op_State operation = OperationOutcomeUnknown
         then return \<lparr>rs_Operation = operation, rs_Sandbox = sandbox, rs_Dispatched = False\<rparr>
         else driver_call oc (\<lambda>c. action c (sb_ID sandbox)) (\<lambda>aerr. case aerr of
           Some err \<Rightarrow>
             if unknown_outcome err then markUnknown co operation sandbox ''lifecycle_control_unknown'' err
             else markKnownFailure co operation sandbox ''lifecycle_control_failed'' err
         | None \<Rightarrow>
           driver_call oc (\<lambda>c. dv_Inspect (co_Driver co) c (sb_ID sandbox)) (\<lambda>confirmed. case confirmed of
             Inl err \<Rightarrow> markUnknown co operation sandbox ''lifecycle_confirmation_unknown'' (ErrUnknownRuntime # err)
           | Inr state' \<Rightarrow>
               if state' \<noteq> target
               then markUnknown co operation sandbox ''lifecycle_confirmation_unknown'' [ErrUnknownRuntime]
               else markDesiredTarget co operation sandbox target True))))"

definition reconcileDesiredState ::
    "('r, 'd) Coordinator \<Rightarrow> ctx option \<Rightarrow> Operation \<Rightarrow> Sandbox \<Rightarrow>
     ('r, 'd, Result) call" where
  "reconcileDesiredState co c operation sandbox =
     (case desiredRuntimeAction (co_Driver co) (op_Type operation) of
        Inl err \<Rightarrow>
          if op_State operation = OperationOutcomeUnknown
          then return_both \<lparr>rs_Operation = operation, rs_Sandbox = sandbox, rs_Dispatched = False\<rparr> err
          else markKnownFailure co operation sandbox ''lifecycle_control_unsupported'' err
      | Inr (target, intermediate, action) \<Rightarrow>
          if op_State operation = OperationAccepted
          then clock_now (co_Env co) (\<lambda>now.
            or_return (ApplyObservedTransition sandbox intermediate (sb_Generation sandbox) now) (\<lambda>transitioning.
              update_sandbox co c transitioning (sb_Generation sandbox) (op_FencingToken operation)
               (case BeginOperation operation now of
                  Inl beginErr \<Rightarrow> failBeforeDispatch co operation transitioning ''deadline_expired'' beginErr
                | Inr updated \<Rightarrow>
                    update_operation co c updated
                     (append_event co c updated transitioning (ObservedState_string intermediate) now
                       (drive_desired_state co c updated transitioning target action)))))
          else drive_desired_state co c operation sandbox target action)"

section \<open>Terminate\<close>

definition markTerminated ::
    "('r, 'd) Coordinator \<Rightarrow> Operation \<Rightarrow> Sandbox \<Rightarrow> bool \<Rightarrow>
     ('r, 'd, Result) call" where
  "markTerminated co operation sandbox dispatched =
     reach_target co operation sandbox ObservedTerminated ''terminated'' dispatched"

definition drive_terminate ::
    "('r, 'd) Coordinator \<Rightarrow> ctx option \<Rightarrow> Operation \<Rightarrow> Sandbox \<Rightarrow>
     (ctx option \<Rightarrow> string \<Rightarrow> 'd \<Rightarrow> error option \<times> 'd) \<Rightarrow> ('r, 'd, Result) call" where
  "drive_terminate co c operation sandbox remove =
     operationContext co c (op_Deadline operation) (\<lambda>oc.
       driver_call oc (\<lambda>c. dv_Inspect (co_Driver co) c (sb_ID sandbox)) (\<lambda>observed. case observed of
         Inl err \<Rightarrow> markUnknown co operation sandbox ''termination_inspect_unknown'' err
       | Inr state \<Rightarrow>
         if state = RuntimeAbsent then markTerminated co operation sandbox False
         else if op_State operation = OperationOutcomeUnknown
         then return \<lparr>rs_Operation = operation, rs_Sandbox = sandbox, rs_Dispatched = False\<rparr>
         else driver_call oc (\<lambda>c. remove c (sb_ID sandbox)) (\<lambda>rerr. case rerr of
           Some err \<Rightarrow> markUnknown co operation sandbox ''runtime_remove_unknown'' err
         | None \<Rightarrow>
           driver_call oc (\<lambda>c. dv_Inspect (co_Driver co) c (sb_ID sandbox)) (\<lambda>confirmed. case confirmed of
             Inl err \<Rightarrow> markUnknown co operation sandbox ''termination_confirmation_unknown'' (ErrUnknownRuntime # err)
           | Inr state' \<Rightarrow>
               if state' \<noteq> RuntimeAbsent
               then markUnknown co operation sandbox ''termination_confirmation_unknown'' [ErrUnknownRuntime]
               else markTerminated co operation sandbox True))))"

definition reconcileTerminate ::
    "('r, 'd) Coordinator \<Rightarrow> ctx option \<Rightarrow> Operation \<Rightarrow> Sandbox \<Rightarrow>
     ('r, 'd, Result) call" where
  "reconcileTerminate co c operation sandbox =
     (case dv_OrphanCleaner (co_Driver co) of
        None \<Rightarrow>
          if op_State operation = OperationOutcomeUnknown
          then return_both \<lparr>rs_Operation = operation, rs_Sandbox = sandbox, rs_Dispatched = False\<rparr>
                 [ErrInvalidCoordinator]
          else markKnownFailure co operation sandbox ''termination_unsupported'' [ErrInvalidCoordinator]
      | Some remove \<Rightarrow>
          if op_State operation = OperationAccepted
          then clock_now (co_Env co) (\<lambda>now.
            or_return (ApplyObservedTransition sandbox ObservedTerminating (sb_Generation sandbox) now) (\<lambda>terminating.
              update_sandbox co c terminating (sb_Generation sandbox) (op_FencingToken operation)
               (case BeginOperation operation now of
                  Inl err \<Rightarrow> failBeforeDispatch co operation terminating ''deadline_expired'' err
                | Inr updated \<Rightarrow>
                    update_operation co c updated
                     (append_event co c updated terminating ''terminating'' now
                       (drive_terminate co c updated terminating remove)))))
          else drive_terminate co c operation sandbox remove)"

section \<open>Reconciliation\<close>

definition reconcileOperation ::
    "('r, 'd) Coordinator \<Rightarrow> ctx option \<Rightarrow> string \<Rightarrow>
     ('r, 'd, Result) call" where
  "reconcileOperation co c operationID =
     poll c (\<lambda>err. case err of Some e \<Rightarrow> return_err e | None \<Rightarrow>
       read_or_return (co_Env co) c (\<lambda>c. po_GetOperation (co_Repository co) c operationID) (\<lambda>operation.
         read_or_return (co_Env co) c (\<lambda>c. po_GetSandbox (co_Repository co) c (op_SandboxID operation)) (\<lambda>sandbox.
           if terminalOperation (op_State operation)
           then return \<lparr>rs_Operation = operation, rs_Sandbox = sandbox, rs_Dispatched = False\<rparr>
           else case op_Type operation of
             OperationCreate \<Rightarrow>
               (case op_State operation of
                  OperationAccepted \<Rightarrow> dispatchCreate co c operation sandbox
                | OperationRunning \<Rightarrow> reconcileCreate co c operation sandbox
                | OperationOutcomeUnknown \<Rightarrow> reconcileCreate co c operation sandbox
                | _ \<Rightarrow> return_err [ErrInvalidCoordinator])
           | OperationExtendLease \<Rightarrow> reconcileLease co operation sandbox
           | OperationSuspend \<Rightarrow> reconcileDesiredState co c operation sandbox
           | OperationResume \<Rightarrow> reconcileDesiredState co c operation sandbox
           | OperationTerminate \<Rightarrow> reconcileTerminate co c operation sandbox
           | OperationTypeUnknown _ \<Rightarrow> return_err [ErrInvalidCoordinator])))"

definition ReconcileOperation ::
    "('r, 'd) Coordinator \<Rightarrow> ctx option \<Rightarrow> string \<Rightarrow>
     ('r, 'd, Result) call" where
  "ReconcileOperation co c operationID = reconcileOperation co c operationID"

section \<open>Sweeps\<close>

text \<open>
  The loops append results. Where an error came with the result, and always when leases expire, the result is
  appended only if it is not zero, which the source recognises by its empty operation identifier.
\<close>

definition appended :: "'a option \<Rightarrow> 'a list" where
  "appended result = (case result of None \<Rightarrow> [] | Some r \<Rightarrow> [r])"

definition collect :: "Result option \<Rightarrow> Result list" where
  "collect result =
     (case result of None \<Rightarrow> [] | Some r \<Rightarrow> if op_ID (rs_Operation r) \<noteq> [] then [r] else [])"

fun reconcile_each ::
    "('r, 'd) Coordinator \<Rightarrow> ctx option \<Rightarrow> Operation list \<Rightarrow>
     Result list \<Rightarrow> ('r, 'd, Result list) call" where
  "reconcile_each co c [] results = return results"
| "reconcile_each co c (operation # operations) results =
     (if terminalOperation (op_State operation) then reconcile_each co c operations results
      else
        let reconcile = (\<lambda>w. case ReconcileOperation co c (op_ID operation) w of
              ((result, Some e), w') \<Rightarrow> return_both (results @ collect result) e w'
            | ((result, None), w') \<Rightarrow> reconcile_each co c operations (results @ appended result) w')
        in if op_State operation = OperationOutcomeUnknown
           then repo_read (co_Env co) c (\<lambda>c. po_GetSandbox (co_Repository co) c (op_SandboxID operation)) (\<lambda>res. case res of
             Inl e \<Rightarrow> return_both results e
           | Inr sandbox \<Rightarrow>
               if unknownOutcomeObserved (op_Type operation) sandbox
               then reconcile_each co c operations results else reconcile)
           else reconcile)"

definition ReconcilePending ::
    "('r, 'd) Coordinator \<Rightarrow> ctx option \<Rightarrow> ('r, 'd, Result list) call" where
  "ReconcilePending co c =
     poll c (\<lambda>err. case err of Some e \<Rightarrow> return_err e | None \<Rightarrow>
       read_or_return (co_Env co) c (\<lambda>c. po_ListOperations (co_Repository co) c) (\<lambda>operations.
         reconcile_each co c operations []))"

definition leaseExpiryOperationTimeout :: int where
  "leaseExpiryOperationTimeout = 300 * nanos_per_second"

definition leaseExpiryTerminateRequest :: "Sandbox \<Rightarrow> Lease \<Rightarrow> time \<Rightarrow> TerminateRequest" where
  "leaseExpiryTerminateRequest sandbox lease now =
     (let seed = sb_ProviderRevisionID sandbox @ [CHR 0x00] @ sb_ID sandbox @ [CHR 0x00] @
            format_d (unat (sb_Generation sandbox)) @ [CHR 0x00] @ format_RFC3339Nano (sb_LeaseExpiresAt sandbox);
          i = ''lease-expiry-'' @ format_x (take 16 (sha256 seed))
      in \<lparr>mr_OperationID = i, mr_AttemptID = i, mr_FencingToken = ls_FencingToken lease,
          mr_IdempotencyKey = i,
          mr_RequestDigest = ''sha256:'' @ format_x (sha256 (''lease-expiry-request'' @ [CHR 0x00] @ seed)),
          mr_Deadline = now + leaseExpiryOperationTimeout, mr_ExpectedGeneration = sb_Generation sandbox,
          tr_Reason = ''lease_expired''\<rparr>)"

fun expire_each ::
    "('r, 'd) Coordinator \<Rightarrow> ctx option \<Rightarrow> time \<Rightarrow> Sandbox list \<Rightarrow>
     string list \<Rightarrow> Result list \<Rightarrow> ('r, 'd, Result list) call" where
  "expire_each co c now [] pendingTermination results = return results"
| "expire_each co c now (sandbox # sandboxes) pendingTermination results =
     (if now < sb_LeaseExpiresAt sandbox \<or> sb_ObservedState sandbox = ObservedTerminated \<or>
         sb_ObservedState sandbox = ObservedExpired \<or> sb_ID sandbox \<in> set pendingTermination
      then expire_each co c now sandboxes pendingTermination results
      else repo_read (co_Env co) c (\<lambda>c. po_GetLease (co_Repository co) c (sb_ID sandbox)) (\<lambda>lres. case lres of
        Inl e \<Rightarrow> return_both results e
      | Inr lease \<Rightarrow>
        let request = leaseExpiryTerminateRequest sandbox lease now
        in case StartTerminate sandbox request now of
          Inl e \<Rightarrow> return_both results e
        | Inr (updated, operation) \<Rightarrow>
          repo_write (co_Env co) c (\<lambda>c. po_ReserveMutation (co_Repository co) c (mr_IdempotencyKey request)
              (mr_RequestDigest request) (mr_ExpectedGeneration request) updated operation
              (acceptedEvent operation updated (mr_RequestDigest request) ''lease-expired'' now)) (\<lambda>rres. case rres of
            Inl e \<Rightarrow>
              if errors_is e ErrGenerationConflict \<or> errors_is e ErrStaleFencingToken
              then expire_each co c now sandboxes pendingTermination results
              else return_both results e
          | Inr reserved \<Rightarrow>
              (\<lambda>w. case reconcileOperation co c (op_ID (mres_Operation reserved)) w of
                 ((result, Some e), w') \<Rightarrow> return_both (results @ collect result) e w'
               | ((result, None), w') \<Rightarrow>
                   expire_each co c now sandboxes (sb_ID sandbox # pendingTermination)
                     (results @ collect result) w'))))"

definition ProcessExpiredLeases ::
    "('r, 'd) Coordinator \<Rightarrow> ctx option \<Rightarrow> ('r, 'd, Result list) call" where
  "ProcessExpiredLeases co c =
     poll c (\<lambda>err. case err of Some e \<Rightarrow> return_err e | None \<Rightarrow>
       read_or_return (co_Env co) c (\<lambda>c. po_ListSandboxes (co_Repository co) c) (\<lambda>sandboxes.
         read_or_return (co_Env co) c (\<lambda>c. po_ListOperations (co_Repository co) c) (\<lambda>operations.
           clock_now (co_Env co) (\<lambda>now.
             expire_each co c now sandboxes
               (map op_SandboxID (filter (\<lambda>p. op_Type p = OperationTerminate \<and> \<not> terminalOperation (op_State p))
                 operations)) []))))"

end
