(* ===== verification/Lifecycle_Driver.thy ===== *)
theory Lifecycle_Driver
  imports Lifecycle_Coordinator
begin

text \<open>
  The driver that \<^verbatim>\<open>src/provider/lifecycle/driver/fake\<close> provides, and the contract of a driver as the
  coordinator relies on it: what an inspection reports is the state of the runtime, a create that reports
  no error left a ready runtime, and no call touches the runtime of another sandbox.
\<close>

section \<open>The fake driver\<close>

text \<open>A driver is a pointer, so that there is a nil driver; its states are a map from identifiers.\<close>

type_synonym FakeDriver = "(string, RuntimeState) fmap option"

definition Fake_New :: FakeDriver where
  "Fake_New = Some fmempty"

definition Fake_Create :: "ctx option \<Rightarrow> Sandbox \<Rightarrow> FakeDriver \<Rightarrow> error option \<times> FakeDriver" where
  "Fake_Create c sandbox d =
     (case contextError c 0 of Some e \<Rightarrow> (Some e, d) | None \<Rightarrow>
       (case d of None \<Rightarrow> (Some [ErrInvalidDriver], d) | Some states \<Rightarrow>
         if sb_ID sandbox = [] then (Some [ErrInvalidDriver], d)
         else case contextError c 1 of Some e \<Rightarrow> (Some e, d) | None \<Rightarrow>
           (None, Some (fmupd (sb_ID sandbox) RuntimeReady states))))"

definition Fake_Inspect :: "ctx option \<Rightarrow> string \<Rightarrow> FakeDriver \<Rightarrow> (error + RuntimeState) \<times> FakeDriver" where
  "Fake_Inspect c i d =
     (case contextError c 0 of Some e \<Rightarrow> (Inl e, d) | None \<Rightarrow>
       (case d of None \<Rightarrow> (Inl [ErrInvalidDriver], d) | Some states \<Rightarrow>
         if i = [] then (Inl [ErrInvalidDriver], d)
         else case contextError c 1 of Some e \<Rightarrow> (Inl e, d) | None \<Rightarrow>
           (case fmlookup states i of None \<Rightarrow> (Inr RuntimeAbsent, d) | Some state \<Rightarrow> (Inr state, d))))"

definition fake_transition ::
    "RuntimeState \<Rightarrow> RuntimeState \<Rightarrow> ctx option \<Rightarrow> string \<Rightarrow> FakeDriver \<Rightarrow> error option \<times> FakeDriver" where
  "fake_transition from to c i d =
     (case contextError c 0 of Some e \<Rightarrow> (Some e, d) | None \<Rightarrow>
       (case d of None \<Rightarrow> (Some [ErrInvalidDriver], d) | Some states \<Rightarrow>
         if i = [] then (Some [ErrInvalidDriver], d)
         else if fmlookup states i \<noteq> Some from then (Some [ErrInvalidDriver], d)
         else (contextError c 1, Some (fmupd i to states))))"

definition Fake_Suspend :: "ctx option \<Rightarrow> string \<Rightarrow> FakeDriver \<Rightarrow> error option \<times> FakeDriver" where
  "Fake_Suspend = fake_transition RuntimeReady RuntimeSuspended"

definition Fake_Resume :: "ctx option \<Rightarrow> string \<Rightarrow> FakeDriver \<Rightarrow> error option \<times> FakeDriver" where
  "Fake_Resume = fake_transition RuntimeSuspended RuntimeReady"

definition Fake_Remove :: "ctx option \<Rightarrow> string \<Rightarrow> FakeDriver \<Rightarrow> error option \<times> FakeDriver" where
  "Fake_Remove c i d =
     (case contextError c 0 of Some e \<Rightarrow> (Some e, d) | None \<Rightarrow>
       (case d of None \<Rightarrow> (Some [ErrInvalidDriver], d) | Some states \<Rightarrow>
         if i = [] then (Some [ErrInvalidDriver], d)
         else (contextError c 1, Some (fmdrop i states))))"

definition fake_driver :: "FakeDriver Driver" where
  "fake_driver = \<lparr>dv_Create = Fake_Create, dv_Inspect = Fake_Inspect,
     dv_StateController = Some (Fake_Suspend, Fake_Resume), dv_OrphanCleaner = Some Fake_Remove\<rparr>"

section \<open>The contract\<close>

text \<open>The runtime of another sandbox is as it was.\<close>

definition confined :: "('d \<Rightarrow> string \<Rightarrow> RuntimeState) \<Rightarrow> string \<Rightarrow> ('d \<Rightarrow> 'a \<times> 'd) \<Rightarrow> bool" where
  "confined observe i call \<longleftrightarrow> (\<forall>d x d' j. call d = (x, d') \<longrightarrow> j \<noteq> i \<longrightarrow> observe d' j = observe d j)"

locale runtime_driver =
  fixes driver :: "'d Driver"
    and observe :: "'d \<Rightarrow> string \<Rightarrow> RuntimeState"
  assumes inspect_law: "dv_Inspect driver c i d = (Inr state, d') \<Longrightarrow> observe d' i = state"
    and create_law: "dv_Create driver c sb d = (None, d') \<Longrightarrow> observe d' (sb_ID sb) = RuntimeReady"
    and inspect_confined: "confined observe i (dv_Inspect driver c i)"
    and create_confined: "confined observe (sb_ID sb) (dv_Create driver c sb)"
    and suspend_confined: "dv_StateController driver = Some (suspend, resume) \<Longrightarrow> confined observe i (suspend c i)"
    and resume_confined: "dv_StateController driver = Some (suspend, resume) \<Longrightarrow> confined observe i (resume c i)"
    and remove_confined: "dv_OrphanCleaner driver = Some remove \<Longrightarrow> confined observe i (remove c i)"

definition fake_observe :: "FakeDriver \<Rightarrow> string \<Rightarrow> RuntimeState" where
  "fake_observe d i =
     (case d of None \<Rightarrow> RuntimeAbsent | Some states \<Rightarrow>
        case fmlookup states i of None \<Rightarrow> RuntimeAbsent | Some state \<Rightarrow> state)"

lemma fake_transition_confined: "confined fake_observe i (fake_transition from to c i)"
  by (auto simp: confined_def fake_transition_def fake_observe_def split: option.splits if_splits)

interpretation fake: runtime_driver fake_driver fake_observe
proof unfold_locales
  fix c i d state d' and sb :: Sandbox
  show "dv_Inspect fake_driver c i d = (Inr state, d') \<Longrightarrow> fake_observe d' i = state"
    by (auto simp: fake_driver_def Fake_Inspect_def fake_observe_def split: option.splits if_splits)
  show "dv_Create fake_driver c sb d = (None, d') \<Longrightarrow> fake_observe d' (sb_ID sb) = RuntimeReady"
    by (auto simp: fake_driver_def Fake_Create_def fake_observe_def split: option.splits if_splits)
  show "confined fake_observe i (dv_Inspect fake_driver c i)"
    by (auto simp: confined_def fake_driver_def Fake_Inspect_def split: option.splits if_splits)
  show "confined fake_observe (sb_ID sb) (dv_Create fake_driver c sb)"
    by (auto simp: confined_def fake_driver_def Fake_Create_def fake_observe_def split: option.splits if_splits)
next
  fix suspend resume remove c i
  show "confined fake_observe i (suspend c i)" "confined fake_observe i (resume c i)"
    if "dv_StateController fake_driver = Some (suspend, resume)"
    using that fake_transition_confined by (auto simp: fake_driver_def Fake_Suspend_def Fake_Resume_def)
  show "confined fake_observe i (remove c i)" if "dv_OrphanCleaner fake_driver = Some remove"
    using that by (auto simp: fake_driver_def Fake_Remove_def confined_def fake_observe_def split: option.splits if_splits)
qed

section \<open>A sample coordinator\<close>

text \<open>The file repository and the fake driver, with nobody else around and a clock that stands at 1000.\<close>

definition quiet :: "'r Env" where
  "quiet = \<lparr>en_Clock = \<lambda>_. 1000, en_Timer = \<lambda>_ _. False, en_Others = \<lambda>_ r. r\<rparr>"

definition coordinator1 :: "(FileRepository, FakeDriver) Coordinator" where
  "coordinator1 = \<lparr>co_Repository = file_port, co_Driver = fake_driver, co_Env = quiet\<rparr>"

definition world1 :: "State \<Rightarrow> FakeDriver \<Rightarrow> (FileRepository, FakeDriver) World" where
  "world1 s d = \<lparr>w_Repository = file1\<lparr>file_State := s, file_Env := \<lambda>_. env1 0\<rparr>, w_Driver = d, w_Tick = 0\<rparr>"

lemma coordinator1_fields [simp]:
  "co_Repository coordinator1 = file_port" "co_Driver coordinator1 = fake_driver"
  "en_Clock (co_Env coordinator1) n = 1000" "en_Timer (co_Env coordinator1) n m = False"
  "en_Others (co_Env coordinator1) n r = r"
  by (simp_all add: coordinator1_def quiet_def)

lemma world1_fields [simp]:
  "file_State (w_Repository (world1 s d)) = s" "w_Driver (world1 s d) = d" "w_Tick (world1 s d) = 0"
  by (simp_all add: world1_def)

end
