(* ===== verification/Lifecycle_Reconcile.thy ===== *)
theory Lifecycle_Reconcile
  imports Lifecycle_Driver
begin

text \<open>
  The coordinator against the contract of the repository port: whatever it does, and however its accesses
  are interleaved with those of other callers, the repository only moves along legal histories. So
  everything proved about histories (the invariant, fencing, idempotency) holds while it runs.
\<close>

section \<open>Events appended by a step\<close>

definition grows :: "nat \<Rightarrow> State \<Rightarrow> State \<Rightarrow> bool" where
  "grows n s t \<longleftrightarrow> (\<forall>k. unat (fmget (st_EventLatest t) k) \<le> unat (fmget (st_EventLatest s) k) + n)"

definition room :: "nat \<Rightarrow> State \<Rightarrow> bool" where
  "room n s \<longleftrightarrow> (\<forall>k. unat (fmget (st_EventLatest s) k) + n < 2 ^ 64)"

lemma unat_succ_le: "unat (w + 1 :: u64) \<le> Suc (unat w)"
  using unat_succ [of w] by (cases "w = - 1") auto

lemma grows_append: "grows 1 s (snd (appendRetainedEvent e s))"
  using unat_succ_le by (auto simp: grows_def appendRetainedEvent_maps)

lemma grows_same: "st_EventLatest t = st_EventLatest s \<Longrightarrow> grows n s t"
  by (simp add: grows_def)

lemma repo_step_grows: "repo_step s t \<Longrightarrow> grows 1 s t"
proof (induction rule: repo_step.induct)
  case (create key digest sb p s cr s')
  then show ?case
    by (cases rule: ReserveCreate_cases) (auto simp: created_state_def Let_def intro: grows_same)
next
  case (mutate key digest g sb p e s mr s')
  from mutate(1) show ?case
  proof (cases rule: ReserveMutation_cases)
    case (fresh current lease)
    have "st_EventLatest (mutated_state key digest sb p lease s) = st_EventLatest s"
      by (simp add: mutated_state_def Let_def)
    with grows_append [of "mutated_state key digest sb p lease s" e] show ?thesis
      unfolding \<open>s' = _\<close> by (simp add: grows_def)
  qed (simp add: grows_same)
next
  case (update_sandbox sb g t s s' cur)
  from update_sandbox(1) show ?case by (cases rule: UpdateSandbox_cases) (auto intro: grows_same)
next
  case (update_operation p s s')
  then show ?case by (cases rule: UpdateOperation_cases) (auto intro: grows_same split: option.splits)
next
  case (replace_lease l t s s')
  from replace_lease(1) show ?case by (cases rule: ReplaceLease_cases) (auto intro: grows_same)
next
  case (append e s e' s')
  from append(1) show ?case
  proof (cases rule: AppendEvent_cases)
    case (fresh sb)
    then have "s' = snd (appendRetainedEvent e s)" by (metis snd_conv)
    then show ?thesis using grows_append by simp
  qed (simp add: grows_same)
qed

lemma grows_trans:
  assumes "grows m s t" and "grows n t u"
  shows "grows (m + n) s u"
  unfolding grows_def
proof
  fix k
  have "unat (fmget (st_EventLatest t) k) \<le> unat (fmget (st_EventLatest s) k) + m"
    "unat (fmget (st_EventLatest u) k) \<le> unat (fmget (st_EventLatest t) k) + n"
    using assms unfolding grows_def by blast+
  then show "unat (fmget (st_EventLatest u) k) \<le> unat (fmget (st_EventLatest s) k) + (m + n)" by linarith
qed

lemma room_grows:
  assumes "room (m + n) s" and "grows m s t"
  shows "room n t"
  unfolding room_def
proof
  fix k
  have "unat (fmget (st_EventLatest s) k) + (m + n) < 2 ^ 64"
    "unat (fmget (st_EventLatest t) k) \<le> unat (fmget (st_EventLatest s) k) + m"
    using assms unfolding room_def grows_def by blast+
  then show "unat (fmget (st_EventLatest t) k) + n < 2 ^ 64" by linarith
qed

lemma room_mono:
  assumes "room n s" and "m \<le> n"
  shows "room m s"
  unfolding room_def
proof
  fix k
  have "unat (fmget (st_EventLatest s) k) + n < 2 ^ 64" using assms unfolding room_def by blast
  with assms(2) show "unat (fmget (st_EventLatest s) k) + m < 2 ^ 64" by linarith
qed

lemma room_latest:
  assumes "room 1 s"
  shows "fmget (st_EventLatest s) k \<noteq> - 1"
proof
  assume "fmget (st_EventLatest s) k = - 1"
  moreover have "unat (fmget (st_EventLatest s) k) + 1 < 2 ^ 64" using assms unfolding room_def by blast
  ultimately have "unat (- 1 :: u64) + 1 < 2 ^ 64" by simp
  then show False by (simp add: unsigned_minus_1_eq_mask mask_eq_exp_minus_1)
qed

section \<open>Legal calls\<close>

text \<open>
  What a call relies on: its sandbox and its operation are in the repository. Records are never removed, so
  this stays true whatever others do.
\<close>

definition known :: "Sandbox \<Rightarrow> Operation \<Rightarrow> State \<Rightarrow> bool" where
  "known sb p s \<longleftrightarrow>
     (\<exists>cur. fmlookup (st_Sandboxes s) (sb_ID sb) = Some cur \<and>
        sb_ProviderRevisionID cur = sb_ProviderRevisionID sb) \<and>
     op_ID p |\<in>| fmdom (st_Operations s)"

lemma known_evolves:
  assumes "known sb p s" and "repo_inv s" and "repo_evolves s t"
  shows "known sb p t"
proof -
  have fol: "state_follows s t" by (rule repo_evolves_follows [OF assms(3,2)])
  obtain cur where "fmlookup (st_Sandboxes s) (sb_ID sb) = Some cur"
    "sb_ProviderRevisionID cur = sb_ProviderRevisionID sb" "op_ID p |\<in>| fmdom (st_Operations s)"
    using assms(1) by (auto simp: known_def)
  with followsD(1) [OF fol] followsD(2) [OF fol] show ?thesis
    unfolding known_def sandbox_follows_def by (metis fmdomI fmlookup_dom_iff)
qed

text \<open>Other callers move the repository along legal histories too, with at most \<open>q\<close> events at a time.\<close>

definition others_legal :: "('r \<Rightarrow> State) \<Rightarrow> nat \<Rightarrow> ('r, 'd) Coordinator \<Rightarrow> bool" where
  "others_legal view q co \<longleftrightarrow>
     (\<forall>n r. repo_inv (view r) \<longrightarrow> room q (view r) \<longrightarrow>
        repo_evolves (view r) (view (en_Others (co_Env co) n r)) \<and>
        grows q (view r) (view (en_Others (co_Env co) n r)))"

definition client_write :: "('r \<Rightarrow> State) \<Rightarrow> (State \<Rightarrow> bool) \<Rightarrow> (ctx option \<Rightarrow> 'r \<Rightarrow> 'a \<times> 'r) \<Rightarrow> bool" where
  "client_write view P method \<longleftrightarrow>
     (\<forall>c r. repo_inv (view r) \<longrightarrow> P (view r) \<longrightarrow> room 1 (view r) \<longrightarrow>
        view (snd (method c r)) = view r \<or> repo_step (view r) (view (snd (method c r))))"

text \<open>
  A call is legal from states in which \<open>P\<close> holds, which is kept by histories, when it moves the repository
  along a history, given room for the events of \<open>n\<close> accesses.
\<close>

definition legal_move :: "('r \<Rightarrow> State) \<Rightarrow> nat \<Rightarrow> (State \<Rightarrow> bool) \<Rightarrow> nat \<Rightarrow> 'r \<Rightarrow> 'r \<Rightarrow> bool" where
  "legal_move view q P n r r' \<longleftrightarrow>
     (repo_inv (view r) \<longrightarrow> P (view r) \<longrightarrow> room (n * Suc q) (view r) \<longrightarrow>
        repo_evolves (view r) (view r') \<and> grows (n * Suc q) (view r) (view r'))"

definition legal :: "('r \<Rightarrow> State) \<Rightarrow> nat \<Rightarrow> (State \<Rightarrow> bool) \<Rightarrow> nat \<Rightarrow>
    (('r, 'd) World \<Rightarrow> 'b returns \<times> ('r, 'd) World) \<Rightarrow> bool" where
  "legal view q P n m \<longleftrightarrow> (\<forall>w. legal_move view q P n (w_Repository w) (w_Repository (snd (m w))))"

definition stable :: "(State \<Rightarrow> bool) \<Rightarrow> bool" where
  "stable P \<longleftrightarrow> (\<forall>s t. P s \<longrightarrow> repo_inv s \<longrightarrow> repo_evolves s t \<longrightarrow> P t)"

lemma stable_known [intro]: "stable (known sb p)"
  using known_evolves by (auto simp: stable_def)

lemma stable_True [intro]: "stable (\<lambda>_. True)"
  by (simp add: stable_def)

lemma legal_mono: "legal view q P m f \<Longrightarrow> m \<le> n \<Longrightarrow> legal view q P n f"
  unfolding legal_def legal_move_def grows_def
  by (meson add_left_mono le_trans mult_le_mono1 room_mono)

lemma legal_same:
  "(\<And>w. w_Repository (snd (f w)) = w_Repository w) \<Longrightarrow> legal view q P n f"
  by (simp add: legal_def legal_move_def grows_def repo_evolves.start)

text \<open>A step that does not touch the repository before it continues.\<close>

lemma legal_continue:
  assumes "\<And>w. \<exists>k w'. f w = k w' \<and> w_Repository w' = w_Repository w \<and> legal view q P n k"
  shows "legal view q P n f"
  unfolding legal_def
proof
  fix w
  obtain k w' where "f w = k w'" "w_Repository w' = w_Repository w" "legal view q P n k"
    using assms by blast
  then show "legal_move view q P n (w_Repository w) (w_Repository (snd (f w)))"
    unfolding legal_def by metis
qed

lemma legal_returns [intro]:
  "legal view q P n (return x)" "legal view q P n (return_err e)" "legal view q P n (return_both x e)"
  by (rule legal_same, simp add: return_def return_err_def return_both_def)+

lemma legal_or_return [intro]:
  "(\<And>x. r = Inr x \<Longrightarrow> legal view q P n (k x)) \<Longrightarrow> legal view q P n (or_return r k)"
  by (cases r) (auto simp: or_return_def [abs_def] intro: legal_returns)

lemma legal_if: "(b \<Longrightarrow> legal view q P n f) \<Longrightarrow> (\<not> b \<Longrightarrow> legal view q P n g) \<Longrightarrow> legal view q P n (if b then f else g)"
  by simp

lemma legal_option:
  "(x = None \<Longrightarrow> legal view q P n f) \<Longrightarrow> (\<And>y. x = Some y \<Longrightarrow> legal view q P n (g y)) \<Longrightarrow>
   legal view q P n (case x of None \<Rightarrow> f | Some y \<Rightarrow> g y)"
  by (cases x) simp_all

lemma legal_sum:
  "(\<And>e. x = Inl e \<Longrightarrow> legal view q P n (f e)) \<Longrightarrow> (\<And>y. x = Inr y \<Longrightarrow> legal view q P n (g y)) \<Longrightarrow>
   legal view q P n (case x of Inl e \<Rightarrow> f e | Inr y \<Rightarrow> g y)"
  by (cases x) simp_all

lemma legal_prod: "(\<And>x y. z = (x, y) \<Longrightarrow> legal view q P n (f x y)) \<Longrightarrow> legal view q P n (case z of (x, y) \<Rightarrow> f x y)"
  by (cases z) simp

lemma legal_clock [intro]:
  assumes "\<And>t. legal view q P n (k t)"
  shows "legal view q P n (clock_now (co_Env co) k)"
proof (rule legal_continue)
  fix w
  show "\<exists>k' w'. clock_now (co_Env co) k w = k' w' \<and> w_Repository w' = w_Repository w \<and> legal view q P n k'"
    unfolding clock_now_def using assms by (intro exI conjI) (rule refl, simp_all)
qed

lemma legal_poll [intro]:
  assumes "\<And>e. legal view q P n (k e)"
  shows "legal view q P n (poll c k)"
proof (rule legal_continue)
  fix w
  show "\<exists>k' w'. poll c k w = k' w' \<and> w_Repository w' = w_Repository w \<and> legal view q P n k'"
    unfolding poll_def using assms by (intro exI conjI) (rule refl, simp_all)
qed

lemma legal_driver [intro]:
  assumes "\<And>x. legal view q P n (k x)"
  shows "legal view q P n (driver_call c method k)"
proof (rule legal_continue)
  fix w :: "('b, 'c) World"
  obtain res d where "method (from_now (w_Tick w) c) (w_Driver w) = (res, d)" by force
  then show "\<exists>k' w'. driver_call c method k w = k' w' \<and> w_Repository w' = w_Repository w \<and> legal view q P n k'"
    unfolding driver_call_def using assms by (intro exI conjI) (simp, simp_all)
qed

lemma legal_operationContext [intro]:
  assumes "\<And>oc. legal view q P n (k oc)"
  shows "legal view q P n (operationContext co c d k)"
  unfolding operationContext_def
  by (intro legal_clock legal_continue) (use assms in \<open>auto simp: Let_def\<close>)

lemma legal_persistenceContext [intro]:
  assumes "\<And>oc. legal view q P n (k oc)"
  shows "legal view q P n (persistenceContext co k)"
  by (rule legal_continue) (use assms in \<open>auto simp: persistenceContext_def\<close>)

text \<open>An access may teach the call something it relies on afterwards: \<open>Q\<close> for the answer it got.\<close>

lemma legal_write_at:
  assumes "others_legal view q co" and "stable P" and "client_write view P method"
    and m: "method (from_now (w_Tick w) c) (en_Others (co_Env co) (w_Tick w) (w_Repository w)) = (res, r)"
    and gain: "\<And>r'. repo_inv (view r') \<Longrightarrow> P (view r') \<Longrightarrow> P (view r) \<Longrightarrow>
      method (from_now (w_Tick w) c) r' = (res, r) \<Longrightarrow> Q (view r)"
    and "legal view q Q n (k res)"
  shows "legal_move view q P (Suc n) (w_Repository w) (w_Repository (snd (repo_write (co_Env co) c method k w)))"
proof -
  let ?r = "w_Repository w"
  let ?o = "en_Others (co_Env co) (w_Tick w) ?r"
  let ?w = "w\<lparr>w_Repository := r, w_Tick := w_Tick w + 5\<rparr>"
  let ?e = "w_Repository (snd (k res ?w))"
  have next_move: "legal_move view q Q n r ?e"
    using assms(6) unfolding legal_def by (metis (no_types, lifting) World.select_convs(1)
        World.surjective World.update_convs(1) World.update_convs(3))
  have num: "Suc n * Suc q = q + (1 + n * Suc q)" by simp
  have "legal_move view q P (Suc n) ?r ?e"
    unfolding legal_move_def num
  proof (intro impI)
    assume inv: "repo_inv (view ?r)" and P: "P (view ?r)" and room: "room (q + (1 + n * Suc q)) (view ?r)"
    have o: "repo_evolves (view ?r) (view ?o)" "grows q (view ?r) (view ?o)"
      using assms(1) inv room_mono [OF room] by (auto simp: others_legal_def)
    have inv': "repo_inv (view ?o)" and P': "P (view ?o)"
      using o(1) inv P assms(2) repo_evolves_inv by (auto simp: stable_def)
    have room': "room (1 + n * Suc q) (view ?o)" by (rule room_grows [OF room o(2)])
    have "view r = view ?o \<or> repo_step (view ?o) (view r)"
      using assms(3) inv' P' room_mono [OF room'] m unfolding client_write_def by (metis le_add1 snd_conv)
    then have r: "repo_evolves (view ?o) (view r)" "grows 1 (view ?o) (view r)"
      using repo_evolves.start repo_step_evolves repo_step_grows grows_same by metis+
    have "Q (view r)" using gain [OF inv' P' _ m] assms(2) P' inv' r(1) unfolding stable_def by blast
    then have "repo_evolves (view r) (view ?e) \<and> grows (n * Suc q) (view r) (view ?e)"
      using next_move repo_evolves_inv [OF r(1) inv'] room_grows [OF room' r(2)]
      unfolding legal_move_def by blast
    then show "repo_evolves (view ?r) (view ?e) \<and> grows (q + (1 + n * Suc q)) (view ?r) (view ?e)"
      using o r by (blast intro: repo_evolves_trans grows_trans)
  qed
  moreover have "repo_write (co_Env co) c method k w = k res ?w" by (simp add: repo_write_def m)
  ultimately show ?thesis by simp
qed

lemma legal_write_gain:
  assumes "others_legal view q co" and "stable P" and "client_write view P method"
    and gain: "\<And>c r x r'. repo_inv (view r) \<Longrightarrow> P (view r) \<Longrightarrow> P (view r') \<Longrightarrow> method c r = (x, r') \<Longrightarrow> Q x (view r')"
    and "\<And>x. legal view q (Q x) n (k x)"
  shows "legal view q P (Suc n) (repo_write (co_Env co) c method k)"
  unfolding legal_def
proof
  fix w :: "('a, 'd) World"
  obtain res r where m:
    "method (from_now (w_Tick w) c) (en_Others (co_Env co) (w_Tick w) (w_Repository w)) = (res, r)" by force
  show "legal_move view q P (Suc n) (w_Repository w) (w_Repository (snd (repo_write (co_Env co) c method k w)))"
    by (rule legal_write_at [OF assms(1-3) m gain assms(5)])
qed

lemma legal_write:
  "others_legal view q co \<Longrightarrow> stable P \<Longrightarrow> client_write view P method \<Longrightarrow> (\<And>x. legal view q P n (k x)) \<Longrightarrow>
   legal view q P (Suc n) (repo_write (co_Env co) c method k)"
  by (rule legal_write_gain [where Q = "\<lambda>_. P"])

lemma legal_then:
  assumes "legal view q P m f" and "stable P" and "\<And>x. legal view q P n (k x)"
  shows "legal view q P (m + n) (\<lambda>w. case f w of (x, w') \<Rightarrow> k x w')"
  unfolding legal_def
proof
  fix w
  obtain x w' where f: "f w = (x, w')" by (metis surj_pair)
  have 1: "legal_move view q P m (w_Repository w) (w_Repository w')"
    using assms(1) f unfolding legal_def by (metis snd_conv)
  have 2: "legal_move view q P n (w_Repository w') (w_Repository (snd (k x w')))"
    using assms(3) unfolding legal_def by blast
  have num: "(m + n) * Suc q = m * Suc q + n * Suc q" by (rule add_mult_distrib)
  show "legal_move view q P (m + n) (w_Repository w) (w_Repository (snd (case f w of (x, w') \<Rightarrow> k x w')))"
    unfolding f prod.case legal_move_def num
  proof (intro impI)
    let ?s = "view (w_Repository w)" and ?t = "view (w_Repository w')"
    assume a: "repo_inv ?s" "P ?s" "room (m * Suc q + n * Suc q) ?s"
    then have t: "repo_evolves ?s ?t" "grows (m * Suc q) ?s ?t"
      using 1 room_mono [OF a(3) le_add1] unfolding legal_move_def by blast+
    then have "repo_inv ?t" "P ?t" "room (n * Suc q) ?t"
      using a assms(2) repo_evolves_inv room_grows unfolding stable_def by blast+
    then show "repo_evolves ?s (view (w_Repository (snd (k x w')))) \<and>
        grows (m * Suc q + n * Suc q) ?s (view (w_Repository (snd (k x w'))))"
      using 2 t unfolding legal_move_def by (blast intro: repo_evolves_trans grows_trans)
  qed
qed

text \<open>The identities a reconciliation never changes.\<close>

definition same_sandbox :: "Sandbox \<Rightarrow> Sandbox \<Rightarrow> bool" where
  "same_sandbox sb0 sb \<longleftrightarrow> sb_ID sb = sb_ID sb0 \<and> sb_ProviderRevisionID sb = sb_ProviderRevisionID sb0"

definition same_operation :: "Operation \<Rightarrow> Operation \<Rightarrow> bool" where
  "same_operation p0 p \<longleftrightarrow> op_ID p = op_ID p0"

lemma same_refl [simp]: "same_sandbox sb sb" "same_operation p p"
  by (simp_all add: same_sandbox_def same_operation_def)

lemma transition_same:
  "same_sandbox sb0 s \<Longrightarrow> ApplyObservedTransition s n g t = Inr s' \<Longrightarrow> same_sandbox sb0 s'"
  "same_operation p0 p \<Longrightarrow> SucceedOperation p t = Inr p' \<Longrightarrow> same_operation p0 p'"
  "same_operation p0 p \<Longrightarrow> BeginOperation p t = Inr p' \<Longrightarrow> same_operation p0 p'"
  "same_operation p0 p \<Longrightarrow> FailOperation p t f = Inr p' \<Longrightarrow> same_operation p0 p'"
  "same_operation p0 p \<Longrightarrow> MarkOutcomeUnknown p t f = Inr p' \<Longrightarrow> same_operation p0 p'"
  by (auto simp: same_sandbox_def same_operation_def ApplyObservedTransition_Inr SucceedOperation_def
      BeginOperation_def FailOperation_def MarkOutcomeUnknown_def transitionOperation_Inr split: if_splits)

context lifecycle_repository
begin

lemma client_read: "client_write view P (\<lambda>c r. (method c r, r))"
  by (simp add: client_write_def)

lemma through_step:
  assumes "writes_through view f write" and "repo_inv (view r)"
    and "\<And>x s. f (view r) = Inr (x, s) \<Longrightarrow> s = view r \<or> repo_step (view r) s"
  shows "view (snd (write r)) = view r \<or> repo_step (view r) (view (snd (write r)))"
proof -
  obtain res r' where w: "write r = (res, r')" by force
  have "case res of Inr x \<Rightarrow> f (view r) = Inr (x, view r')
      | Inl e \<Rightarrow> view r' = view r \<or> (\<exists>x. f (view r) = Inr (x, view r'))"
    using assms(1,2) w by (auto simp: writes_through_def split: sum.splits)
  then show ?thesis using assms(3) w by (auto split: sum.splits)
qed

lemma client_ReserveCreate: "client_write view P (\<lambda>c. po_ReserveCreate port c key d sb p)"
  unfolding client_write_def
  by (intro allI impI through_step [OF ReserveCreate_law]) (auto intro: repo_step.create)

lemma client_ReserveMutation: "client_write view P (\<lambda>c. po_ReserveMutation port c key d g sb p e)"
  unfolding client_write_def
  by (intro allI impI through_step [OF ReserveMutation_law] disjI2) (auto intro!: repo_step.mutate dest: room_latest [simplified])

lemma client_UpdateOperation: "client_write view P (\<lambda>c. po_UpdateOperation port c p)"
  unfolding client_write_def
  by (intro allI impI through_step [OF UpdateOperation_law]) (auto simp: void_Inr intro: repo_step.update_operation)

lemma client_UpdateSandbox:
  assumes "same_sandbox sb0 sb"
  shows "client_write view (known sb0 p0) (\<lambda>c. po_UpdateSandbox port c sb g t)"
  unfolding client_write_def
proof (intro allI impI through_step [OF UpdateSandbox_law])
  fix r x s
  assume k: "known sb0 p0 (view r)" and u: "void (UpdateSandbox sb g t) (view r) = Inr (x, s)"
  then show "s = view r \<or> repo_step (view r) s"
    using assms repo_step.update_sandbox [of sb g t "view r" s] unfolding known_def same_sandbox_def void_Inr by metis
qed

lemma client_AppendEvent:
  assumes "ev_OperationID e = op_ID p0"
  shows "client_write view (known sb0 p0) (\<lambda>c. po_AppendEvent port c e)"
  unfolding client_write_def
  by (intro allI impI through_step [OF AppendEvent_law] disjI2)
    (use assms in \<open>auto simp: known_def intro!: repo_step.append dest: room_latest [simplified]\<close>)

lemma legal_read_or_return:
  assumes "others_legal view q co" and "stable P" and "\<And>x. legal view q P n (k x)"
  shows "legal view q P (Suc n) (read_or_return (co_Env co) c method k)"
  unfolding read_or_return_def repo_read_def
  by (intro legal_write [OF assms(1,2) client_read] legal_or_return assms(3))

text \<open>What is read was in the repository.\<close>

lemma legal_read_gain:
  assumes "others_legal view q co" and "stable P"
    and "\<And>c r x. repo_inv (view r) \<Longrightarrow> P (view r) \<Longrightarrow> method c r = Inr x \<Longrightarrow> Q x (view r)"
    and "\<And>x. legal view q (Q x) n (k x)"
  shows "legal view q P (Suc n) (read_or_return (co_Env co) c method k)"
  unfolding read_or_return_def repo_read_def
proof (rule legal_write_gain [OF assms(1,2) client_read, where Q = "\<lambda>res s. \<forall>x. res = Inr x \<longrightarrow> Q x s"])
  show "legal view q (\<lambda>s. \<forall>x. res = Inr x \<longrightarrow> Q x s) n (or_return res k)" for res
    using assms(4) by (cases res) (auto simp: or_return_def [abs_def] intro: legal_returns)
qed (use assms(3) in auto)

lemma legal_access:
  assumes "others_legal view q co" and "stable P" and "client_write view P method" and "0 < n"
    and "\<And>x. legal view q P (n - 1) (k x)"
  shows "legal view q P n (write_or_return (co_Env co) c method k)"
proof -
  obtain m where n: "n = Suc m" using assms(4) by (cases n) auto
  show ?thesis
    unfolding write_or_return_def n
    by (intro legal_write [OF assms(1-3)] legal_or_return) (use assms(5) n in simp)
qed

lemma legal_update_sandbox:
  assumes "others_legal view q co" and "co_Repository co = port" and "same_sandbox sb0 sb" and "0 < n"
    and "legal view q (known sb0 p0) (n - 1) k"
  shows "legal view q (known sb0 p0) n (update_sandbox co c sb g t k)"
  unfolding update_sandbox_def assms(2)
  by (intro legal_access [OF assms(1) stable_known client_UpdateSandbox [OF assms(3)]] assms(4,5))

lemma legal_update_operation:
  assumes "others_legal view q co" and "co_Repository co = port" and "0 < n"
    and "legal view q (known sb0 p0) (n - 1) k"
  shows "legal view q (known sb0 p0) n (update_operation co c p k)"
  unfolding update_operation_def assms(2)
  by (intro legal_access [OF assms(1) stable_known client_UpdateOperation] assms(3,4))

lemma legal_append_event:
  assumes "others_legal view q co" and "co_Repository co = port" and "same_operation p0 p" and "0 < n"
    and "legal view q (known sb0 p0) (n - 1) k"
  shows "legal view q (known sb0 p0) n (append_event co c p sb' kind now k)"
proof -
  have "ev_OperationID (event_of p sb' kind now) = op_ID p0"
    using assms(3) by (simp add: event_of_def same_operation_def)
  then show ?thesis
    unfolding append_event_def assms(2)
    by (intro legal_access [OF assms(1) stable_known client_AppendEvent] assms(4,5))
qed

lemmas legal_intros = legal_update_sandbox legal_update_operation legal_append_event

lemma legal_failBeforeDispatch:
  assumes "others_legal view q co" and "co_Repository co = port" and "same_operation p0 p" and "2 \<le> n"
  shows "legal view q (known sb0 p0) n (failBeforeDispatch co p sb code cause)"
  unfolding failBeforeDispatch_def
  by (intro legal_persistenceContext legal_clock legal_or_return legal_intros [OF assms(1,2)] legal_returns
      transition_same(2-) [OF assms(3)]) (use assms(4) in auto)

lemma legal_markReady:
  assumes "others_legal view q co" and "co_Repository co = port" and "same_sandbox sb0 sb"
    and "same_operation p0 p" and "3 \<le> n"
  shows "legal view q (known sb0 p0) n (markReady co p sb dispatched)"
  unfolding markReady_def
  by (intro legal_persistenceContext legal_clock legal_or_return legal_intros [OF assms(1,2)] legal_returns
      transition_same(1) [OF assms(3)] transition_same(2-) [OF assms(4)]) (use assms(5) in auto)

lemma legal_markSandboxReady:
  assumes "others_legal view q co" and "co_Repository co = port" and "same_sandbox sb0 sb"
    and "same_operation p0 p" and "2 \<le> n"
  shows "legal view q (known sb0 p0) n (markSandboxReady co p sb)"
  unfolding markSandboxReady_def if_split [of "legal view q (known sb0 p0) n"]
  by (intro conjI impI legal_persistenceContext legal_clock legal_or_return legal_intros [OF assms(1,2)]
      legal_returns transition_same(1) [OF assms(3)] assms(4)) (use assms(5) in auto)

lemma legal_record_failure:
  assumes "others_legal view q co" and "co_Repository co = port" and "same_operation p0 p" and "2 \<le> n"
  shows "legal view q (known sb0 p0) n (record_failure co wc p sb code cause)"
  unfolding record_failure_def
  by (intro legal_clock legal_or_return legal_intros [OF assms(1,2)] legal_returns
      transition_same(2-) [OF assms(3)]) (use assms(4) in auto)

lemma legal_markKnownFailure:
  assumes "others_legal view q co" and "co_Repository co = port" and "same_sandbox sb0 sb"
    and "same_operation p0 p" and "3 \<le> n"
  shows "legal view q (known sb0 p0) n (markKnownFailure co p sb code cause)"
  unfolding markKnownFailure_def
proof (intro legal_persistenceContext legal_clock)
  fix wc now
  show "legal view q (known sb0 p0) n
      (case ApplyObservedTransition sb ObservedFailed (sb_Generation sb) now of
         Inl e \<Rightarrow> if \<not> errors_is e ErrInvalidTransition then return_err e else record_failure co wc p sb code cause
       | Inr sb' \<Rightarrow> update_sandbox co wc sb' (sb_Generation sb) (op_FencingToken p) (record_failure co wc p sb' code cause))"
    using assms transition_same(1) [OF assms(3)]
    by (auto split: sum.splits intro!: legal_update_sandbox legal_record_failure)
qed

lemma legal_markUnknownWithDispatch:
  assumes "others_legal view q co" and "co_Repository co = port" and "same_operation p0 p" and "2 \<le> n"
  shows "legal view q (known sb0 p0) n (markUnknownWithDispatch co p sb code cause dispatched)"
  unfolding markUnknownWithDispatch_def
proof (intro legal_persistenceContext legal_clock)
  fix wc now
  show "legal view q (known sb0 p0) n
      (case MarkOutcomeUnknown p now \<lparr>fl_Code = code, fl_Retryable = True, fl_Outcome = FailureUnknown\<rparr> of
         Inl e \<Rightarrow> if errors_is e ErrTerminalOperation
           then return \<lparr>rs_Operation = p, rs_Sandbox = sb, rs_Dispatched = False\<rparr> else return_err e
       | Inr p' \<Rightarrow> update_operation co wc p' (clock_now (co_Env co) (\<lambda>now'. append_event co wc p' sb ''outcome-unknown'' now'
           (return_both \<lparr>rs_Operation = p', rs_Sandbox = sb, rs_Dispatched = dispatched\<rparr> cause))))"
    using assms transition_same(5) [OF assms(3)]
    by (auto split: sum.splits intro!: legal_update_operation legal_append_event legal_clock)
qed

lemma legal_markUnknown:
  assumes "others_legal view q co" and "co_Repository co = port" and "same_operation p0 p" and "2 \<le> n"
  shows "legal view q (known sb0 p0) n (markUnknown co p sb code cause)"
  unfolding markUnknown_def by (rule legal_markUnknownWithDispatch [OF assms])

lemmas legal_structure = legal_clock legal_poll legal_or_return legal_operationContext legal_persistenceContext
  legal_driver legal_option legal_sum legal_prod legal_if legal_returns

lemmas legal_marks = legal_intros legal_failBeforeDispatch legal_markUnknown legal_markUnknownWithDispatch
  legal_markKnownFailure legal_markReady legal_markSandboxReady

lemmas kept_ids = transition_same(1) [OF same_refl(1)] transition_same(2-) [OF same_refl(2)]

lemma legal_dispatchCreate:
  assumes "others_legal view q co" and "co_Repository co = port"
  shows "legal view q (known sb p) 6 (dispatchCreate co c p sb)"
  unfolding dispatchCreate_def
  by (intro legal_structure legal_marks [OF assms]) (auto intro: kept_ids)

lemma legal_reconcileCreate:
  assumes "others_legal view q co" and "co_Repository co = port"
  shows "legal view q (known sb p) 3 (reconcileCreate co c p sb)"
  unfolding reconcileCreate_def
proof (intro legal_structure legal_marks [OF assms])
  fix state
  show "legal view q (known sb p) 3
     (case state of
        RuntimeReady \<Rightarrow> if op_State p = OperationOutcomeUnknown then markSandboxReady co p sb else markReady co p sb False
      | RuntimeAbsent \<Rightarrow>
          if op_State p = OperationOutcomeUnknown
          then return \<lparr>rs_Operation = p, rs_Sandbox = sb, rs_Dispatched = False\<rparr>
          else markKnownFailure co p sb ''runtime_absent'' [ErrOther]
      | RuntimeProvisioning \<Rightarrow> return \<lparr>rs_Operation = p, rs_Sandbox = sb, rs_Dispatched = False\<rparr>
      | _ \<Rightarrow> markUnknown co p sb ''invalid_runtime_observation'' [ErrUnknownRuntime])"
    by (cases state) (simp_all add: legal_returns legal_marks [OF assms])
qed simp_all

lemma legal_complete_lease:
  assumes "others_legal view q co" and "co_Repository co = port" and "same_operation p0 p" and "2 \<le> n"
  shows "legal view q (known sb0 p0) n (complete_lease co wc p sb)"
  unfolding complete_lease_def
  by (intro legal_structure legal_marks [OF assms(1,2)]) (use assms(4) in \<open>auto intro: transition_same(2) [OF assms(3)]\<close>)

lemma legal_reconcileLease:
  assumes "others_legal view q co" and "co_Repository co = port"
  shows "legal view q (known sb p) 3 (reconcileLease co p sb)"
  unfolding reconcileLease_def
  by (intro legal_structure legal_marks [OF assms] legal_complete_lease [OF assms]) (auto intro: kept_ids)

lemma legal_reach_target:
  assumes "others_legal view q co" and "co_Repository co = port" and "same_sandbox sb0 sb"
    and "same_operation p0 p" and "3 \<le> n"
  shows "legal view q (known sb0 p0) n (reach_target co p sb observed kind dispatched)"
  unfolding reach_target_def Let_def
  by (intro legal_structure legal_marks [OF assms(1,2)])
    (use assms(4,5) in \<open>auto intro: transition_same(1) [OF assms(3)] transition_same(2) [OF assms(4)]\<close>)

lemma legal_drive_desired_state:
  assumes "others_legal view q co" and "co_Repository co = port" and "same_sandbox sb0 sb"
    and "same_operation p0 p" and "3 \<le> n"
  shows "legal view q (known sb0 p0) n (drive_desired_state co c p sb target action)"
  unfolding drive_desired_state_def markDesiredTarget_def
  by (intro legal_structure legal_marks [OF assms(1,2)] legal_reach_target [OF assms(1,2)]) (use assms in auto)

lemma legal_reconcileDesiredState:
  assumes "others_legal view q co" and "co_Repository co = port"
  shows "legal view q (known sb p) 6 (reconcileDesiredState co c p sb)"
  unfolding reconcileDesiredState_def
proof (intro legal_sum)
  fix y
  assume "desiredRuntimeAction (co_Driver co) (op_Type p) = Inr y"
  obtain target mid action where y: "y = (target, mid, action)" by (cases y)
  show "legal view q (known sb p) 6 (case y of (target, mid, action) \<Rightarrow>
      if op_State p = OperationAccepted
      then clock_now (co_Env co) (\<lambda>now.
        or_return (ApplyObservedTransition sb mid (sb_Generation sb) now) (\<lambda>transitioning.
          update_sandbox co c transitioning (sb_Generation sb) (op_FencingToken p)
           (case BeginOperation p now of
              Inl beginErr \<Rightarrow> failBeforeDispatch co p transitioning ''deadline_expired'' beginErr
            | Inr updated \<Rightarrow>
                update_operation co c updated
                 (append_event co c updated transitioning (ObservedState_string mid) now
                   (drive_desired_state co c updated transitioning target action)))))
      else drive_desired_state co c p sb target action)"
    unfolding y prod.case
    by (intro legal_structure legal_marks [OF assms] legal_drive_desired_state [OF assms]) (auto intro: kept_ids)
qed (intro legal_structure legal_marks [OF assms]; simp)

lemma legal_drive_terminate:
  assumes "others_legal view q co" and "co_Repository co = port" and "same_sandbox sb0 sb"
    and "same_operation p0 p" and "3 \<le> n"
  shows "legal view q (known sb0 p0) n (drive_terminate co c p sb remove)"
  unfolding drive_terminate_def markTerminated_def
  by (intro legal_structure legal_marks [OF assms(1,2)] legal_reach_target [OF assms(1,2)]) (use assms in auto)

lemma legal_reconcileTerminate:
  assumes "others_legal view q co" and "co_Repository co = port"
  shows "legal view q (known sb p) 6 (reconcileTerminate co c p sb)"
  unfolding reconcileTerminate_def
  by (intro legal_structure legal_marks [OF assms] legal_drive_terminate [OF assms]) (auto intro: kept_ids)

text \<open>The dispatch by type and state, once both records have been read.\<close>

lemma legal_dispatch:
  assumes "others_legal view q co" and "co_Repository co = port"
  shows "legal view q (known sb p) 6
     (case op_Type p of
        OperationCreate \<Rightarrow>
          (case op_State p of
             OperationAccepted \<Rightarrow> dispatchCreate co c p sb
           | OperationRunning \<Rightarrow> reconcileCreate co c p sb
           | OperationOutcomeUnknown \<Rightarrow> reconcileCreate co c p sb
           | _ \<Rightarrow> return_err [ErrInvalidCoordinator])
      | OperationExtendLease \<Rightarrow> reconcileLease co p sb
      | OperationSuspend \<Rightarrow> reconcileDesiredState co c p sb
      | OperationResume \<Rightarrow> reconcileDesiredState co c p sb
      | OperationTerminate \<Rightarrow> reconcileTerminate co c p sb
      | OperationTypeUnknown _ \<Rightarrow> return_err [ErrInvalidCoordinator])"
  using legal_mono [OF legal_reconcileCreate [OF assms]] legal_mono [OF legal_reconcileLease [OF assms]]
  by (cases "op_Type p"; cases "op_State p")
    (simp_all add: legal_returns legal_dispatchCreate [OF assms] legal_reconcileDesiredState [OF assms]
      legal_reconcileTerminate [OF assms])

lemma read_operation_known:
  assumes "repo_inv (view r)" and "po_GetOperation port c i r = Inr p"
  shows "op_ID p |\<in>| fmdom (st_Operations (view r))"
proof -
  have "fmlookup (st_Operations (view r)) i = Some p"
    using GetOperation_law [of i c] assms(2) by (auto simp: reads_through_def GetOperation_def split: option.splits)
  moreover from this have "op_ID p = i" using assms(1) by (simp add: repo_inv_def inv_operations_def)
  ultimately show ?thesis by (simp add: fmdomI)
qed

lemma read_sandbox_known:
  assumes "repo_inv (view r)" and "po_GetSandbox port c i r = Inr sb"
  shows "fmlookup (st_Sandboxes (view r)) (sb_ID sb) = Some sb"
proof -
  have "fmlookup (st_Sandboxes (view r)) i = Some sb"
    using GetSandbox_law [of i c] assms(2) by (auto simp: reads_through_def GetSandbox_def split: option.splits)
  moreover from this have "sb_ID sb = i" using assms(1) by (simp add: repo_inv_def inv_sandboxes_def)
  ultimately show ?thesis by simp
qed

lemma stable_operation [intro]: "stable (\<lambda>s. i |\<in>| fmdom (st_Operations s))"
  unfolding stable_def
proof (intro allI impI)
  fix s t
  assume "i |\<in>| fmdom (st_Operations s)" and h: "repo_inv s" "repo_evolves s t"
  then obtain p where "fmlookup (st_Operations s) i = Some p" by (meson fmlookup_dom_iff)
  then show "i |\<in>| fmdom (st_Operations t)"
    using followsD(2) [OF repo_evolves_follows [OF h(2,1)]] by (blast intro: fmdomI)
qed

lemma legal_reconcileOperation:
  assumes "others_legal view q co" and "co_Repository co = port"
  shows "legal view q (\<lambda>_. True) 8 (reconcileOperation co c i)"
proof -
  have num: "8 = Suc (Suc 6)" by simp
  show ?thesis
    unfolding reconcileOperation_def assms(2) num
    by (intro legal_poll legal_option legal_returns
        legal_read_gain [OF assms(1) stable_True, where Q = "\<lambda>p s. op_ID p |\<in>| fmdom (st_Operations s)"]
        legal_read_gain [OF assms(1) stable_operation, where Q = "\<lambda>sb. known sb p" for p]
        legal_if legal_dispatch [OF assms])
      (auto simp: known_def read_operation_known read_sandbox_known intro: legal_dispatch [OF assms])
qed

lemma legal_AcceptCreate:
  assumes "others_legal view q co" and "co_Repository co = port"
  shows "legal view q (\<lambda>_. True) 1 (AcceptCreate co c request)"
  unfolding AcceptCreate_def write_or_return_def assms(2) One_nat_def
  by (intro legal_structure legal_write [OF assms(1) stable_True client_ReserveCreate])


lemma legal_read:
  assumes "others_legal view q co" and "\<And>x. legal view q (\<lambda>_. True) n (k x)"
  shows "legal view q (\<lambda>_. True) (Suc n) (repo_read (co_Env co) c method k)"
  unfolding repo_read_def by (rule legal_write [OF assms(1) stable_True client_read assms(2)])

lemma legal_reserve_mutation:
  assumes "others_legal view q co" and "co_Repository co = port"
  shows "legal view q (\<lambda>_. True) 1 (reserve_mutation co c request sb p e)"
  unfolding reserve_mutation_def write_or_return_def assms(2) One_nat_def
  by (intro legal_structure legal_write [OF assms(1) stable_True client_ReserveMutation])

lemma legal_mutationReplay:
  assumes "others_legal view q co" and "legal view q (\<lambda>_. True) 2 k"
  shows "legal view q (\<lambda>_. True) 3 (mutationReplay co c i request k)"
proof -
  have "legal view q (\<lambda>_. True) (Suc (Suc 1)) (mutationReplay co c i request k)"
    unfolding mutationReplay_def
    by (intro legal_read legal_structure legal_read_or_return stable_True assms(1)
        legal_mono [OF assms(2)]) simp_all
  then show ?thesis by (simp add: numeral_3_eq_3)
qed

lemma legal_Accept:
  assumes "others_legal view q co" and "co_Repository co = port"
  shows "legal view q (\<lambda>_. True) 1 (AcceptCreate co c create)"
    and "legal view q (\<lambda>_. True) 3 (AcceptDesiredState co c i desired)"
    and "legal view q (\<lambda>_. True) 3 (AcceptLease co c i lease maxSeconds)"
    and "legal view q (\<lambda>_. True) 3 (AcceptTerminate co c i terminate)"
proof -
  have two: "legal view q (\<lambda>_. True) 2 (clock_now (co_Env co) k)" if "\<And>t. legal view q (\<lambda>_. True) (Suc 1) (k t)" for k
    using that by (simp add: numeral_2_eq_2 legal_clock)
  note rules = legal_mutationReplay [OF assms(1)] two legal_structure legal_reserve_mutation [OF assms]
    legal_read_or_return [OF assms(1) stable_True]
  show "legal view q (\<lambda>_. True) 1 (AcceptCreate co c create)" by (rule legal_AcceptCreate [OF assms])
  show "legal view q (\<lambda>_. True) 3 (AcceptDesiredState co c i desired)"
    unfolding AcceptDesiredState_def by (intro rules)
  show "legal view q (\<lambda>_. True) 3 (AcceptLease co c i lease maxSeconds)"
    unfolding AcceptLease_def by (intro rules)
  show "legal view q (\<lambda>_. True) 3 (AcceptTerminate co c i terminate)"
    unfolding AcceptTerminate_def by (intro rules)
qed

lemma legal_reads:
  assumes "others_legal view q co"
  shows "legal view q (\<lambda>_. True) 1 (Coordinator_GetSandbox co c i)"
    and "legal view q (\<lambda>_. True) 1 (Coordinator_GetOperation co c i)"
    and "legal view q (\<lambda>_. True) 1 (Coordinator_ReadEvents co c i after)"
  unfolding Coordinator_GetSandbox_def Coordinator_GetOperation_def Coordinator_ReadEvents_def read_or_return_def One_nat_def
  by (intro legal_structure legal_read [OF assms])+

text \<open>A reconciliation whose result decides how the sweep goes on.\<close>

lemma legal_collect:
  assumes "legal view q (\<lambda>_. True) m f" and "\<And>rs. legal view q (\<lambda>_. True) n (next rs)"
  shows "legal view q (\<lambda>_. True) (m + n) (\<lambda>w. case f w of
      ((result, Some e), w') \<Rightarrow> return_both (results @ collect result) e w'
    | ((result, None), w') \<Rightarrow> next (results @ app result) w')"
proof -
  have "legal view q (\<lambda>_. True) (m + n) (\<lambda>w. case f w of (x, w') \<Rightarrow>
      (case x of (result, err) \<Rightarrow>
         case err of Some e \<Rightarrow> return_both (results @ collect result) e | None \<Rightarrow> next (results @ app result)) w')"
    by (intro legal_then assms stable_True legal_prod legal_option legal_returns)
  moreover have "(\<lambda>w. case f w of (x, w') \<Rightarrow>
      (case x of (result, err) \<Rightarrow>
         case err of Some e \<Rightarrow> return_both (results @ collect result) e | None \<Rightarrow> next (results @ app result)) w')
    = (\<lambda>w. case f w of
      ((result, Some e), w') \<Rightarrow> return_both (results @ collect result) e w'
    | ((result, None), w') \<Rightarrow> next (results @ app result) w')"
    by (auto split: prod.splits option.splits)
  ultimately show ?thesis by simp
qed

lemma legal_reconcile_each:
  assumes "others_legal view q co" and "co_Repository co = port"
  shows "legal view q (\<lambda>_. True) (9 * length ps) (reconcile_each co c ps results)"
proof (induction ps arbitrary: results)
  case Nil
  then show ?case by (simp add: legal_returns)
next
  case (Cons p ps)
  let ?n = "9 * length ps"
  have rec: "legal view q (\<lambda>_. True) (8 + ?n) (\<lambda>w. case ReconcileOperation co c (op_ID p) w of
        ((result, Some e), w') \<Rightarrow> return_both (results @ collect result) e w'
      | ((result, None), w') \<Rightarrow> reconcile_each co c ps (results @ appended result) w')"
    unfolding ReconcileOperation_def by (intro legal_collect legal_reconcileOperation assms Cons.IH)
  have num: "9 * length (p # ps) = Suc (8 + ?n)" by simp
  show ?case
    unfolding num reconcile_each.simps Let_def
    by (intro legal_if legal_read [OF assms(1)] legal_sum legal_returns legal_mono [OF rec] legal_mono [OF Cons.IH]) simp_all
qed

lemma legal_expire_each:
  assumes "others_legal view q co" and "co_Repository co = port"
  shows "legal view q (\<lambda>_. True) (10 * length sbs) (expire_each co c now sbs pending results)"
proof (induction sbs arbitrary: pending results)
  case Nil
  then show ?case by (simp add: legal_returns)
next
  case (Cons sb sbs)
  let ?n = "10 * length sbs"
  have num: "10 * length (sb # sbs) = Suc (Suc (8 + ?n))" by simp
  show ?case
    unfolding num expire_each.simps Let_def assms(2)
    by (intro legal_if legal_read [OF assms(1)] legal_sum legal_prod legal_returns
        legal_write [OF assms(1) stable_True client_ReserveMutation]
        legal_collect legal_reconcileOperation assms Cons.IH legal_mono [OF Cons.IH]) simp_all
qed

lemma legal_read_at:
  assumes "others_legal view q co"
    and "\<And>x. method (from_now (w_Tick w) c) (en_Others (co_Env co) (w_Tick w) (w_Repository w)) = Inr x \<Longrightarrow>
      legal view q (\<lambda>_. True) n (k x)"
  shows "legal_move view q (\<lambda>_. True) (Suc n) (w_Repository w) (w_Repository (snd (read_or_return (co_Env co) c method k w)))"
  unfolding read_or_return_def repo_read_def
proof (rule legal_write_at [OF assms(1) stable_True client_read refl, where Q = "\<lambda>_. True"])
  show "legal view q (\<lambda>_. True) n
     (or_return (method (from_now (w_Tick w) c) (en_Others (co_Env co) (w_Tick w) (w_Repository w))) k)"
    by (rule legal_or_return) (rule assms(2))
qed simp

lemma legal_move_poll:
  assumes "legal_move view q P n (w_Repository w) (w_Repository (snd (k (w\<lparr>w_Tick := Suc (w_Tick w)\<rparr>))))"
  shows "legal_move view q P n (w_Repository w)
    (w_Repository (snd (poll c (\<lambda>err. case err of Some e \<Rightarrow> return_err e | None \<Rightarrow> k) w)))"
  using assms
  by (auto simp: poll_def return_err_def legal_move_def grows_def repo_evolves.start split: option.splits)

text \<open>
  The sweeps read the records they visit, so their length is known once others have moved before the first
  read, one tick after the start.
\<close>

lemma ReconcilePending_move:
  assumes "others_legal view q co" and "co_Repository co = port"
    and "length (ListOperations (view (en_Others (co_Env co) (Suc (w_Tick w)) (w_Repository w)))) \<le> n"
  shows "legal_move view q (\<lambda>_. True) (Suc (9 * n)) (w_Repository w) (w_Repository (snd (ReconcilePending co c w)))"
  unfolding ReconcilePending_def assms(2)
proof (intro legal_move_poll)
  let ?w = "w\<lparr>w_Tick := Suc (w_Tick w)\<rparr>"
  have "legal_move view q (\<lambda>_. True) (Suc (9 * n)) (w_Repository ?w)
     (w_Repository (snd (read_or_return (co_Env co) c (po_ListOperations port) (\<lambda>ps. reconcile_each co c ps []) ?w)))"
    using assms(3) ListOperations_law unfolding reads_through_def
    by (intro legal_read_at [OF assms(1)] legal_mono [OF legal_reconcile_each [OF assms(1,2)]]) fastforce
  then show "legal_move view q (\<lambda>_. True) (Suc (9 * n)) (w_Repository w)
     (w_Repository (snd (read_or_return (co_Env co) c (po_ListOperations port) (\<lambda>ps. reconcile_each co c ps []) ?w)))"
    by simp
qed

lemma ProcessExpiredLeases_move:
  assumes "others_legal view q co" and "co_Repository co = port"
    and "length (ListSandboxes (view (en_Others (co_Env co) (Suc (w_Tick w)) (w_Repository w)))) \<le> n"
  shows "legal_move view q (\<lambda>_. True) (Suc (Suc (10 * n))) (w_Repository w)
    (w_Repository (snd (ProcessExpiredLeases co c w)))"
  unfolding ProcessExpiredLeases_def assms(2)
proof (intro legal_move_poll)
  let ?w = "w\<lparr>w_Tick := Suc (w_Tick w)\<rparr>"
  let ?k = "\<lambda>sbs. read_or_return (co_Env co) c (po_ListOperations port) (\<lambda>ps. clock_now (co_Env co) (\<lambda>now.
     expire_each co c now sbs
       (map op_SandboxID (filter (\<lambda>p. op_Type p = OperationTerminate \<and> \<not> terminalOperation (op_State p)) ps)) []))"
  have k: "legal view q (\<lambda>_. True) (Suc (10 * n)) (?k sbs)" if "length sbs \<le> n" for sbs
    by (intro legal_read_or_return [OF assms(1) stable_True] legal_clock
        legal_mono [OF legal_expire_each [OF assms(1,2)]]) (use that in simp)
  have "legal_move view q (\<lambda>_. True) (Suc (Suc (10 * n))) (w_Repository ?w)
     (w_Repository (snd (read_or_return (co_Env co) c (po_ListSandboxes port) ?k ?w)))"
    using assms(3) ListSandboxes_law unfolding reads_through_def
    by (intro legal_read_at [OF assms(1)] k) fastforce
  then show "legal_move view q (\<lambda>_. True) (Suc (Suc (10 * n))) (w_Repository w)
     (w_Repository (snd (read_or_return (co_Env co) c (po_ListSandboxes port) ?k ?w)))"
    by simp
qed

end

section \<open>Sequences of calls\<close>

text \<open>
  The calls a coordinator serves, with the number of its accesses to the repository. Between two calls time
  passes and the runtimes of the driver may change in any way.
\<close>

inductive coordinator_call :: "('r \<Rightarrow> State) \<Rightarrow> ('r, 'd) Coordinator \<Rightarrow> nat \<Rightarrow> ('r, 'd) World \<Rightarrow> ('r, 'd) World \<Rightarrow> bool"
  for view co where
  accept_create: "coordinator_call view co 1 w (snd (AcceptCreate co c create w))"
| accept_desired: "coordinator_call view co 3 w (snd (AcceptDesiredState co c i desired w))"
| accept_lease: "coordinator_call view co 3 w (snd (AcceptLease co c i lease maxSeconds w))"
| accept_terminate: "coordinator_call view co 3 w (snd (AcceptTerminate co c i terminate w))"
| reconcile: "coordinator_call view co 8 w (snd (ReconcileOperation co c i w))"
| pending: "length (ListOperations (view (en_Others (co_Env co) (Suc (w_Tick w)) (w_Repository w)))) \<le> n \<Longrightarrow>
    coordinator_call view co (Suc (9 * n)) w (snd (ReconcilePending co c w))"
| expired: "length (ListSandboxes (view (en_Others (co_Env co) (Suc (w_Tick w)) (w_Repository w)))) \<le> n \<Longrightarrow>
    coordinator_call view co (Suc (Suc (10 * n))) w (snd (ProcessExpiredLeases co c w))"
| get_sandbox: "coordinator_call view co 1 w (snd (Coordinator_GetSandbox co c i w))"
| get_operation: "coordinator_call view co 1 w (snd (Coordinator_GetOperation co c i w))"
| read_events: "coordinator_call view co 1 w (snd (Coordinator_ReadEvents co c i after w))"
| elapse: "coordinator_call view co 0 w (w\<lparr>w_Driver := d, w_Tick := t\<rparr>)"

inductive coordinator_runs :: "('r \<Rightarrow> State) \<Rightarrow> ('r, 'd) Coordinator \<Rightarrow> nat \<Rightarrow> ('r, 'd) World \<Rightarrow> ('r, 'd) World \<Rightarrow> bool"
  for view co where
  start: "coordinator_runs view co 0 w w"
| step: "coordinator_runs view co m u v \<Longrightarrow> coordinator_call view co n v w \<Longrightarrow> coordinator_runs view co (m + n) u w"

context lifecycle_repository
begin

lemma coordinator_call_move:
  assumes "coordinator_call view co n w w'" and "others_legal view q co" and "co_Repository co = port"
  shows "legal_move view q (\<lambda>_. True) n (w_Repository w) (w_Repository w')"
  using assms(1)
proof (cases rule: coordinator_call.cases)
  case (reconcile c i)
  then show ?thesis
    using legal_reconcileOperation [OF assms(2,3)] by (simp add: legal_def ReconcileOperation_def)
next
  case (elapse d t)
  then show ?thesis by (simp add: legal_move_def grows_def repo_evolves.start)
qed (use legal_Accept [OF assms(2,3)] legal_reads [OF assms(2)] ReconcilePending_move [OF assms(2,3)] ProcessExpiredLeases_move [OF assms(2,3)]
     in \<open>auto simp: legal_def\<close>)

lemma coordinator_runs_move:
  assumes "coordinator_runs view co n w w'" and "others_legal view q co" and "co_Repository co = port"
    and "repo_inv (view (w_Repository w))" and "room (n * Suc q) (view (w_Repository w))"
  shows "repo_evolves (view (w_Repository w)) (view (w_Repository w')) \<and>
    grows (n * Suc q) (view (w_Repository w)) (view (w_Repository w'))"
  using assms(1,4,5)
proof (induction rule: coordinator_runs.induct)
  case (start w)
  then show ?case by (simp add: grows_def repo_evolves.start)
next
  case (step m u v n w)
  let ?s = "view (w_Repository u)" and ?t = "view (w_Repository v)"
  have num: "(m + n) * Suc q = m * Suc q + n * Suc q" by (rule add_mult_distrib)
  have t: "repo_evolves ?s ?t" "grows (m * Suc q) ?s ?t"
    using step.IH [OF step.prems(1)] room_mono [OF step.prems(2)] num by simp_all
  have "repo_inv ?t" by (rule repo_evolves_inv [OF t(1) step.prems(1)])
  moreover have "room (n * Suc q) ?t" using room_grows [OF step.prems(2) [unfolded num] t(2)] .
  ultimately show ?case
    using coordinator_call_move [OF step.hyps(2) assms(2,3)] t unfolding legal_move_def num
    by (blast intro: repo_evolves_trans grows_trans)
qed

end

text \<open>
  C6. Any sequence of coordinator calls on the file repository (accepting requests, reconciling an
  operation, sweeping pending operations, expiring leases, reading), with any driver and while other callers act
  between any two accesses, moves the repository only along histories of its operations. So its invariant
  holds afterwards, no record is lost and no fence goes back. The event counters must have room for the
  events of the accesses, since a counter that wraps around would break the order of events.
\<close>

theorem coordinator_follows_histories:
  assumes "coordinator_runs file_State co n w w'"
    and "co_Repository co = file_port" and "others_legal file_State q co"
    and "repo_inv (file_State (w_Repository w))" and "room (n * Suc q) (file_State (w_Repository w))"
  shows "repo_evolves (file_State (w_Repository w)) (file_State (w_Repository w')) \<and>
    repo_inv (file_State (w_Repository w')) \<and>
    (\<forall>k. fmget (st_Fencing (file_State (w_Repository w))) k \<le> fmget (st_Fencing (file_State (w_Repository w'))) k)"
proof -
  have e: "repo_evolves (file_State (w_Repository w)) (file_State (w_Repository w'))"
    using file_repo.coordinator_runs_move [OF assms(1,3,2,4,5)] by blast
  then show ?thesis
    using repo_evolves_inv [OF e assms(4)] followsD(4) [OF repo_evolves_follows [OF e assms(4)]] by blast
qed

theorem coordinator_follows_histories_witness:
  "repo_evolves NewState (file_State (w_Repository (snd (ReconcileOperation coordinator1 live ''op1''
     (snd (AcceptCreate coordinator1 live create1 (world1 NewState Fake_New)))))))"
proof -
  let ?w = "world1 NewState Fake_New"
  have "coordinator_runs file_State coordinator1 (0 + 1 + 8) ?w
     (snd (ReconcileOperation coordinator1 live ''op1'' (snd (AcceptCreate coordinator1 live create1 ?w))))"
    by (rule coordinator_runs.step [OF coordinator_runs.step [OF coordinator_runs.start
          coordinator_call.accept_create] coordinator_call.reconcile])
  moreover have "others_legal file_State 0 coordinator1"
    by (simp add: others_legal_def grows_def repo_evolves.start)
  moreover have "room ((0 + 1 + 8) * Suc 0) (file_State (w_Repository ?w))" by (simp add: room_def NewState_def)
  ultimately show ?thesis
    using coordinator_follows_histories [of coordinator1 "0 + 1 + 8" ?w _ 0] repo_inv_NewState
    by (metis coordinator1_fields(1) world1_fields(1))
qed

end
