(* ===== verification/Lifecycle_Outcome.thy ===== *)
theory Lifecycle_Outcome
  imports Lifecycle_Reconcile
begin

text \<open>
  What a reconciliation does to the runtimes: an operation it reports as succeeded has reached its target,
  it touches no runtime but that of its own sandbox, and an accepted operation whose token has been
  superseded never reaches the driver.
\<close>

section \<open>Calls and the driver\<close>

text \<open>Started with a driver in \<open>D\<close>, the call ends with an answer and a driver in \<open>T\<close>.\<close>

definition drives ::
    "('d \<Rightarrow> bool) \<Rightarrow> (('r, 'd) World \<Rightarrow> 'b returns \<times> ('r, 'd) World) \<Rightarrow> ('b returns \<Rightarrow> 'd \<Rightarrow> bool) \<Rightarrow> bool" where
  "drives D m T \<longleftrightarrow> (\<forall>w. D (w_Driver w) \<longrightarrow> T (fst (m w)) (w_Driver (snd (m w))))"

definition tolerates :: "('d \<Rightarrow> bool) \<Rightarrow> ('b returns \<Rightarrow> 'd \<Rightarrow> bool) \<Rightarrow> bool" where
  "tolerates D T \<longleftrightarrow> (\<forall>d x e. D d \<longrightarrow> T (x, Some e) d)"

lemma drives_continue:
  assumes "\<And>w. \<exists>k w'. f w = k w' \<and> w_Driver w' = w_Driver w \<and> drives D k T"
  shows "drives D f T"
  unfolding drives_def using assms unfolding drives_def by metis

lemma drives_return: "(\<And>d. D d \<Longrightarrow> T (Some x, None) d) \<Longrightarrow> drives D (return x) T"
  by (simp add: drives_def return_def)

lemma drives_errors:
  "tolerates D T \<Longrightarrow> drives D (return_err e) T" "tolerates D T \<Longrightarrow> drives D (return_both x e) T"
  by (simp_all add: drives_def return_err_def return_both_def tolerates_def)

lemma drives_or_return:
  "tolerates D T \<Longrightarrow> (\<And>x. r = Inr x \<Longrightarrow> drives D (k x) T) \<Longrightarrow> drives D (or_return r k) T"
  by (cases r) (auto simp: or_return_def [abs_def] intro: drives_errors)

lemma drives_if: "(b \<Longrightarrow> drives D f T) \<Longrightarrow> (\<not> b \<Longrightarrow> drives D g T) \<Longrightarrow> drives D (if b then f else g) T"
  by simp

lemma drives_option:
  "(x = None \<Longrightarrow> drives D f T) \<Longrightarrow> (\<And>y. x = Some y \<Longrightarrow> drives D (g y) T) \<Longrightarrow>
   drives D (case x of None \<Rightarrow> f | Some y \<Rightarrow> g y) T"
  by (cases x) simp_all

lemma drives_sum:
  "(\<And>e. x = Inl e \<Longrightarrow> drives D (f e) T) \<Longrightarrow> (\<And>y. x = Inr y \<Longrightarrow> drives D (g y) T) \<Longrightarrow>
   drives D (case x of Inl e \<Rightarrow> f e | Inr y \<Rightarrow> g y) T"
  by (cases x) simp_all

lemma drives_clock: "(\<And>t. drives D (k t) T) \<Longrightarrow> drives D (clock_now (co_Env co) k) T"
  by (simp add: drives_def clock_now_def)

lemma drives_poll: "(\<And>e. drives D (k e) T) \<Longrightarrow> drives D (poll c k) T"
  by (simp add: drives_def poll_def)

lemma drives_operationContext: "(\<And>oc. drives D (k oc) T) \<Longrightarrow> drives D (operationContext co c t k) T"
  by (simp add: drives_def operationContext_def clock_now_def Let_def)

lemma drives_persistenceContext: "(\<And>oc. drives D (k oc) T) \<Longrightarrow> drives D (persistenceContext co k) T"
  by (simp add: drives_def persistenceContext_def)

lemma drives_write: "(\<And>x. drives D (k x) T) \<Longrightarrow> drives D (repo_write (co_Env co) c method k) T"
  by (simp add: drives_def repo_write_def split: prod.split)

lemma drives_access:
  "tolerates D T \<Longrightarrow> (\<And>x. drives D (k x) T) \<Longrightarrow> drives D (write_or_return (co_Env co) c write k) T"
  "tolerates D T \<Longrightarrow> (\<And>x. drives D (k x) T) \<Longrightarrow> drives D (read_or_return (co_Env co) c read k) T"
  unfolding write_or_return_def read_or_return_def repo_read_def
  by (intro drives_write drives_or_return; simp)+

lemma drives_records:
  "tolerates D T \<Longrightarrow> drives D k T \<Longrightarrow> drives D (update_sandbox co c sb g t k) T"
  "tolerates D T \<Longrightarrow> drives D k T \<Longrightarrow> drives D (update_operation co c p k) T"
  "tolerates D T \<Longrightarrow> drives D k T \<Longrightarrow> drives D (append_event co c p sb kind now k) T"
  unfolding update_sandbox_def update_operation_def append_event_def by (rule drives_access; simp)+

lemma drives_call:
  assumes "\<And>c d x d'. D d \<Longrightarrow> method c d = (x, d') \<Longrightarrow> D' x d'" and "\<And>x. drives (D' x) (k x) T"
  shows "drives D (driver_call c method k) T"
  using assms unfolding drives_def driver_call_def by (fastforce split: prod.split)

lemmas drives_structure = drives_clock drives_poll drives_or_return drives_operationContext
  drives_persistenceContext drives_records drives_option drives_sum drives_if drives_errors

section \<open>Recording outcomes leaves the driver alone\<close>

text \<open>Failures are reported as errors; the other records may report success.\<close>

lemma drives_failures:
  assumes "tolerates D T"
  shows "drives D (failBeforeDispatch co p sb code cause) T"
    and "drives D (record_failure co wc p sb code cause) T"
    and "drives D (markKnownFailure co p sb code cause) T"
  unfolding failBeforeDispatch_def record_failure_def markKnownFailure_def
  by (intro drives_structure assms)+

lemma drives_markUnknownWithDispatch:
  assumes "tolerates D T" and "\<And>d. D d \<Longrightarrow> T (Some \<lparr>rs_Operation = p, rs_Sandbox = sb, rs_Dispatched = False\<rparr>, None) d"
  shows "drives D (markUnknownWithDispatch co p sb code cause dispatched) T"
  unfolding markUnknownWithDispatch_def by (intro drives_structure drives_return assms)

lemma drives_markUnknown:
  assumes "tolerates D T" and "\<And>d. D d \<Longrightarrow> T (Some \<lparr>rs_Operation = p, rs_Sandbox = sb, rs_Dispatched = False\<rparr>, None) d"
  shows "drives D (markUnknown co p sb code cause) T"
  unfolding markUnknown_def by (rule drives_markUnknownWithDispatch [OF assms])

text \<open>The result is about the same operation and sandbox.\<close>

definition continues :: "Operation \<Rightarrow> Sandbox \<Rightarrow> Result \<Rightarrow> bool" where
  "continues p sb x \<longleftrightarrow> op_ID (rs_Operation x) = op_ID p \<and> op_Type (rs_Operation x) = op_Type p \<and>
     sb_ID (rs_Sandbox x) = sb_ID sb"

lemma transition_continues:
  "ApplyObservedTransition sb n g t = Inr sb' \<Longrightarrow> sb_ID sb' = sb_ID sb"
  "SucceedOperation p t = Inr p' \<Longrightarrow> op_ID p' = op_ID p \<and> op_Type p' = op_Type p"
  "BeginOperation p t = Inr p' \<Longrightarrow> op_ID p' = op_ID p \<and> op_Type p' = op_Type p"
  "BeginOperation p t = Inr p' \<Longrightarrow> op_State p' = OperationRunning \<and> op_Deadline p' = op_Deadline p"
  by (auto simp: ApplyObservedTransition_Inr SucceedOperation_def BeginOperation_def transitionOperation_Inr
      split: if_splits)

lemma drives_successes:
  assumes "tolerates D T" and "\<And>d x. D d \<Longrightarrow> continues p sb x \<Longrightarrow> T (Some x, None) d"
  shows "drives D (markReady co p sb dispatched) T"
    and "drives D (markSandboxReady co p sb) T"
    and "drives D (complete_lease co wc p sb) T"
    and "drives D (reach_target co p sb observed kind dispatched) T"
    and "drives D (markDesiredTarget co p sb target dispatched) T"
    and "drives D (markTerminated co p sb dispatched) T"
  unfolding markReady_def markSandboxReady_def complete_lease_def reach_target_def Let_def markDesiredTarget_def
    markTerminated_def
  by (intro drives_structure drives_return assms;
      use transition_continues in \<open>fastforce simp: continues_def\<close>)+

section \<open>Success means the target was reached\<close>

definition target_reached :: "OperationType \<Rightarrow> RuntimeState \<Rightarrow> bool" where
  "target_reached t s =
     (case t of
        OperationCreate \<Rightarrow> s = RuntimeReady
      | OperationResume \<Rightarrow> s = RuntimeReady
      | OperationSuspend \<Rightarrow> s = RuntimeSuspended
      | OperationTerminate \<Rightarrow> s = RuntimeAbsent
      | _ \<Rightarrow> True)"

definition sound_success :: "('d \<Rightarrow> string \<Rightarrow> RuntimeState) \<Rightarrow> Result returns \<Rightarrow> 'd \<Rightarrow> bool" where
  "sound_success observe res d \<longleftrightarrow>
     (\<forall>x. res = (Some x, None) \<longrightarrow> op_State (rs_Operation x) = OperationSucceeded \<longrightarrow>
        target_reached (op_Type (rs_Operation x)) (observe d (sb_ID (rs_Sandbox x))))"

lemma tolerates_sound [intro, simp]: "tolerates D (sound_success observe)"
  by (simp add: tolerates_def sound_success_def)

lemma sound_pending [simp]:
  "op_State p \<noteq> OperationSucceeded \<Longrightarrow>
   sound_success observe (Some \<lparr>rs_Operation = p, rs_Sandbox = sb, rs_Dispatched = b\<rparr>, None) d"
  by (simp add: sound_success_def)

lemma sound_target:
  "continues p sb x \<Longrightarrow> target_reached (op_Type p) (observe d (sb_ID sb)) \<Longrightarrow> sound_success observe (Some x, None) d"
  by (simp add: sound_success_def continues_def)

text \<open>A call, on an operation that is not finished, that reports success only truthfully.\<close>

abbreviation (input) truthful where
  "truthful observe m \<equiv> drives (\<lambda>_. True) m (sound_success observe)"

context runtime_driver
begin

lemma drives_inspect:
  assumes "co_Driver co = driver" and "\<And>e. drives D (k (Inl e)) T"
    and "\<And>state. drives (\<lambda>d. observe d i = state) (k (Inr state)) T" and "\<And>d. D d"
  shows "drives D (driver_call c (\<lambda>c. dv_Inspect (co_Driver co) c i) k) T"
proof (rule drives_call [where D' = "\<lambda>x d. \<forall>state. x = Inr state \<longrightarrow> observe d i = state"])
  show "drives (\<lambda>d. \<forall>state. x = Inr state \<longrightarrow> observe d i = state) (k x) T" for x
    using assms(2,3,4) by (cases x) (simp_all add: drives_def)
qed (use inspect_law assms(1) in auto)

lemma truthful_dispatchCreate:
  assumes "co_Driver co = driver" and "op_State p \<noteq> OperationSucceeded" and "op_Type p = OperationCreate"
  shows "truthful observe (dispatchCreate co c p sb)"
proof -
  have create: "truthful observe (driver_call oc (\<lambda>c. dv_Create (co_Driver co) c provisioning) (\<lambda>derr. case derr of
        Some err \<Rightarrow> if unknown_outcome err then markUnknown co p' provisioning ''runtime_create_unknown'' err
          else markKnownFailure co p' provisioning ''runtime_create_failed'' err
      | None \<Rightarrow> markReady co p' provisioning True))"
    if "BeginOperation p now = Inr p'" for oc now provisioning p'
  proof (rule drives_call [where D' = "\<lambda>derr d. derr = None \<longrightarrow> observe d (sb_ID provisioning) = RuntimeReady"])
    note ids = transition_continues(3,4) [OF that]
    show "drives (\<lambda>d. derr = None \<longrightarrow> observe d (sb_ID provisioning) = RuntimeReady)
       (case derr of
          Some err \<Rightarrow> if unknown_outcome err then markUnknown co p' provisioning ''runtime_create_unknown'' err
            else markKnownFailure co p' provisioning ''runtime_create_failed'' err
        | None \<Rightarrow> markReady co p' provisioning True) (sound_success observe)" for derr
      using ids assms(3)
      by (intro drives_option drives_if drives_markUnknown drives_failures drives_successes tolerates_sound)
        (simp_all add: target_reached_def sound_success_def continues_def)
  qed (use create_law assms(1) in auto)
  show ?thesis
    unfolding dispatchCreate_def
    by (intro drives_structure drives_failures drives_markUnknownWithDispatch tolerates_sound create; assumption?)
      (use transition_continues(4) in fastforce)
qed

lemma truthful_reconcileCreate:
  assumes "co_Driver co = driver" and "op_State p \<noteq> OperationSucceeded" and "op_Type p = OperationCreate"
  shows "truthful observe (reconcileCreate co c p sb)"
proof -
  have "drives (\<lambda>d. observe d (sb_ID sb) = state)
     (case state of
        RuntimeReady \<Rightarrow> if op_State p = OperationOutcomeUnknown then markSandboxReady co p sb else markReady co p sb False
      | RuntimeAbsent \<Rightarrow>
          if op_State p = OperationOutcomeUnknown
          then return \<lparr>rs_Operation = p, rs_Sandbox = sb, rs_Dispatched = False\<rparr>
          else markKnownFailure co p sb ''runtime_absent'' [ErrOther]
      | RuntimeProvisioning \<Rightarrow> return \<lparr>rs_Operation = p, rs_Sandbox = sb, rs_Dispatched = False\<rparr>
      | _ \<Rightarrow> markUnknown co p sb ''invalid_runtime_observation'' [ErrUnknownRuntime]) (sound_success observe)" for state
    using assms(2,3)
    by (cases state)
      (auto intro!: drives_return drives_markUnknown drives_failures drives_successes
        simp: target_reached_def sound_success_def continues_def)
  note observed = this
  show ?thesis
    unfolding reconcileCreate_def
    by (intro drives_operationContext drives_poll drives_option drives_inspect [OF assms(1)];
        (unfold sum.case)?; (intro drives_markUnknown observed tolerates_sound)?)
      (use assms(2) in simp_all)
qed

lemma truthful_reconcileLease:
  assumes "op_State p \<noteq> OperationSucceeded" and "op_Type p = OperationExtendLease"
  shows "truthful observe (reconcileLease co p sb)"
  unfolding reconcileLease_def
  by (intro drives_structure drives_return drives_failures drives_successes tolerates_sound)
    (use assms in \<open>auto simp: sound_success_def target_reached_def continues_def dest: transition_continues\<close>)

text \<open>Suspend, resume and terminate alike inspect, act and confirm by a second inspection.\<close>

lemma truthful_confirmed:
  assumes "co_Driver co = driver" and "op_State p \<noteq> OperationSucceeded"
    and reach: "\<And>b. drives (\<lambda>d. observe d (sb_ID sb) = target) (reach b) (sound_success observe)"
    and fail: "\<And>err. truthful observe (failed err)"
  shows "truthful observe (operationContext co c deadline (\<lambda>oc.
     driver_call oc (\<lambda>c. dv_Inspect (co_Driver co) c (sb_ID sb)) (\<lambda>observed. case observed of
         Inl err \<Rightarrow> markUnknown co p sb code err
       | Inr state \<Rightarrow>
         if state = target then reach False
         else if op_State p = OperationOutcomeUnknown
         then return \<lparr>rs_Operation = p, rs_Sandbox = sb, rs_Dispatched = False\<rparr>
         else driver_call oc (\<lambda>c. action c (sb_ID sb)) (\<lambda>aerr. case aerr of
           Some err \<Rightarrow> failed err
         | None \<Rightarrow>
           driver_call oc (\<lambda>c. dv_Inspect (co_Driver co) c (sb_ID sb)) (\<lambda>confirmed. case confirmed of
             Inl err \<Rightarrow> markUnknown co p sb code' (ErrUnknownRuntime # err)
           | Inr state' \<Rightarrow>
               if state' \<noteq> target then markUnknown co p sb code' [ErrUnknownRuntime] else reach True)))))"
proof -
  have unknown: "drives D (markUnknown co p sb code' err) (sound_success observe)" for D code' err
    using assms(2) by (intro drives_markUnknown) simp_all
  have pending: "drives D (return \<lparr>rs_Operation = p, rs_Sandbox = sb, rs_Dispatched = False\<rparr>) (sound_success observe)"
    for D using assms(2) by (intro drives_return) simp
  have confirm: "drives D (driver_call oc (\<lambda>c. dv_Inspect (co_Driver co) c (sb_ID sb)) (\<lambda>confirmed. case confirmed of
       Inl err \<Rightarrow> markUnknown co p sb code' (ErrUnknownRuntime # err)
     | Inr state' \<Rightarrow> if state' \<noteq> target then markUnknown co p sb code' [ErrUnknownRuntime] else reach True))
     (sound_success observe)" if "D = (\<lambda>_. True)" for D oc
    using reach unfolding that by (intro drives_inspect [OF assms(1)]) (auto intro!: unknown)
  have act: "drives D (driver_call oc (\<lambda>c. action c (sb_ID sb)) (\<lambda>aerr. case aerr of
         Some err \<Rightarrow> failed err
       | None \<Rightarrow>
         driver_call oc (\<lambda>c. dv_Inspect (co_Driver co) c (sb_ID sb)) (\<lambda>confirmed. case confirmed of
           Inl err \<Rightarrow> markUnknown co p sb code' (ErrUnknownRuntime # err)
         | Inr state' \<Rightarrow>
             if state' \<noteq> target then markUnknown co p sb code' [ErrUnknownRuntime] else reach True)))
     (sound_success observe)" for D oc
    by (rule drives_call [where D' = "\<lambda>_ _. True"]) (simp, intro drives_option fail confirm refl)
  show ?thesis
    by (intro drives_operationContext drives_inspect [OF assms(1)])
      (use reach in \<open>auto intro!: unknown pending act\<close>)
qed

lemma truthful_drive_desired_state:
  assumes "co_Driver co = driver" and "op_State p \<noteq> OperationSucceeded"
    and "target_reached (op_Type p) target"
  shows "truthful observe (drive_desired_state co c p sb target action)"
  unfolding drive_desired_state_def
  by (intro truthful_confirmed assms(1,2) drives_successes drives_if drives_markUnknown drives_failures tolerates_sound)
    (use assms(2,3) sound_target in auto)

lemma truthful_drive_terminate:
  assumes "co_Driver co = driver" and "op_State p \<noteq> OperationSucceeded" and "op_Type p = OperationTerminate"
  shows "truthful observe (drive_terminate co c p sb remove)"
  unfolding drive_terminate_def
  by (intro truthful_confirmed assms(1,2) drives_successes drives_markUnknown tolerates_sound)
    (use assms(2,3) in \<open>auto simp: sound_success_def continues_def target_reached_def\<close>)

lemma desired_target:
  "desiredRuntimeAction dr t = Inr (target, mid, action) \<Longrightarrow> target_reached t target"
  by (auto simp: desiredRuntimeAction_def target_reached_def split: option.splits OperationType.splits)

lemma truthful_reconcileDesiredState:
  assumes "co_Driver co = driver" and "op_State p \<noteq> OperationSucceeded"
  shows "truthful observe (reconcileDesiredState co c p sb)"
proof (cases "desiredRuntimeAction (co_Driver co) (op_Type p)")
  case (Inl err)
  then show ?thesis
    unfolding reconcileDesiredState_def by (auto intro!: drives_errors drives_failures)
next
  case (Inr y)
  obtain target mid action where y: "y = (target, mid, action)" by (cases y)
  note reached = desired_target [OF Inr [unfolded y]]
  show ?thesis
    unfolding reconcileDesiredState_def Inr y sum.case prod.case
    by (intro drives_structure drives_failures truthful_drive_desired_state tolerates_sound assms)
      (use reached assms(2) transition_continues(3,4) in fastforce)+
qed

lemma truthful_reconcileTerminate:
  assumes "co_Driver co = driver" and "op_State p \<noteq> OperationSucceeded" and "op_Type p = OperationTerminate"
  shows "truthful observe (reconcileTerminate co c p sb)"
  unfolding reconcileTerminate_def
  by (intro drives_structure drives_failures truthful_drive_terminate tolerates_sound assms)
    (use assms(2,3) transition_continues(3,4) in fastforce)+

lemma truthful_dispatch:
  assumes "co_Driver co = driver" and "\<not> terminalOperation (op_State p)"
  shows "truthful observe
     (case op_Type p of
        OperationCreate \<Rightarrow>
          (case op_State p of
             OperationAccepted \<Rightarrow> dispatchCreate co c p sb
           | OperationRunning \<Rightarrow> reconcileCreate co c p sb
           | OperationOutcomeUnknown \<Rightarrow> reconcileCreate co c p sb
           | _ \<Rightarrow> return_err [ErrInvalidCoordinator])
      | OperationExtendLease \<Rightarrow> reconcileLease co p sb
      | OperationSuspend \<Rightarrow> reconcileDesiredState co c p sb
      | OperationResume \<Rightarrow> reconcileDesiredState co c p sb
      | OperationTerminate \<Rightarrow> reconcileTerminate co c p sb
      | OperationTypeUnknown _ \<Rightarrow> return_err [ErrInvalidCoordinator])"
proof -
  have st: "op_State p \<noteq> OperationSucceeded" using assms(2) by (auto simp: terminalOperation_def)
  show ?thesis
    using truthful_dispatchCreate [OF assms(1) st] truthful_reconcileCreate [OF assms(1) st]
      truthful_reconcileLease [OF st] truthful_reconcileDesiredState [OF assms(1) st]
      truthful_reconcileTerminate [OF assms(1) st]
    by (cases "op_Type p"; cases "op_State p") (simp_all add: drives_errors)
qed

end

section \<open>Only the runtime of the operation's sandbox is touched\<close>

definition away :: "('d \<Rightarrow> string \<Rightarrow> RuntimeState) \<Rightarrow> string \<Rightarrow> (string \<Rightarrow> RuntimeState) \<Rightarrow> 'd \<Rightarrow> bool" where
  "away observe i base d \<longleftrightarrow> (\<forall>j. j \<noteq> i \<longrightarrow> observe d j = base j)"

lemma tolerates_away [simp]: "tolerates D (\<lambda>_. D)"
  by (simp add: tolerates_def)

lemma away_confined: "confined observe i call \<Longrightarrow> away observe i base d \<Longrightarrow> call d = (x, d') \<Longrightarrow> away observe i base d'"
  by (auto simp: away_def confined_def)

text \<open>A call that keeps to the runtime \<open>i\<close>.\<close>

abbreviation (input) keeps_to where
  "keeps_to observe i base m \<equiv> drives (away observe i base) m (\<lambda>_. away observe i base)"

lemmas drives_marks = drives_failures drives_successes drives_markUnknown drives_markUnknownWithDispatch

lemma drives_confined:
  assumes "\<And>c. confined observe i (method c)" and "\<And>x. keeps_to observe i base (k x)"
  shows "keeps_to observe i base (driver_call c method k)"
  by (rule drives_call [where D' = "\<lambda>_. away observe i base"])
    (erule away_confined [OF assms(1)], assumption, rule assms(2))

context runtime_driver
begin

lemmas keeps_rules = drives_structure drives_return drives_marks tolerates_away drives_confined

lemma keeps_create:
  assumes "co_Driver co = driver"
  shows "keeps_to observe (sb_ID sb) base (dispatchCreate co c p sb)"
    and "keeps_to observe (sb_ID sb) base (reconcileCreate co c p sb)"
proof -
  have create: "confined observe (sb_ID sb) (dv_Create driver c sb')"
    if "ApplyObservedTransition sb n g t = Inr sb'" for sb' n g t c
    using create_confined [of sb' c] transition_continues(1) [OF that] by simp
  show "keeps_to observe (sb_ID sb) base (dispatchCreate co c p sb)"
    unfolding dispatchCreate_def assms by (intro keeps_rules create; assumption)
  have "keeps_to observe (sb_ID sb) base
     (case state of
        RuntimeReady \<Rightarrow> if op_State p = OperationOutcomeUnknown then markSandboxReady co p sb else markReady co p sb False
      | RuntimeAbsent \<Rightarrow>
          if op_State p = OperationOutcomeUnknown
          then return \<lparr>rs_Operation = p, rs_Sandbox = sb, rs_Dispatched = False\<rparr>
          else markKnownFailure co p sb ''runtime_absent'' [ErrOther]
      | RuntimeProvisioning \<Rightarrow> return \<lparr>rs_Operation = p, rs_Sandbox = sb, rs_Dispatched = False\<rparr>
      | _ \<Rightarrow> markUnknown co p sb ''invalid_runtime_observation'' [ErrUnknownRuntime])" for state
    by (cases state) (auto intro!: drives_marks drives_return)
  then show "keeps_to observe (sb_ID sb) base (reconcileCreate co c p sb)"
    unfolding reconcileCreate_def assms by (intro keeps_rules inspect_confined; assumption?)
qed

lemma keeps_reconcileLease: "keeps_to observe i base (reconcileLease co p sb)"
  unfolding reconcileLease_def by (intro keeps_rules; assumption)

lemma keeps_drive_desired_state:
  assumes "co_Driver co = driver" and "\<And>c. confined observe (sb_ID sb) (action c (sb_ID sb))"
  shows "keeps_to observe (sb_ID sb) base (drive_desired_state co c p sb target action)"
  unfolding drive_desired_state_def assms(1) by (intro keeps_rules inspect_confined assms(2); assumption)

lemma keeps_drive_terminate:
  assumes "co_Driver co = driver" and "\<And>c. confined observe (sb_ID sb) (remove c (sb_ID sb))"
  shows "keeps_to observe (sb_ID sb) base (drive_terminate co c p sb remove)"
  unfolding drive_terminate_def assms(1) by (intro keeps_rules inspect_confined assms(2); assumption)

lemma desired_confined:
  "desiredRuntimeAction driver t = Inr (target, mid, action) \<Longrightarrow> confined observe i (action c i)"
  using suspend_confined resume_confined
  by (auto simp: desiredRuntimeAction_def split: option.splits OperationType.splits)

lemma keeps_reconcileDesiredState:
  assumes "co_Driver co = driver"
  shows "keeps_to observe (sb_ID sb) base (reconcileDesiredState co c p sb)"
proof (cases "desiredRuntimeAction driver (op_Type p)")
  case (Inl err)
  then show ?thesis
    unfolding reconcileDesiredState_def assms by (auto intro!: drives_errors drives_marks)
next
  case (Inr y)
  obtain target mid action where y: "y = (target, mid, action)" by (cases y)
  have drive: "keeps_to observe (sb_ID sb) base (drive_desired_state co c p' sb' target action)"
    if "sb_ID sb' = sb_ID sb" for p' sb'
    using keeps_drive_desired_state [OF assms, of sb' action] desired_confined [OF Inr [unfolded y]] that by simp
  show ?thesis
    unfolding reconcileDesiredState_def assms Inr y sum.case prod.case
    by (intro drives_structure drives_marks tolerates_away drive) (auto dest: transition_continues(1))
qed

lemma keeps_reconcileTerminate:
  assumes "co_Driver co = driver"
  shows "keeps_to observe (sb_ID sb) base (reconcileTerminate co c p sb)"
proof (cases "dv_OrphanCleaner driver")
  case None
  then show ?thesis
    unfolding reconcileTerminate_def assms by (auto intro!: drives_errors drives_marks)
next
  case (Some remove)
  have drive: "keeps_to observe (sb_ID sb) base (drive_terminate co c p' sb' remove)"
    if "sb_ID sb' = sb_ID sb" for p' sb'
    using keeps_drive_terminate [OF assms, of sb' remove] remove_confined [OF Some] that by simp
  show ?thesis
    unfolding reconcileTerminate_def assms Some option.case
    by (intro drives_structure drives_marks tolerates_away drive) (auto dest: transition_continues(1))
qed

lemma keeps_dispatch:
  assumes "co_Driver co = driver"
  shows "keeps_to observe (sb_ID sb) base
     (case op_Type p of
        OperationCreate \<Rightarrow>
          (case op_State p of
             OperationAccepted \<Rightarrow> dispatchCreate co c p sb
           | OperationRunning \<Rightarrow> reconcileCreate co c p sb
           | OperationOutcomeUnknown \<Rightarrow> reconcileCreate co c p sb
           | _ \<Rightarrow> return_err [ErrInvalidCoordinator])
      | OperationExtendLease \<Rightarrow> reconcileLease co p sb
      | OperationSuspend \<Rightarrow> reconcileDesiredState co c p sb
      | OperationResume \<Rightarrow> reconcileDesiredState co c p sb
      | OperationTerminate \<Rightarrow> reconcileTerminate co c p sb
      | OperationTypeUnknown _ \<Rightarrow> return_err [ErrInvalidCoordinator])"
  using keeps_create [OF assms] keeps_reconcileLease keeps_reconcileDesiredState [OF assms]
    keeps_reconcileTerminate [OF assms]
  by (cases "op_Type p"; cases "op_State p") (simp_all add: drives_errors)

end

section \<open>The records a reconciliation reads\<close>

text \<open>The repository when a reconciliation reads its operation, and when it reads its sandbox.\<close>

definition at_operation :: "('r, 'd) Coordinator \<Rightarrow> ('r, 'd) World \<Rightarrow> 'r" where
  "at_operation co w = en_Others (co_Env co) (Suc (w_Tick w)) (w_Repository w)"

definition at_sandbox :: "('r, 'd) Coordinator \<Rightarrow> ('r, 'd) World \<Rightarrow> 'r" where
  "at_sandbox co w = en_Others (co_Env co) (6 + w_Tick w) (at_operation co w)"

text \<open>The dispatch by type and state of \<^verbatim>\<open>reconcileOperation\<close>.\<close>

abbreviation (input) dispatch where
  "dispatch co c p sb \<equiv>
     (case op_Type p of
        OperationCreate \<Rightarrow>
          (case op_State p of
             OperationAccepted \<Rightarrow> dispatchCreate co c p sb
           | OperationRunning \<Rightarrow> reconcileCreate co c p sb
           | OperationOutcomeUnknown \<Rightarrow> reconcileCreate co c p sb
           | _ \<Rightarrow> return_err [ErrInvalidCoordinator])
      | OperationExtendLease \<Rightarrow> reconcileLease co p sb
      | OperationSuspend \<Rightarrow> reconcileDesiredState co c p sb
      | OperationResume \<Rightarrow> reconcileDesiredState co c p sb
      | OperationTerminate \<Rightarrow> reconcileTerminate co c p sb
      | OperationTypeUnknown _ \<Rightarrow> return_err [ErrInvalidCoordinator])"

context lifecycle_repository
begin

lemma read_cases:
  assumes "reads_through view f (method (from_now (w_Tick w) c))"
  obtains (failed) e where
      "read_or_return (co_Env co) c method k w = ((None, Some e),
         w\<lparr>w_Repository := en_Others (co_Env co) (w_Tick w) (w_Repository w), w_Tick := w_Tick w + 5\<rparr>)"
  | (got) x where "f (view (en_Others (co_Env co) (w_Tick w) (w_Repository w))) = Inr x"
      "read_or_return (co_Env co) c method k w =
         k x (w\<lparr>w_Repository := en_Others (co_Env co) (w_Tick w) (w_Repository w), w_Tick := w_Tick w + 5\<rparr>)"
proof (cases "method (from_now (w_Tick w) c) (en_Others (co_Env co) (w_Tick w) (w_Repository w))")
  case (Inl e)
  then show ?thesis
    by (intro failed) (simp add: read_or_return_def repo_read_def repo_write_def or_return_def return_err_def)
next
  case (Inr x)
  then show ?thesis
    using assms
    by (intro got) (auto simp: read_or_return_def repo_read_def repo_write_def or_return_def reads_through_def)
qed

text \<open>
  A reconciliation ends without touching the driver, or it reads its operation, then its sandbox, and
  dispatches on the operation.
\<close>

lemma reconcileOperation_cases:
  fixes w :: "('r, 'd) World"
  assumes "co_Repository co = port"
  obtains (failed) e r n where "r \<in> {w_Repository w, at_operation co w, at_sandbox co w}"
      "reconcileOperation co c i w = ((None, Some e), w\<lparr>w_Repository := r, w_Tick := n\<rparr>)"
  | (finished) p sb r n where "fmlookup (st_Operations (view (at_operation co w))) i = Some p" "terminalOperation (op_State p)"
      "reconcileOperation co c i w = ((Some \<lparr>rs_Operation = p, rs_Sandbox = sb, rs_Dispatched = False\<rparr>, None),
         w\<lparr>w_Repository := r, w_Tick := n\<rparr>)"
  | (dispatched) p sb where "fmlookup (st_Operations (view (at_operation co w))) i = Some p" "\<not> terminalOperation (op_State p)"
      "fmlookup (st_Sandboxes (view (at_sandbox co w))) (op_SandboxID p) = Some sb"
      "reconcileOperation co c i w = dispatch co c p sb (w\<lparr>w_Repository := at_sandbox co w, w_Tick := 11 + w_Tick w\<rparr>)"
proof (cases "contextError c (w_Tick w)")
  case (Some e)
  then show ?thesis
    by (intro failed [where e = e and r = "w_Repository w" and n = "Suc (w_Tick w)"])
      (simp, cases w, simp add: reconcileOperation_def poll_def return_err_def)
next
  case None
  let ?k2 = "\<lambda>p sb. if terminalOperation (op_State p)
    then return \<lparr>rs_Operation = p, rs_Sandbox = sb, rs_Dispatched = False\<rparr> else dispatch co c p sb"
  let ?k1 = "\<lambda>p. read_or_return (co_Env co) c (\<lambda>c. po_GetSandbox port c (op_SandboxID p)) (?k2 p)"
  let ?w0 = "w\<lparr>w_Tick := Suc (w_Tick w)\<rparr>"
  have run: "reconcileOperation co c i w = read_or_return (co_Env co) c (\<lambda>c. po_GetOperation port c i) ?k1 ?w0"
    using None by (simp add: reconcileOperation_def poll_def assms(1))
  show ?thesis
  proof (rule read_cases [OF GetOperation_law, where w = ?w0 and c = c and co = co and k = ?k1])
    fix e
    assume "read_or_return (co_Env co) c (\<lambda>c. po_GetOperation port c i) ?k1 ?w0 = ((None, Some e),
      ?w0\<lparr>w_Repository := en_Others (co_Env co) (w_Tick ?w0) (w_Repository ?w0), w_Tick := w_Tick ?w0 + 5\<rparr>)"
    then show thesis using run by (intro failed [where r = "at_operation co w"]) (simp_all add: at_operation_def)
  next
    fix p
    let ?w1 = "?w0\<lparr>w_Repository := en_Others (co_Env co) (w_Tick ?w0) (w_Repository ?w0), w_Tick := w_Tick ?w0 + 5\<rparr>"
    assume "GetOperation i (view (en_Others (co_Env co) (w_Tick ?w0) (w_Repository ?w0))) = Inr p"
      and run1: "read_or_return (co_Env co) c (\<lambda>c. po_GetOperation port c i) ?k1 ?w0 = ?k1 p ?w1"
    then have p: "fmlookup (st_Operations (view (at_operation co w))) i = Some p"
      by (auto simp: GetOperation_def at_operation_def split: option.splits)
    show thesis
    proof (rule read_cases [OF GetSandbox_law, where w = ?w1 and c = c and co = co and k = "?k2 p"])
      fix e
      assume "?k1 p ?w1 = ((None, Some e),
        ?w1\<lparr>w_Repository := en_Others (co_Env co) (w_Tick ?w1) (w_Repository ?w1), w_Tick := w_Tick ?w1 + 5\<rparr>)"
      then show thesis using run run1 by (intro failed [where r = "at_sandbox co w"]) (simp_all add: at_operation_def at_sandbox_def)
    next
      fix sb
      let ?w2 = "?w1\<lparr>w_Repository := en_Others (co_Env co) (w_Tick ?w1) (w_Repository ?w1), w_Tick := w_Tick ?w1 + 5\<rparr>"
      assume "GetSandbox (op_SandboxID p) (view (en_Others (co_Env co) (w_Tick ?w1) (w_Repository ?w1))) = Inr sb"
        and run2: "?k1 p ?w1 = ?k2 p sb ?w2"
      then have sb: "fmlookup (st_Sandboxes (view (at_sandbox co w))) (op_SandboxID p) = Some sb"
        by (auto simp: GetSandbox_def at_operation_def at_sandbox_def split: option.splits)
      have w2: "?w2 = w\<lparr>w_Repository := at_sandbox co w, w_Tick := 11 + w_Tick w\<rparr>" by (simp add: at_operation_def at_sandbox_def)
      show thesis
        using p sb run run1 run2 unfolding w2
        by (cases "terminalOperation (op_State p)") (intro finished, auto simp: return_def intro: dispatched)
    qed
  qed
qed

end

text \<open>
  C4. On any driver that keeps its contract, an operation that a reconciliation reports as succeeded was
  already recorded as succeeded when the call read it, or its runtime is in the state the operation asked
  for when the call returns: ready after a create or a resume, suspended after a suspend, absent after a
  terminate.
\<close>

theorem success_means_reached:
  assumes "runtime_driver (co_Driver co) observe" and "co_Repository co = file_port"
    and "ReconcileOperation co c i w = ((Some x, None), w')"
    and "op_State (rs_Operation x) = OperationSucceeded"
  shows "fmlookup (st_Operations (file_State (at_operation co w))) i = Some (rs_Operation x) \<or>
    target_reached (op_Type (rs_Operation x)) (observe (w_Driver w') (sb_ID (rs_Sandbox x)))"
proof -
  note run = assms(3) [unfolded ReconcileOperation_def]
  show ?thesis
    using assms(2)
  proof (cases rule: file_repo.reconcileOperation_cases [where w = w and c = c and i = i])
    case (dispatched p sb)
    let ?w = "w\<lparr>w_Repository := at_sandbox co w, w_Tick := 11 + w_Tick w\<rparr>"
    have "sound_success observe (fst (dispatch co c p sb ?w)) (w_Driver (snd (dispatch co c p sb ?w)))"
      using runtime_driver.truthful_dispatch [OF assms(1) refl dispatched(2), of c sb] unfolding drives_def by blast
    moreover have "dispatch co c p sb ?w = ((Some x, None), w')" using dispatched(4) run by simp
    ultimately show ?thesis using assms(4) by (simp add: sound_success_def)
  qed (use run in auto)
qed

text \<open>
  C14. On any driver that keeps its contract, reconciling an operation leaves the runtime of every sandbox
  but the operation's own as it was, whatever fails on the way.
\<close>

theorem reconcile_touches_own_runtime:
  assumes "runtime_driver (co_Driver co) observe" and "co_Repository co = file_port"
    and "\<And>n r. repo_inv (file_State r) \<Longrightarrow> repo_inv (file_State (en_Others (co_Env co) n r))"
    and "repo_inv (file_State (w_Repository w))"
    and "\<And>p. fmlookup (st_Operations (file_State (at_operation co w))) i = Some p \<Longrightarrow>
      op_SandboxID p \<noteq> j"
  shows "observe (w_Driver (snd (ReconcileOperation co c i w))) j = observe (w_Driver w) j"
  unfolding ReconcileOperation_def using assms(2)
proof (cases rule: file_repo.reconcileOperation_cases [where w = w and c = c and i = i])
  case (dispatched p sb)
  let ?w = "w\<lparr>w_Repository := at_sandbox co w, w_Tick := 11 + w_Tick w\<rparr>"
  have "repo_inv (file_State (at_sandbox co w))" unfolding at_sandbox_def at_operation_def by (intro assms(3,4))
  then have "sb_ID sb \<noteq> j"
    using dispatched(1,3) assms(5) by (auto simp: repo_inv_def inv_sandboxes_def)
  moreover have "away observe (sb_ID sb) (observe (w_Driver w)) (w_Driver (snd (dispatch co c p sb ?w)))"
    using runtime_driver.keeps_dispatch [OF assms(1) refl, of sb "observe (w_Driver w)" c p]
    unfolding drives_def by (simp add: away_def)
  ultimately show "observe (w_Driver (snd (reconcileOperation co c i w))) j = observe (w_Driver w) j"
    unfolding dispatched(4) away_def by metis
qed simp_all

theorem reconcile_touches_own_runtime_witness:
  "fake_observe (w_Driver (snd (ReconcileOperation coordinator1 live ''op1''
     (world1 state1 (Some (fmupd ''other'' RuntimeSuspended fmempty)))))) ''other'' = RuntimeSuspended"
  using reconcile_touches_own_runtime [of coordinator1 fake_observe
      "world1 state1 (Some (fmupd ''other'' RuntimeSuspended fmempty))" "''op1''" "''other''" live]
    fake.runtime_driver_axioms repo_evolves_inv [OF state1_reachable repo_inv_NewState]
  by (simp add: at_operation_def fake_observe_def state1_def created_state_def NewState_def Let_def sample_fields)

end
