(* ===== verification/Lifecycle_Superseded.thy ===== *)
theory Lifecycle_Superseded
  imports Lifecycle_Outcome
begin

text \<open>
  Operations whose fencing token has been superseded before they were dispatched: a reconciliation never
  reaches the driver for them, which is what fencing is for, but it cannot record their failure either, so
  they stay pending and every sweep ends at the first of them.
\<close>

section \<open>Refused calls\<close>

text \<open>From states in \<open>Q\<close>, the call ends with an error, still in \<open>Q\<close>, and leaves the driver alone.\<close>

definition refuses :: "('r \<Rightarrow> State) \<Rightarrow> (State \<Rightarrow> bool) \<Rightarrow> (('r, 'd) World \<Rightarrow> 'b returns \<times> ('r, 'd) World) \<Rightarrow> bool" where
  "refuses view Q m \<longleftrightarrow> (\<forall>w. Q (view (w_Repository w)) \<longrightarrow>
     snd (fst (m w)) \<noteq> None \<and> w_Driver (snd (m w)) = w_Driver w \<and> Q (view (w_Repository (snd (m w)))))"

definition others_keep :: "('r \<Rightarrow> State) \<Rightarrow> (State \<Rightarrow> bool) \<Rightarrow> ('r, 'd) Coordinator \<Rightarrow> bool" where
  "others_keep view Q co \<longleftrightarrow> (\<forall>n r. Q (view r) \<longrightarrow> Q (view (en_Others (co_Env co) n r)))"

lemma refuses_errors: "refuses view Q (return_err e)" "refuses view Q (return_both x e)"
  by (simp_all add: refuses_def return_err_def return_both_def)

lemma refuses_or_return: "(\<And>x. r = Inr x \<Longrightarrow> refuses view Q (k x)) \<Longrightarrow> refuses view Q (or_return r k)"
  by (cases r) (auto simp: or_return_def [abs_def] intro: refuses_errors)

lemma refuses_if: "(b \<Longrightarrow> refuses view Q f) \<Longrightarrow> (\<not> b \<Longrightarrow> refuses view Q g) \<Longrightarrow> refuses view Q (if b then f else g)"
  by simp

lemma refuses_option:
  "(x = None \<Longrightarrow> refuses view Q f) \<Longrightarrow> (\<And>y. x = Some y \<Longrightarrow> refuses view Q (g y)) \<Longrightarrow>
   refuses view Q (case x of None \<Rightarrow> f | Some y \<Rightarrow> g y)"
  by (cases x) simp_all

lemma refuses_sum:
  "(\<And>e. x = Inl e \<Longrightarrow> refuses view Q (f e)) \<Longrightarrow> (\<And>y. x = Inr y \<Longrightarrow> refuses view Q (g y)) \<Longrightarrow>
   refuses view Q (case x of Inl e \<Rightarrow> f e | Inr y \<Rightarrow> g y)"
  by (cases x) simp_all

lemma refuses_clock: "(\<And>t. refuses view Q (k t)) \<Longrightarrow> refuses view Q (clock_now (co_Env co) k)"
  by (simp add: refuses_def clock_now_def)

lemma refuses_poll: "(\<And>e. refuses view Q (k e)) \<Longrightarrow> refuses view Q (poll c k)"
  by (simp add: refuses_def poll_def)

lemma refuses_persistenceContext: "(\<And>oc. refuses view Q (k oc)) \<Longrightarrow> refuses view Q (persistenceContext co k)"
  by (simp add: refuses_def persistenceContext_def)

lemmas refuses_structure = refuses_errors refuses_or_return refuses_if refuses_option refuses_sum refuses_clock
  refuses_poll refuses_persistenceContext

text \<open>The identities of an operation that fencing looks at.\<close>

lemma transition_fencing:
  "BeginOperation p t = Inr p' \<Longrightarrow> op_SandboxID p' = op_SandboxID p \<and> op_FencingToken p' = op_FencingToken p"
  "FailOperation p t f = Inr p' \<Longrightarrow> op_SandboxID p' = op_SandboxID p \<and> op_FencingToken p' = op_FencingToken p"
  by (auto simp: BeginOperation_def FailOperation_def transitionOperation_Inr split: if_splits)

text \<open>
  The operation \<open>p\<close> is superseded in every state of \<open>Q\<close>: neither its sandbox nor the operation itself can
  be updated under its token.
\<close>

definition holds_superseded :: "(State \<Rightarrow> bool) \<Rightarrow> Operation \<Rightarrow> bool" where
  "holds_superseded Q p \<longleftrightarrow> (\<forall>s. Q s \<longrightarrow> repo_inv s \<and> superseded (op_SandboxID p) (op_FencingToken p) s)"

lemma isl_void: "isl (f s) \<Longrightarrow> isl (void f s)"
  by (cases "f s") (simp_all add: void_def on_ok_def)

context lifecycle_repository
begin

lemma refuses_write:
  assumes "others_keep view Q co" and "\<And>c. writes_through view f (method c)" and "\<And>s. Q s \<Longrightarrow> repo_inv s \<and> isl (f s)"
  shows "refuses view Q (write_or_return (co_Env co) c method k)"
  unfolding refuses_def
proof (intro allI impI)
  fix w :: "('r, 'c) World"
  assume "Q (view (w_Repository w))"
  let ?r = "en_Others (co_Env co) (w_Tick w) (w_Repository w)"
  have Q: "Q (view ?r)" using assms(1) \<open>Q _\<close> by (simp add: others_keep_def)
  obtain res r' where m: "method (from_now (w_Tick w) c) ?r = (res, r')" by force
  obtain e where "f (view ?r) = Inl e" using assms(3) [OF Q] by (cases "f (view ?r)") auto
  moreover have "case res of Inr x \<Rightarrow> f (view ?r) = Inr (x, view r')
      | Inl e \<Rightarrow> view r' = view ?r \<or> (\<exists>x. f (view ?r) = Inr (x, view r'))"
    using assms(2) [of "from_now (w_Tick w) c"] assms(3) [OF Q] m by (auto simp: writes_through_def split: sum.splits)
  ultimately have "(\<exists>e. res = Inl e) \<and> view r' = view ?r" by (auto split: sum.splits)
  then show "snd (fst (write_or_return (co_Env co) c method k w)) \<noteq> None \<and>
      w_Driver (snd (write_or_return (co_Env co) c method k w)) = w_Driver w \<and>
      Q (view (w_Repository (snd (write_or_return (co_Env co) c method k w))))"
    using m Q by (auto simp: write_or_return_def repo_write_def or_return_def return_err_def)
qed

lemma refuses_update_sandbox:
  assumes "others_keep view Q co" and "co_Repository co = port" and "holds_superseded Q p"
    and "sb_ID sb = op_SandboxID p"
  shows "refuses view Q (update_sandbox co c sb g (op_FencingToken p) k)"
  unfolding update_sandbox_def assms(2)
proof (rule refuses_write [OF assms(1) UpdateSandbox_law])
  fix s
  assume "Q s"
  then have s: "repo_inv s" "superseded (op_SandboxID p) (op_FencingToken p) s"
    using assms(3) by (simp_all add: holds_superseded_def)
  then show "repo_inv s \<and> isl (void (UpdateSandbox sb g (op_FencingToken p)) s)"
    using superseded_refused(1) [OF s assms(4)] by (simp add: isl_void)
qed

lemma refuses_update_operation:
  assumes "others_keep view Q co" and "co_Repository co = port" and "holds_superseded Q p"
    and "op_SandboxID p' = op_SandboxID p \<and> op_FencingToken p' = op_FencingToken p"
  shows "refuses view Q (update_operation co c p' k)"
  unfolding update_operation_def assms(2)
proof (rule refuses_write [OF assms(1) UpdateOperation_law])
  fix s
  assume "Q s"
  then have s: "repo_inv s" "superseded (op_SandboxID p) (op_FencingToken p) s"
    using assms(3) by (simp_all add: holds_superseded_def)
  then show "repo_inv s \<and> isl (void (UpdateOperation p') s)"
    using superseded_refused(2) [OF s] assms(4) by (simp add: isl_void)
qed

lemma refuses_failures:
  assumes "others_keep view Q co" and "co_Repository co = port" and "holds_superseded Q p"
  shows "refuses view Q (failBeforeDispatch co p sb code cause)"
    and "refuses view Q (record_failure co wc p sb code cause)"
    and "sb_ID sb = op_SandboxID p \<Longrightarrow> refuses view Q (markKnownFailure co p sb code cause)"
  unfolding failBeforeDispatch_def record_failure_def markKnownFailure_def
  by (intro refuses_structure refuses_update_operation [OF assms] refuses_update_sandbox [OF assms];
      simp add: transition_fencing transition_continues(1))+

lemma refuses_dispatch:
  assumes "others_keep view Q co" and "co_Repository co = port" and "holds_superseded Q p"
    and "op_State p = OperationAccepted" and "sb_ID sb = op_SandboxID p"
  shows "refuses view Q (dispatch co c p sb)"
proof -
  note refusals = refuses_structure refuses_failures [OF assms(1-3)] refuses_update_sandbox [OF assms(1-3)]
    refuses_update_operation [OF assms(1-3)]
  have "refuses view Q (dispatchCreate co c p sb)"
    unfolding dispatchCreate_def by (intro refusals) (auto simp: assms(5) dest: transition_continues(1))
  moreover have "refuses view Q (reconcileLease co p sb)"
    unfolding reconcileLease_def by (intro refusals) (auto simp: assms(4) dest: transition_fencing)
  moreover have "refuses view Q (reconcileTerminate co c p sb)"
    unfolding reconcileTerminate_def assms(4)
    by (intro refusals) (auto simp: assms(5) dest: transition_continues(1))
  moreover have "refuses view Q (reconcileDesiredState co c p sb)"
    unfolding reconcileDesiredState_def assms(4)
    by (auto split: sum.split prod.split intro!: refusals simp: assms(5) dest: transition_continues(1))
  ultimately show ?thesis using assms(4) by (auto split: OperationType.split intro: refuses_errors)
qed

lemma refuses_reconcileOperation:
  assumes "others_keep view Q co" and "co_Repository co = port" and "holds_superseded Q p"
    and "op_State p = OperationAccepted" and "Q (view (w_Repository w))"
    and "fmlookup (st_Operations (view (at_operation co w))) i = Some p"
  shows "snd (fst (reconcileOperation co c i w)) \<noteq> None \<and>
    w_Driver (snd (reconcileOperation co c i w)) = w_Driver w \<and>
    Q (view (w_Repository (snd (reconcileOperation co c i w))))"
proof -
  have Q1: "Q (view (at_operation co w))" and Q2: "Q (view (at_sandbox co w))"
    using assms(1,5) by (auto simp: others_keep_def at_operation_def at_sandbox_def)
  show ?thesis
    using assms(2)
  proof (cases rule: reconcileOperation_cases [where w = w and c = c and i = i])
    case (failed e r n)
    then show ?thesis using Q1 Q2 assms(5) by auto
  next
    case (finished q sb r n)
    then show ?thesis using assms(4,6) by (auto simp: terminalOperation_def)
  next
    case (dispatched q sb)
    have q: "q = p" using dispatched(1) assms(6) by simp
    have "repo_inv (view (at_sandbox co w))" using Q2 assms(3) by (simp add: holds_superseded_def)
    then have "sb_ID sb = op_SandboxID p"
      using dispatched(3) repo_inv_sandboxD unfolding q by blast
    from refuses_dispatch [OF assms(1-4) this, of c, unfolded refuses_def, rule_format,
        of "w\<lparr>w_Repository := at_sandbox co w, w_Tick := 11 + w_Tick w\<rparr>"]
    show ?thesis unfolding dispatched(4) q using Q2 by simp
  qed
qed

end

text \<open>
  C8. Fencing reaches the driver: while the token of an accepted operation is superseded, a reconciliation
  of it returns an error and makes no call on the driver, even when other callers act on the repository
  between its accesses. So an owner that was fenced off cannot start new runtime work.
\<close>

theorem superseded_operation_not_dispatched:
  assumes "co_Repository co = file_port"
    and "\<And>n r. repo_inv (file_State r) \<Longrightarrow> repo_evolves (file_State r) (file_State (en_Others (co_Env co) n r))"
    and "repo_inv (file_State (w_Repository w))"
    and "superseded (op_SandboxID p) (op_FencingToken p) (file_State (w_Repository w))"
    and "fmlookup (st_Operations (file_State (at_operation co w))) i = Some p"
    and "op_State p = OperationAccepted"
  shows "snd (fst (ReconcileOperation co c i w)) \<noteq> None \<and>
    w_Driver (snd (ReconcileOperation co c i w)) = w_Driver w"
proof -
  let ?Q = "\<lambda>s. repo_inv s \<and> superseded (op_SandboxID p) (op_FencingToken p) s"
  have keep: "others_keep file_State ?Q co"
    using assms(2) repo_evolves_inv superseded_evolves unfolding others_keep_def by blast
  have held: "holds_superseded ?Q p" by (simp add: holds_superseded_def)
  show ?thesis
    using file_repo.refuses_reconcileOperation [OF keep assms(1) held assms(6) _ assms(5), of c] assms(3,4)
    unfolding ReconcileOperation_def by blast
qed

lemma state2_inv: "repo_inv state2"
  using repo_evolves_inv [OF repo_evolves_trans [OF state2_reachable state1_reachable]] repo_inv_NewState by blast

lemma state2_superseded: "superseded ''sbx'' 1 state2"
  by (simp add: superseded_def fence_of_def state2_def mutated_state_def state1_def created_state_def NewState_def
      Let_def sample_fields fencingScope_def)

lemma state2_operations: "fmlookup (st_Operations state2) ''op1'' = Some operation1"
  by (simp add: state2_def mutated_state_def state1_def created_state_def NewState_def Let_def sample_fields)

theorem superseded_operation_not_dispatched_witness:
  "w_Driver (snd (ReconcileOperation coordinator1 live ''op1'' (world1 state2 Fake_New))) = Fake_New"
  using superseded_operation_not_dispatched [of coordinator1 "world1 state2 Fake_New" operation1 "''op1''" live]
    state2_inv state2_superseded state2_operations
  by (simp add: repo_evolves.start at_operation_def sample_fields)

section \<open>Sweeps\<close>

lemma listed_operation:
  assumes "repo_inv s" and "p \<in> set (ListOperations s)"
  shows "fmlookup (st_Operations s) (op_ID p) = Some p"
proof -
  obtain k where "fmlookup (st_Operations s) k = Some p"
    using assms(2) by (auto simp: ListOperations_def set_fmvals)
  with assms(1) show ?thesis by (auto simp: repo_inv_def inv_operations_def)
qed


lemma state2_listed: "ListOperations state2 = [operation1, operation2]"
proof -
  have ops: "st_Operations state2 = fmupd ''op2'' operation2 (fmupd ''op1'' operation1 fmempty)"
    by (simp add: state2_def mutated_state_def state1_def created_state_def NewState_def Let_def sample_fields)
  have "sorted_list_of_fset (fmdom (st_Operations state2)) = [''op1'', ''op2'']"
    by (simp add: ops sorted_list_of_fset.rep_eq)
  then show ?thesis
    by (simp add: ListOperations_def fmvals_def sorted_list_of_fmap_def ops sample_fields)
qed


end
