(* ===== verification/Lifecycle_Recovery.thy ===== *)
theory Lifecycle_Recovery
  imports Lifecycle_Superseded
begin

text \<open>
  Recovery of an interrupted create: on working storage, with nobody else around, reconciling a create that
  was left running while its runtime came up completes it.
\<close>

section \<open>Identifiers of events\<close>

text \<open>The identifiers of the events the coordinator appends are well-formed, whatever the hash yields.\<close>

lemma hex_identifier: "n < 16 \<Longrightarrow> identifier_char (hex_char n)"
proof -
  have "\<forall>n \<in> {..<16}. identifier_char (hex_char n)"
    unfolding lessThan_nat_numeral by (simp add: hex_char_def pattern_eval)
  then show "n < 16 \<Longrightarrow> identifier_char (hex_char n)" by blast
qed

lemma format_x_identifier:
  "(\<And>b. b \<in> set bs \<Longrightarrow> b < 256) \<Longrightarrow> list_all identifier_char (format_x bs)"
proof (induction bs)
  case (Cons b bs)
  have "b < 256" by (simp add: Cons.prems)
  then have "b div 16 < 16" "b mod 16 < 16" by auto
  with Cons show ?case by (simp add: format_x_def hex_identifier)
qed (simp add: format_x_def)

lemma event_identifier: "identifierPattern (''event-'' @ format_x (sha256 text))"
  using format_x_identifier [of "sha256 text"] sha256_less length_format_x [of "sha256 text"]
  by (simp add: identifierPattern_def sha256_length pattern_eval)

lemma event_of_valid:
  assumes "valid_sandbox sb" and "valid_operation p" and "identifierPattern kind" and "now \<noteq> 0"
  shows "Event_Validate (event_of p sb kind now) = None"
  using assms event_identifier by (auto simp: val_simps event_of_def Event_Validate_def is_zero_time_def)

section \<open>Working storage\<close>

definition healthy :: "FileRepository \<Rightarrow> bool" where
  "healthy r \<longleftrightarrow> \<not> file_Closed r \<and>
     (\<forall>n m p. store_replace lifecycle_format live m (file_Env r n) p = None \<and> store_sync lifecycle_format (file_Env r n) = None)"

lemma mutate_ok:
  assumes "healthy r" and "f (file_State r) = Inr (x, s)"
  obtains r' where "mutate live f r = (Inr x, r')" "healthy r'" "file_State r' = s"
  using assms that
  by (auto simp: mutate_def store_mutate_def store_commit_def store_persist_def Let_def healthy_def contextError_def live_def)

text \<open>A coordinator on the file repository with nobody else around and timers that do not fire.\<close>

definition alone :: "(FileRepository, 'd) Coordinator \<Rightarrow> bool" where
  "alone co \<longleftrightarrow> co_Repository co = file_port \<and> en_Others (co_Env co) = (\<lambda>_ r. r) \<and>
     en_Timer (co_Env co) = (\<lambda>_ _. False)"

lemma from_now_live [simp]: "from_now n live = live"
  by (simp add: from_now_def live_def)

lemma contextError_live [simp]: "contextError live n = None"
  by (simp add: contextError_def live_def)

lemma poll_live [simp]: "poll live k w = k None (w\<lparr>w_Tick := Suc (w_Tick w)\<rparr>)"
  by (simp add: poll_def contextError_def live_def)

lemma operationContext_live:
  assumes "alone co" and "\<And>n. en_Clock (co_Env co) n < deadline"
  shows "operationContext co live deadline k w = k live (w\<lparr>w_Tick := Suc (w_Tick w)\<rparr>)"
  using assms by (simp add: operationContext_def clock_now_def Let_def with_timeout_def alone_def live_def)
    (smt (verit) not_less)

lemma persistenceContext_live: "alone co \<Longrightarrow> persistenceContext co k w = k live w"
  by (simp add: persistenceContext_def with_timeout_def alone_def live_def persistenceTimeout_def nanos_per_second_def)

lemma write_ok:
  fixes w :: "(FileRepository, 'd) World"
  assumes "alone co" and "healthy (w_Repository w)" and "f (file_State (w_Repository w)) = Inr (x, s)"
  shows "\<exists>r. healthy r \<and> file_State r = s \<and>
    (\<forall>k :: _ \<Rightarrow> (FileRepository, 'd) World \<Rightarrow> 'b returns \<times> (FileRepository, 'd) World.
      write_or_return (co_Env co) live (\<lambda>c. mutate c f) k w = k x (w\<lparr>w_Repository := r, w_Tick := w_Tick w + 5\<rparr>))"
proof (rule mutate_ok [where f = f, OF assms(2,3)])
  fix r
  assume "mutate live f (w_Repository w) = (Inr x, r)" "healthy r" "file_State r = s"
  with assms(1) show ?thesis
    by (intro exI [of _ r]) (simp add: write_or_return_def repo_write_def alone_def or_return_def)
qed

lemma read_ok:
  assumes "alone co" and "healthy (w_Repository w)" and "f (file_State (w_Repository w)) = Inr x"
  shows "read_or_return (co_Env co) live (\<lambda>c. file_read c f) k w = k x (w\<lparr>w_Tick := w_Tick w + 5\<rparr>)"
  using assms
  by (cases w) (simp add: read_or_return_def repo_read_def repo_write_def alone_def or_return_def file_read_def store_read_def
      healthy_def)

lemma file_methods:
  "po_GetOperation file_port c i = file_read c (GetOperation i)"
  "po_GetSandbox file_port c j = file_read c (GetSandbox j)"
  "po_UpdateSandbox file_port c sb g t = mutate c (void (UpdateSandbox sb g t))"
  "po_UpdateOperation file_port c p = mutate c (void (UpdateOperation p))"
  "po_AppendEvent file_port c e = mutate c (AppendEvent e)"
  by (simp_all add: file_port_def File_GetOperation_def File_GetSandbox_def File_UpdateSandbox_def
      File_UpdateOperation_def File_AppendEvent_def)

lemma records_ok:
  fixes w :: "(FileRepository, 'd) World"
  assumes "alone co" and "healthy (w_Repository w)"
  shows "UpdateSandbox sb g t (file_State (w_Repository w)) = Inr s \<Longrightarrow>
      \<exists>r. healthy r \<and> file_State r = s \<and>
        (\<forall>k :: (FileRepository, 'd) World \<Rightarrow> 'b returns \<times> (FileRepository, 'd) World.
          update_sandbox co live sb g t k w = k (w\<lparr>w_Repository := r, w_Tick := w_Tick w + 5\<rparr>))"
    and "UpdateOperation p (file_State (w_Repository w)) = Inr s \<Longrightarrow>
      \<exists>r. healthy r \<and> file_State r = s \<and>
        (\<forall>k :: (FileRepository, 'd) World \<Rightarrow> 'b returns \<times> (FileRepository, 'd) World.
          update_operation co live p k w = k (w\<lparr>w_Repository := r, w_Tick := w_Tick w + 5\<rparr>))"
    and "AppendEvent (event_of p sb kind now) (file_State (w_Repository w)) = Inr (e, s) \<Longrightarrow>
      \<exists>r. healthy r \<and> file_State r = s \<and>
        (\<forall>k :: (FileRepository, 'd) World \<Rightarrow> 'b returns \<times> (FileRepository, 'd) World.
          append_event co live p sb kind now k w = k (w\<lparr>w_Repository := r, w_Tick := w_Tick w + 5\<rparr>))"
proof -
  have port: "co_Repository co = file_port" using assms(1) by (simp add: alone_def)
  note ok = write_ok [OF assms, where 'b = 'b]
  note defs = update_sandbox_def update_operation_def append_event_def port file_methods
  show "UpdateSandbox sb g t (file_State (w_Repository w)) = Inr s \<Longrightarrow> \<exists>r. healthy r \<and> file_State r = s \<and>
        (\<forall>k :: (FileRepository, 'd) World \<Rightarrow> 'b returns \<times> (FileRepository, 'd) World.
          update_sandbox co live sb g t k w = k (w\<lparr>w_Repository := r, w_Tick := w_Tick w + 5\<rparr>))"
    using ok [of "void (UpdateSandbox sb g t)" "()" s] unfolding defs by (simp add: void_def) blast
  show "UpdateOperation p (file_State (w_Repository w)) = Inr s \<Longrightarrow> \<exists>r. healthy r \<and> file_State r = s \<and>
        (\<forall>k :: (FileRepository, 'd) World \<Rightarrow> 'b returns \<times> (FileRepository, 'd) World.
          update_operation co live p k w = k (w\<lparr>w_Repository := r, w_Tick := w_Tick w + 5\<rparr>))"
    using ok [of "void (UpdateOperation p)" "()" s] unfolding defs by (simp add: void_def) blast
  show "AppendEvent (event_of p sb kind now) (file_State (w_Repository w)) = Inr (e, s) \<Longrightarrow> \<exists>r. healthy r \<and> file_State r = s \<and>
        (\<forall>k :: (FileRepository, 'd) World \<Rightarrow> 'b returns \<times> (FileRepository, 'd) World.
          append_event co live p sb kind now k w = k (w\<lparr>w_Repository := r, w_Tick := w_Tick w + 5\<rparr>))"
    using ok [of "AppendEvent (event_of p sb kind now)" e s] unfolding defs by simp blast
qed

section \<open>Completing a create\<close>

lemma UpdateOperation_fields:
  assumes "UpdateOperation p s = Inr s'"
  shows "st_Sandboxes s' = st_Sandboxes s" "st_Fencing s' = st_Fencing s" "st_Events s' = st_Events s"
    "fmlookup (st_Operations s') (op_ID p) = Some p"
proof -
  obtain r where "s' = s\<lparr>st_Operations := fmupd (op_ID p) p (st_Operations s)\<rparr> \<or>
      s' = s\<lparr>st_Operations := fmupd (op_ID p) p (st_Operations s), st_Idempotency := r\<rparr>"
    using assms by (elim UpdateOperation_cases) (cases "IdempotencyForOperation s (op_ID p)"; auto)
  then show "st_Sandboxes s' = st_Sandboxes s" "st_Fencing s' = st_Fencing s" "st_Events s' = st_Events s"
    "fmlookup (st_Operations s') (op_ID p) = Some p" by auto
qed

text \<open>The writes that record a ready runtime succeed on the state, with a current token and a fresh event.\<close>

lemma ready_writes:
  assumes inv: "repo_inv s"
    and p: "fmlookup (st_Operations s) i = Some p" "op_State p = OperationRunning"
    and sb: "fmlookup (st_Sandboxes s) (op_SandboxID p) = Some sb" "sb_ObservedState sb = ObservedProvisioning"
    and token: "op_FencingToken p = fence_of s sb" and gen: "sb_Generation sb \<noteq> - 1"
    and clock: "sb_CreatedAt sb \<le> t" "op_ObservedAt p \<le> t'" "0 < t" "0 < t'" "0 < t''"
    and fresh: "\<forall>e \<in> set (fmlist (st_Events s) (sb_ID sb)).
      ev_ID e \<noteq> ev_ID (event_of (p\<lparr>op_State := OperationSucceeded\<rparr>) sb ''ready'' 0)"
  obtains ready p' s1 s2 e s3 where
    "ApplyObservedTransition sb ObservedReady (sb_Generation sb) t = Inr ready"
    "UpdateSandbox ready (sb_Generation sb) (op_FencingToken p) s = Inr s1"
    "SucceedOperation p t' = Inr p'"
    "UpdateOperation p' s1 = Inr s2"
    "AppendEvent (event_of p' ready ''ready'' t'') s2 = Inr (e, s3)"
    "op_State p' = OperationSucceeded" "sb_ObservedState ready = ObservedReady"
    "fmlookup (st_Operations s3) i = Some p'" "fmlookup (st_Sandboxes s3) (sb_ID sb) = Some ready"
proof -
  have ids: "sb_ID sb = op_SandboxID p" "valid_sandbox sb" "op_ID p = i" "valid_operation p"
    using repo_inv_sandboxD [OF inv sb(1)] repo_inv_operationD [OF inv p(1)] by auto
  define ready where "ready = sb\<lparr>sb_ObservedState := ObservedReady, sb_UpdatedAt := t, sb_ObservedGeneration := sb_Generation sb\<rparr>"
  define p' where "p' = p\<lparr>op_State := OperationSucceeded, op_ObservedAt := t', op_Failure := None\<rparr>"
  define s1 where "s1 = s\<lparr>st_Sandboxes := fmupd (sb_ID sb) ready (st_Sandboxes s)\<rparr>"
  have 1: "ApplyObservedTransition sb ObservedReady (sb_Generation sb) t = Inr ready"
    using clock sb(2) ids(2) by (auto simp: ApplyObservedTransition_Inr CanTransitionObserved_def val_simps ready_def)
  have valid: "valid_sandbox ready" "valid_operation p'"
    using ids(2,4) clock by (auto simp: ready_def p'_def val_simps failure_ok_def)
  have fence: "op_FencingToken p \<noteq> 0"
    "fmget (st_Fencing s) (fencingScope (sb_ProviderRevisionID sb) (op_SandboxID p)) = op_FencingToken p"
    using ids token by (auto simp: val_simps fence_of_def)
  have 2: "UpdateSandbox ready (sb_Generation sb) (op_FencingToken p) s = Inr s1"
    using valid(1) sb(1) ids(1) fence gen
    by (simp add: UpdateSandbox_def checkCurrentFencing_def s1_def ready_def word_less_nat_alt unat_succ)
  have 3: "SucceedOperation p t' = Inr p'"
    using ids(4) p(2) clock by (simp add: SucceedOperation_def transitionOperation_Inr p'_def val_simps OperationState_terminal_def
        operationTransitions_def)
  obtain s2 where 4: "UpdateOperation p' s1 = Inr s2"
    using valid(2) p(1) ids fence
    by (simp add: UpdateOperation_def checkCurrentFencing_def s1_def p'_def ready_def operationProviderRevision_def
        Let_def)
  note s2 = UpdateOperation_fields [OF 4]
  have valid_event: "Event_Validate (event_of p' ready ''ready'' t'') = None"
    by (rule event_of_valid [OF valid]) (use clock in \<open>simp_all add: pattern_eval\<close>)
  have log: "find (\<lambda>x. ev_ID x = ev_ID (event_of p' ready ''ready'' t'')) (fmlist (st_Events s) (sb_ID sb)) = None"
    using fresh by (simp add: find_None_iff event_of_def p'_def ready_def)
  have ev: "ev_SandboxID (event_of p' ready ''ready'' t'') = sb_ID sb"
    "ev_Generation (event_of p' ready ''ready'' t'') = sb_Generation sb"
    "ev_FencingToken (event_of p' ready ''ready'' t'') = op_FencingToken p"
    "sb_Generation ready = sb_Generation sb" "sb_ProviderRevisionID ready = sb_ProviderRevisionID sb" "sb_ID ready = sb_ID sb"
    by (simp_all add: event_of_def ready_def p'_def)
  have stored: "fmlookup (st_Sandboxes s2) (sb_ID sb) = Some ready" using s2(1) by (simp add: s1_def)
  have 5: "AppendEvent (event_of p' ready ''ready'' t'') s2 = Inr (appendRetainedEvent (event_of p' ready ''ready'' t'') s2)"
    using valid_event log fence ids(1) s2 stored by (simp add: AppendEvent_def ev checkCurrentFencing_def s1_def)
  obtain e s3 where r: "appendRetainedEvent (event_of p' ready ''ready'' t'') s2 = (e, s3)" by force
  then have "st_Operations s3 = st_Operations s2" "st_Sandboxes s3 = st_Sandboxes s2"
    by (auto simp: appendRetainedEvent_def Let_def)
  then show thesis
    using that [OF 1 2 3 4 5 [unfolded r]] s2(4) stored ids(3) by (simp add: ready_def p'_def)
qed

lemma markReady_runs:
  assumes "alone co" and "healthy (w_Repository w)"
    and "ApplyObservedTransition sb ObservedReady (sb_Generation sb) (en_Clock (co_Env co) (w_Tick w)) = Inr ready"
    and "UpdateSandbox ready (sb_Generation sb) (op_FencingToken p) (file_State (w_Repository w)) = Inr s1"
    and "SucceedOperation p (en_Clock (co_Env co) (w_Tick w + 6)) = Inr p'"
    and "UpdateOperation p' s1 = Inr s2"
    and "AppendEvent (event_of p' ready ''ready'' (en_Clock (co_Env co) (w_Tick w + 12))) s2 = Inr (e, s3)"
  shows "\<exists>w'. markReady co p sb b w =
      ((Some \<lparr>rs_Operation = p', rs_Sandbox = ready, rs_Dispatched = b\<rparr>, None), w') \<and> file_State (w_Repository w') = s3"
proof -
  let ?at = "\<lambda>r n. w\<lparr>w_Repository := r, w_Tick := n\<rparr>"
  let ?T = "en_Clock (co_Env co)"
  obtain r1 where r1: "healthy r1" "file_State r1 = s1"
    "\<And>k. update_sandbox co live ready (sb_Generation sb) (op_FencingToken p) k (w\<lparr>w_Tick := Suc (w_Tick w)\<rparr>) =
       (k (?at r1 (w_Tick w + 6)) :: Result returns \<times> _)"
    using records_ok(1) [OF assms(1), of "w\<lparr>w_Tick := Suc (w_Tick w)\<rparr>" ready "sb_Generation sb" "op_FencingToken p" s1,
        where 'b = Result] assms(2,4)
    by (auto simp: add.commute)
  obtain r2 where r2: "healthy r2" "file_State r2 = s2"
    "\<And>k. update_operation co live p' k (?at r1 (w_Tick w + 7)) = (k (?at r2 (w_Tick w + 12)) :: Result returns \<times> _)"
    using records_ok(2) [OF assms(1), of "?at r1 (w_Tick w + 7)" p' s2, where 'b = Result] r1 assms(6)
    by (auto simp: add.commute)
  obtain r3 where r3: "file_State r3 = s3"
    "\<And>k. append_event co live p' ready ''ready'' (?T (w_Tick w + 12)) k (?at r2 (w_Tick w + 13)) =
       (k (?at r3 (w_Tick w + 18)) :: Result returns \<times> _)"
    using records_ok(3) [OF assms(1), of "?at r2 (w_Tick w + 13)" p' ready "''ready''"
        "?T (w_Tick w + 12)" e s3, where 'b = Result] r2 assms(7)
    by (auto simp: add.commute)
  have "markReady co p sb b w = ((Some \<lparr>rs_Operation = p', rs_Sandbox = ready, rs_Dispatched = b\<rparr>, None), ?at r3 (w_Tick w + 18))"
    using assms(3,5) r1(3) r2(3) r3(2)
    by (simp add: markReady_def persistenceContext_live [OF assms(1)] clock_now_def or_return_def return_def add.commute)
  then show ?thesis using r3(1) by simp
qed

lemma running_create_completes:
  assumes "alone co" and "co_Driver co = fake_driver" and "healthy (w_Repository w)"
    and "repo_inv (file_State (w_Repository w))"
    and p: "fmlookup (st_Operations (file_State (w_Repository w))) i = Some p"
      "op_Type p = OperationCreate" "op_State p = OperationRunning"
    and sb: "fmlookup (st_Sandboxes (file_State (w_Repository w))) (op_SandboxID p) = Some sb"
      "sb_ObservedState sb = ObservedProvisioning" "sb_Generation sb \<noteq> - 1"
      "op_FencingToken p = fence_of (file_State (w_Repository w)) sb"
    and "w_Driver w = Some runtimes" and "fmlookup runtimes (sb_ID sb) = Some RuntimeReady"
    and clock: "\<And>n. sb_CreatedAt sb \<le> en_Clock (co_Env co) n \<and> op_ObservedAt p \<le> en_Clock (co_Env co) n \<and>
      0 < en_Clock (co_Env co) n \<and> en_Clock (co_Env co) n < op_Deadline p"
    and "\<forall>e \<in> set (fmlist (st_Events (file_State (w_Repository w))) (sb_ID sb)).
      ev_ID e \<noteq> ev_ID (event_of (p\<lparr>op_State := OperationSucceeded\<rparr>) sb ''ready'' 0)"
  shows "\<exists>x w'. ReconcileOperation co live i w = ((Some x, None), w') \<and>
    op_State (rs_Operation x) = OperationSucceeded \<and> sb_ObservedState (rs_Sandbox x) = ObservedReady \<and>
    fmlookup (st_Operations (file_State (w_Repository w'))) i = Some (rs_Operation x) \<and>
    fmlookup (st_Sandboxes (file_State (w_Repository w'))) (sb_ID sb) = Some (rs_Sandbox x)"
proof -
  have "sb_ID sb = op_SandboxID p" "valid_sandbox sb" using repo_inv_sandboxD [OF assms(4) sb(1)] by auto
  then have ne: "sb_ID sb \<noteq> []" by (auto simp: val_simps identifierPattern_def)
  have port: "co_Repository co = file_port" using assms(1) by (simp add: alone_def)
  define v where "v = w\<lparr>w_Tick := w_Tick w + 18\<rparr>"
  have "ReconcileOperation co live i w = reconcileCreate co live p sb (w\<lparr>w_Tick := w_Tick w + 11\<rparr>)"
    using p sb(1) assms(3)
    by (simp add: ReconcileOperation_def reconcileOperation_def port file_methods read_ok [OF assms(1)]
        GetOperation_def GetSandbox_def terminalOperation_def add.commute)
  also have "\<dots> = markReady co p sb False v"
    using assms(2,12,13) clock ne p(3)
    by (cases w) (simp add: reconcileCreate_def operationContext_live [OF assms(1)] driver_call_def fake_driver_def
        Fake_Inspect_def v_def add.commute)
  finally have run: "ReconcileOperation co live i w = markReady co p sb False v" .
  have v: "w_Repository v = w_Repository w" by (simp add: v_def)
  note T = clock [THEN conjunct1] clock [THEN conjunct2, THEN conjunct1] clock [THEN conjunct2, THEN conjunct2, THEN conjunct1]
  obtain ready p' s1 s2 e s3 where steps:
    "ApplyObservedTransition sb ObservedReady (sb_Generation sb) (en_Clock (co_Env co) (w_Tick v)) = Inr ready"
    "UpdateSandbox ready (sb_Generation sb) (op_FencingToken p) (file_State (w_Repository w)) = Inr s1"
    "SucceedOperation p (en_Clock (co_Env co) (w_Tick v + 6)) = Inr p'"
    "UpdateOperation p' s1 = Inr s2"
    "AppendEvent (event_of p' ready ''ready'' (en_Clock (co_Env co) (w_Tick v + 12))) s2 = Inr (e, s3)"
    and final: "op_State p' = OperationSucceeded" "sb_ObservedState ready = ObservedReady"
    "fmlookup (st_Operations s3) i = Some p'" "fmlookup (st_Sandboxes s3) (sb_ID sb) = Some ready"
    by (rule ready_writes [OF assms(4) p(1,3) sb(1,2,4,3) T(1) T(2) T(3) T(3) T(3) assms(15)])
  obtain w' where "markReady co p sb False v = ((Some \<lparr>rs_Operation = p', rs_Sandbox = ready, rs_Dispatched = False\<rparr>, None), w')"
    "file_State (w_Repository w') = s3"
    using markReady_runs [OF assms(1), of v] steps assms(3) unfolding v by blast
  with run final show ?thesis by auto
qed

definition sandbox3 :: Sandbox where
  "sandbox3 = sandbox1\<lparr>sb_ObservedState := ObservedProvisioning\<rparr>"

definition operation3 :: Operation where
  "operation3 = operation1\<lparr>op_State := OperationRunning, op_ObservedAt := 200\<rparr>"

text \<open>The create of the sample history after its dispatch.\<close>

definition state3 :: State where
  "state3 = state1\<lparr>st_Sandboxes := fmupd ''sbx'' sandbox3 (st_Sandboxes state1)\<rparr>"

definition state4 :: State where
  "state4 = projr (UpdateOperation operation3 state3)"

lemma update_sample: "UpdateSandbox sandbox3 1 1 state1 = Inr state3"
  by (simp add: UpdateSandbox_def state3_def sandbox3_def state1_def created_state_def NewState_def Let_def
      checkCurrentFencing_def sample_fields fencingScope_def)

lemma begin_sample: "UpdateOperation operation3 state3 = Inr state4"
  unfolding state4_def
  by (simp add: UpdateOperation_def state3_def operation3_def state1_def created_state_def NewState_def Let_def
      checkCurrentFencing_def sample_fields operationProviderRevision_def sandbox3_def)

lemma state4_fields:
  "st_Sandboxes state4 = fmupd ''sbx'' sandbox3 (st_Sandboxes state1)"
  "fmlookup (st_Operations state4) ''op1'' = Some operation3" "st_Fencing state4 = st_Fencing state1"
  "st_Events state4 = st_Events state1"
  using UpdateOperation_fields [OF begin_sample] by (simp_all add: state3_def operation3_def operation1_def)

lemma state4_reachable: "repo_evolves state1 state4"
proof -
  have "repo_step state1 state3"
    by (rule repo_step.update_sandbox [OF update_sample, of sandbox1])
      (simp_all add: sandbox3_def state1_def created_state_def NewState_def Let_def sample_fields)
  moreover have "repo_step state3 state4" by (rule repo_step.update_operation [OF begin_sample])
  ultimately show ?thesis by (blast intro: repo_evolves.intros)
qed

lemma state4_inv: "repo_inv state4"
  using repo_evolves_inv [OF repo_evolves_trans [OF state4_reachable state1_reachable] repo_inv_NewState] .

lemma state4_fence: "fence_of state4 sandbox3 = 1" "st_Events state4 = fmempty"
  by (simp_all add: state4_fields fence_of_def state1_def created_state_def NewState_def Let_def sandbox3_def
      sample_fields)

definition ready1 :: FakeDriver where
  "ready1 = Some (fmupd ''sbx'' RuntimeReady fmempty)"

lemma healthy_world1: "healthy (w_Repository (world1 s d))"
  by (simp add: healthy_def world1_def file1_def store_replace_def store_sync_def env1_def maxFileSize_def)

lemma alone1: "alone coordinator1"
  by (simp add: alone_def coordinator1_def quiet_def)



theorem success_means_reached_witness:
  "\<exists>x w'. ReconcileOperation coordinator1 live ''op1'' (world1 state4 ready1) = ((Some x, None), w') \<and>
     op_State (rs_Operation x) = OperationSucceeded \<and>
     target_reached (op_Type (rs_Operation x)) (fake_observe (w_Driver w') (sb_ID (rs_Sandbox x)))"
proof -
  obtain x w' where run: "ReconcileOperation coordinator1 live ''op1'' (world1 state4 ready1) = ((Some x, None), w')"
      "op_State (rs_Operation x) = OperationSucceeded"
    using running_create_completes [OF alone1 _ healthy_world1, of state4 ready1 "''op1''" operation3 sandbox3
        "fmupd ''sbx'' RuntimeReady fmempty"] state4_inv state4_fence
    by (auto simp: state4_fields operation3_def operation1_def sandbox3_def sandbox1_def ready1_def)
  moreover have "fmlookup (st_Operations state4) ''op1'' \<noteq> Some (rs_Operation x)"
  proof
    assume "fmlookup (st_Operations state4) ''op1'' = Some (rs_Operation x)"
    then have "rs_Operation x = operation3" by (simp add: state4_fields)
    with run(2) show False by (simp add: operation3_def)
  qed
  ultimately show ?thesis
    using success_means_reached [of coordinator1 fake_observe live "''op1''" "world1 state4 ready1" x w']
      fake.runtime_driver_axioms by (auto simp: at_operation_def)
qed

end
