(* ===== verification/Lifecycle_Application.thy ===== *)
theory Lifecycle_Application
  imports Lifecycle_Reconcile "HOL-Library.Multiset"
begin

text \<open>
  The lifecycle application of \<^verbatim>\<open>src/provider/lifecycle/application/application.go\<close>: it guards the
  coordinator by its own readiness, starts a worker for every accepted operation, sweeps in the background,
  and waits for its workers when it closes.

  The methods are functions on the application's state and the world of the coordinator. Their concurrency is
  the relation \<open>app_step\<close>: a multiset of threads (calls that have passed the readiness check, calls about to
  start a worker, workers, the background sweep), each of which moves on by itself, so that they are
  interleaved in every order. What others do to the repository within a coordinator call is the environment
  of the coordinator.
\<close>

section \<open>State\<close>

record AppState =
  ap_Closed :: bool
  ap_Workers :: "string fset"
  ap_Wait :: nat

text \<open>A nil application, or one with a part missing, is \<open>None\<close>.\<close>

definition Application_ready :: "AppState option \<Rightarrow> ctx option \<Rightarrow> nat \<Rightarrow> error option" where
  "Application_ready a c n =
     (case a of
        None \<Rightarrow> Some [ErrInvalidApplication]
      | Some s \<Rightarrow> first_err [contextError c n, fail_if (ap_Closed s) [ErrInvalidApplication]])"

text \<open>Whether a worker is to be started, and the registration of it.\<close>

definition starts_worker :: "string \<Rightarrow> AppState \<Rightarrow> bool" where
  "starts_worker operationID a \<longleftrightarrow> \<not> ap_Closed a \<and> operationID |\<notin>| ap_Workers a"

definition Application_schedule :: "string \<Rightarrow> AppState \<Rightarrow> AppState" where
  "Application_schedule operationID a =
     (if starts_worker operationID a
      then a\<lparr>ap_Workers := finsert operationID (ap_Workers a), ap_Wait := ap_Wait a + 1\<rparr> else a)"

text \<open>The deferred functions of a worker: first its entry is deleted, then it is counted off.\<close>

definition worker_delete :: "string \<Rightarrow> AppState \<Rightarrow> AppState" where
  "worker_delete operationID a = a\<lparr>ap_Workers := ap_Workers a |-| {|operationID|}\<rparr>"

definition worker_done :: "AppState \<Rightarrow> AppState" where
  "worker_done a = a\<lparr>ap_Wait := ap_Wait a - 1\<rparr>"

definition startLeaseWorker :: "AppState \<Rightarrow> AppState" where
  "startLeaseWorker a = a\<lparr>ap_Wait := ap_Wait a + 1\<rparr>"

definition Application_New :: "bool \<Rightarrow> error + AppState" where
  "Application_New complete =
     (if \<not> complete then Inl [ErrInvalidApplication]
      else Inr (startLeaseWorker \<lparr>ap_Closed = False, ap_Workers = {||}, ap_Wait = 0\<rparr>))"

section \<open>Calls\<close>

type_synonym ('r, 'd, 'a) app_method = "AppState option \<times> ('r, 'd) World \<Rightarrow> 'a returns \<times> AppState option \<times> ('r, 'd) World"

text \<open>Every method first asks whether the application is ready.\<close>

definition when_ready :: "ctx option \<Rightarrow> ('r, 'd, 'a) app_method \<Rightarrow> ('r, 'd, 'a) app_method" where
  "when_ready c call = (\<lambda>(a, w).
     case Application_ready a c (w_Tick w) of
       Some e \<Rightarrow> ((None, Some e), a, w\<lparr>w_Tick := Suc (w_Tick w)\<rparr>)
     | None \<Rightarrow> call (a, w\<lparr>w_Tick := Suc (w_Tick w)\<rparr>))"

definition delegate :: "('r, 'd, 'a) call \<Rightarrow> ('r, 'd, 'a) app_method" where
  "delegate call = (\<lambda>(a, w). case call w of (res, w') \<Rightarrow> (res, a, w'))"

text \<open>
  Accepting a request and scheduling its operation. An operation that a replay finds in a later state is not
  scheduled.
\<close>

definition to_schedule :: "('a \<Rightarrow> Operation) \<Rightarrow> 'a returns \<Rightarrow> string option" where
  "to_schedule operation res =
     (case res of
        (Some x, None) \<Rightarrow> if op_State (operation x) = OperationAccepted then Some (op_ID (operation x)) else None
      | _ \<Rightarrow> None)"

definition schedule_opt :: "string option \<Rightarrow> AppState option \<Rightarrow> AppState option" where
  "schedule_opt i a = (case i of None \<Rightarrow> a | Some operationID \<Rightarrow> map_option (Application_schedule operationID) a)"

definition accept_and_schedule :: "('a \<Rightarrow> Operation) \<Rightarrow> ('r, 'd, 'a) call \<Rightarrow> ('r, 'd, 'a) app_method" where
  "accept_and_schedule operation call = (\<lambda>(a, w).
     case call w of (res, w') \<Rightarrow>
       (if snd res = None then res else (None, snd res), schedule_opt (to_schedule operation res) a, w'))"

definition Application_AcceptCreate ::
    "('r, 'd) Coordinator \<Rightarrow> ctx option \<Rightarrow> CreateRequest \<Rightarrow> ('r, 'd, CreateResult) app_method" where
  "Application_AcceptCreate co c request =
     when_ready c (accept_and_schedule cres_Operation (AcceptCreate co c request))"

definition Application_AcceptDesiredState ::
    "('r, 'd) Coordinator \<Rightarrow> ctx option \<Rightarrow> string \<Rightarrow> DesiredStateRequest \<Rightarrow> ('r, 'd, MutationResult) app_method" where
  "Application_AcceptDesiredState co c sandboxID request =
     when_ready c (accept_and_schedule mres_Operation (AcceptDesiredState co c sandboxID request))"

definition Application_AcceptLease ::
    "('r, 'd) Coordinator \<Rightarrow> ctx option \<Rightarrow> string \<Rightarrow> LeaseRequest \<Rightarrow> int \<Rightarrow> ('r, 'd, MutationResult) app_method" where
  "Application_AcceptLease co c sandboxID request maxLeaseSeconds =
     when_ready c (accept_and_schedule mres_Operation (AcceptLease co c sandboxID request maxLeaseSeconds))"

definition Application_AcceptTerminate ::
    "('r, 'd) Coordinator \<Rightarrow> ctx option \<Rightarrow> string \<Rightarrow> TerminateRequest \<Rightarrow> ('r, 'd, MutationResult) app_method" where
  "Application_AcceptTerminate co c sandboxID request =
     when_ready c (accept_and_schedule mres_Operation (AcceptTerminate co c sandboxID request))"

definition Application_ReadEvents ::
    "('r, 'd) Coordinator \<Rightarrow> ctx option \<Rightarrow> string \<Rightarrow> u64 \<Rightarrow> ('r, 'd, EventPage) app_method" where
  "Application_ReadEvents co c sandboxID after = when_ready c (delegate (Coordinator_ReadEvents co c sandboxID after))"

definition Application_GetSandbox :: "('r, 'd) Coordinator \<Rightarrow> ctx option \<Rightarrow> string \<Rightarrow> ('r, 'd, Sandbox) app_method" where
  "Application_GetSandbox co c i = when_ready c (delegate (Coordinator_GetSandbox co c i))"

definition Application_GetOperation :: "('r, 'd) Coordinator \<Rightarrow> ctx option \<Rightarrow> string \<Rightarrow> ('r, 'd, Operation) app_method" where
  "Application_GetOperation co c i = when_ready c (delegate (Coordinator_GetOperation co c i))"

definition Application_ProcessExpiredLeases :: "('r, 'd) Coordinator \<Rightarrow> ctx option \<Rightarrow> ('r, 'd, Result list) app_method" where
  "Application_ProcessExpiredLeases co c = when_ready c (delegate (ProcessExpiredLeases co c))"

text \<open>Recovery: the operations that survived a restart first, then the expired leases.\<close>

definition recover_work :: "('r, 'd) Coordinator \<Rightarrow> ctx option \<Rightarrow> ('r, 'd, unit) call" where
  "recover_work co c w =
     (case ReconcilePending co c w of
        ((_, Some e), w') \<Rightarrow> return_err e w'
      | ((_, None), w') \<Rightarrow>
          (case ProcessExpiredLeases co c w' of ((_, err), w'') \<Rightarrow> ((Some (), err), w'')))"

definition Recover :: "('r, 'd) Coordinator \<Rightarrow> ctx option \<Rightarrow> ('r, 'd, unit) app_method" where
  "Recover co c = when_ready c (delegate (recover_work co c))"

text \<open>
  Closing marks the application and cancels its workers. The call returns once the wait group is down to
  zero; \<open>close_waits\<close> says that it does not return yet.
\<close>

definition close_mark :: "AppState \<Rightarrow> AppState" where
  "close_mark a = a\<lparr>ap_Closed := True\<rparr>"

definition close_waits :: "AppState \<Rightarrow> bool" where
  "close_waits a \<longleftrightarrow> ap_Wait a \<noteq> 0"

text \<open>A round of the background sweep, whose results and errors are ignored.\<close>

definition lease_sweep :: "('r, 'd) Coordinator \<Rightarrow> ctx option \<Rightarrow> ('r, 'd) World \<Rightarrow> ('r, 'd) World" where
  "lease_sweep co c w = snd (ProcessExpiredLeases co c (snd (ReconcilePending co c w)))"

section \<open>Threads\<close>

datatype app_call =
    CallCreate "ctx option" CreateRequest
  | CallDesiredState "ctx option" string DesiredStateRequest
  | CallLease "ctx option" string LeaseRequest int
  | CallTerminate "ctx option" string TerminateRequest
  | CallRecover "ctx option"
  | CallExpired "ctx option"
  | CallReadEvents "ctx option" string u64
  | CallGetSandbox "ctx option" string
  | CallGetOperation "ctx option" string

text \<open>What a method does after its readiness check: the operation to schedule, if any, and the world.\<close>

fun run_call :: "('r, 'd) Coordinator \<Rightarrow> app_call \<Rightarrow> ('r, 'd) World \<Rightarrow> string option \<times> ('r, 'd) World" where
  "run_call co (CallCreate c request) w =
     (case AcceptCreate co c request w of (res, w') \<Rightarrow> (to_schedule cres_Operation res, w'))"
| "run_call co (CallDesiredState c i request) w =
     (case AcceptDesiredState co c i request w of (res, w') \<Rightarrow> (to_schedule mres_Operation res, w'))"
| "run_call co (CallLease c i request maxLeaseSeconds) w =
     (case AcceptLease co c i request maxLeaseSeconds w of (res, w') \<Rightarrow> (to_schedule mres_Operation res, w'))"
| "run_call co (CallTerminate c i request) w =
     (case AcceptTerminate co c i request w of (res, w') \<Rightarrow> (to_schedule mres_Operation res, w'))"
| "run_call co (CallRecover c) w = (None, snd (recover_work co c w))"
| "run_call co (CallExpired c) w = (None, snd (ProcessExpiredLeases co c w))"
| "run_call co (CallReadEvents c i after) w = (None, snd (Coordinator_ReadEvents co c i after w))"
| "run_call co (CallGetSandbox c i) w = (None, snd (Coordinator_GetSandbox co c i w))"
| "run_call co (CallGetOperation c i) w = (None, snd (Coordinator_GetOperation co c i w))"

fun call_context :: "app_call \<Rightarrow> ctx option" where
  "call_context (CallCreate c _) = c"
| "call_context (CallDesiredState c _ _) = c"
| "call_context (CallLease c _ _ _) = c"
| "call_context (CallTerminate c _ _) = c"
| "call_context (CallRecover c) = c"
| "call_context (CallExpired c) = c"
| "call_context (CallReadEvents c _ _) = c"
| "call_context (CallGetSandbox c _) = c"
| "call_context (CallGetOperation c _) = c"

datatype thread =
    Entered app_call
  | Scheduling string
  | Reconciling string
  | Deleting string
  | CountingOff
  | Sweeping

type_synonym ('r, 'd) app_system = "AppState \<times> thread multiset \<times> ('r, 'd) World"

inductive app_step :: "('r, 'd) Coordinator \<Rightarrow> ('r, 'd) app_system \<Rightarrow> ('r, 'd) app_system \<Rightarrow> bool" for co where
  enter: "Application_ready (Some a) (call_context call) (w_Tick w) = None \<Longrightarrow>
    app_step co (a, ts, w) (a, add_mset (Entered call) ts, w\<lparr>w_Tick := Suc (w_Tick w)\<rparr>)"
| call: "run_call co call w = (None, w') \<Longrightarrow> app_step co (a, add_mset (Entered call) ts, w) (a, ts, w')"
| accepted: "run_call co call w = (Some i, w') \<Longrightarrow>
    app_step co (a, add_mset (Entered call) ts, w) (a, add_mset (Scheduling i) ts, w')"
| spawn: "starts_worker i a \<Longrightarrow>
    app_step co (a, add_mset (Scheduling i) ts, w) (Application_schedule i a, add_mset (Reconciling i) ts, w)"
| no_spawn: "\<not> starts_worker i a \<Longrightarrow>
    app_step co (a, add_mset (Scheduling i) ts, w) (Application_schedule i a, ts, w)"
| reconcile: "app_step co (a, add_mset (Reconciling i) ts, w)
    (a, add_mset (Deleting i) ts, snd (ReconcileOperation co c i w))"
| delete: "app_step co (a, add_mset (Deleting i) ts, w) (worker_delete i a, add_mset CountingOff ts, w)"
| count_off: "app_step co (a, add_mset CountingOff ts, w) (worker_done a, ts, w)"
| sweep: "Sweeping \<in># ts \<Longrightarrow> app_step co (a, ts, w) (a, ts, lease_sweep co c w)"
| sweep_end: "ap_Closed a \<Longrightarrow> app_step co (a, add_mset Sweeping ts, w) (a, add_mset CountingOff ts, w)"
| close: "app_step co (a, ts, w) (close_mark a, ts, w)"
| elapse: "app_step co (a, ts, w) (a, ts, w\<lparr>w_Driver := d, w_Tick := t\<rparr>)"

inductive app_runs :: "('r, 'd) Coordinator \<Rightarrow> ('r, 'd) app_system \<Rightarrow> ('r, 'd) app_system \<Rightarrow> bool" for co where
  start: "app_runs co s s"
| step: "app_runs co s t \<Longrightarrow> app_step co t u \<Longrightarrow> app_runs co s u"

section \<open>Workers\<close>

fun worker_of :: "thread \<Rightarrow> string multiset" where
  "worker_of (Reconciling i) = {#i#}"
| "worker_of (Deleting i) = {#i#}"
| "worker_of _ = {#}"

fun counted :: "thread \<Rightarrow> bool" where
  "counted (Entered _) = False"
| "counted (Scheduling _) = False"
| "counted _ = True"

text \<open>
  Every registered operation has one worker, and the wait group counts exactly the goroutines that have not
  been counted off.
\<close>

definition app_inv :: "AppState \<Rightarrow> thread multiset \<Rightarrow> bool" where
  "app_inv a ts \<longleftrightarrow>
     \<Sum>\<^sub># (image_mset worker_of ts) = mset_set (fset (ap_Workers a)) \<and>
     ap_Wait a = size (filter_mset counted ts)"

lemma mset_set_minus:
  assumes "add_mset i m = mset_set A" and "finite A"
  shows "m = mset_set (A - {i})"
proof -
  have "i \<in> A" using assms by (metis finite_set_mset_mset_set union_single_eq_member)
  then have "mset_set (A - {i}) = mset_set A - mset_set {i}" using assms(2) by (intro mset_set_Diff) auto
  then show ?thesis by (simp flip: assms(1))
qed

lemma app_inv_step: "app_step co (a, ts, w) (a', ts', w') \<Longrightarrow> app_inv a ts \<Longrightarrow> app_inv a' ts'"
  by (erule app_step.cases)
    (auto simp: app_inv_def starts_worker_def Application_schedule_def worker_delete_def worker_done_def close_mark_def
      dest: mset_set_minus)

lemma app_inv_runs: "app_runs co (a, ts, w) (a', ts', w') \<Longrightarrow> app_inv a ts \<Longrightarrow> app_inv a' ts'"
proof (induction "(a, ts, w)" "(a', ts', w')" arbitrary: a' ts' w' rule: app_runs.induct)
  case (step t)
  then show ?case by (cases t) (blast intro: app_inv_step)
qed

lemma app_inv_New: "Application_New complete = Inr a \<Longrightarrow> app_inv a {#Sweeping#}"
  by (auto simp: Application_New_def app_inv_def startLeaseWorker_def split: if_splits)

lemma count_worker_of:
  "count (\<Sum>\<^sub># (image_mset worker_of ts)) i = count ts (Reconciling i) + count ts (Deleting i)"
proof (induction ts)
  case (add t ts)
  then show ?case by (cases t) auto
qed simp

section \<open>Closing\<close>

text \<open>What is left to do before the wait group is down to zero.\<close>

fun work :: "thread \<Rightarrow> nat" where
  "work (Reconciling _) = 3"
| "work (Deleting _) = 2"
| "work Sweeping = 2"
| "work CountingOff = 1"
| "work _ = 0"

definition work_left :: "thread multiset \<Rightarrow> nat" where
  "work_left ts = \<Sum>\<^sub># (image_mset work ts)"

fun entered :: "thread \<Rightarrow> bool" where
  "entered (Entered _) = True"
| "entered _ = False"

lemma closed_step:
  assumes "app_step co (a, ts, w) (a', ts', w')" and "ap_Closed a"
  shows "ap_Closed a' \<and> work_left ts' \<le> work_left ts \<and>
    filter_mset entered ts' \<subseteq># filter_mset entered ts \<and>
    (filter_mset counted ts = {#} \<longrightarrow> filter_mset counted ts' = {#})"
  using assms
  by (cases rule: app_step.cases)
    (auto simp: work_left_def Application_ready_def fail_if_def starts_worker_def Application_schedule_def
      worker_delete_def worker_done_def close_mark_def split: option.splits)

lemma closed_runs:
  assumes "app_runs co (a, ts, w) (a', ts', w')" and "ap_Closed a"
  shows "ap_Closed a' \<and> filter_mset entered ts' \<subseteq># filter_mset entered ts \<and>
    (filter_mset counted ts = {#} \<longrightarrow> filter_mset counted ts' = {#})"
  using assms
proof (induction "(a, ts, w)" "(a', ts', w')" arbitrary: a' ts' w' rule: app_runs.induct)
  case (step t)
  then show ?case by (cases t) (blast dest: closed_step intro: subset_mset.order_trans)
qed simp

lemma counted_moves:
  assumes "t \<in># ts" and "counted t" and "ap_Closed a"
  shows "\<exists>a' ts' w'. app_step co (a, ts, w) (a', ts', w') \<and> work_left ts' < work_left ts"
proof -
  obtain rest where ts: "ts = add_mset t rest" using assms(1) by (metis multi_member_split)
  show ?thesis
  proof (cases t)
    case (Reconciling i)
    show ?thesis unfolding ts Reconciling
      by (intro exI conjI, rule app_step.reconcile) (simp add: work_left_def)
  next
    case (Deleting i)
    show ?thesis unfolding ts Deleting by (intro exI conjI, rule app_step.delete) (simp add: work_left_def)
  next
    case CountingOff
    show ?thesis unfolding ts CountingOff by (intro exI conjI, rule app_step.count_off) (simp add: work_left_def)
  next
    case Sweeping
    show ?thesis unfolding ts Sweeping
      by (intro exI conjI, rule app_step.sweep_end [OF assms(3)]) (simp add: work_left_def)
  qed (use assms(2) in simp_all)
qed

section \<open>Coordinator calls\<close>

lemma coordinator_runs_trans:
  "coordinator_runs view co n v w \<Longrightarrow> coordinator_runs view co m u v \<Longrightarrow> coordinator_runs view co (m + n) u w"
proof (induction rule: coordinator_runs.induct)
  case (step k x y n z)
  then show ?case using coordinator_runs.step [of view co "m + k" u y n z] by (simp add: add.assoc)
qed simp

definition reaches :: "('r \<Rightarrow> State) \<Rightarrow> ('r, 'd) Coordinator \<Rightarrow> ('r, 'd) World \<Rightarrow> ('r, 'd) World \<Rightarrow> bool" where
  "reaches view co w w' \<longleftrightarrow> (\<exists>n. coordinator_runs view co n w w')"

lemma reaches_refl: "reaches view co w w"
  unfolding reaches_def by (blast intro: coordinator_runs.start)

lemma reaches_trans: "reaches view co u v \<Longrightarrow> reaches view co v w \<Longrightarrow> reaches view co u w"
  unfolding reaches_def by (blast intro: coordinator_runs_trans)

lemma reaches_call: "coordinator_call view co n w w' \<Longrightarrow> reaches view co w w'"
  unfolding reaches_def by (blast intro: coordinator_runs.intros)

lemmas reaches_calls = coordinator_call.intros [THEN reaches_call]

lemma reaches_sweep:
  "reaches view co w (snd (ReconcilePending co c w))" "reaches view co w (snd (ProcessExpiredLeases co c w))"
  by (rule reaches_calls(6) [OF le_refl] reaches_calls(7) [OF le_refl])+

lemma reaches_tick: "reaches view co w (w\<lparr>w_Tick := t\<rparr>)"
  using reaches_call [OF coordinator_call.elapse [where w = w and d = "w_Driver w"]] by simp

lemma reaches_recover: "reaches view co w (snd (recover_work co c w))"
  using reaches_sweep(1) [of view co w c] reaches_trans [OF reaches_sweep, of view co w c c]
  by (simp add: recover_work_def return_err_def case_prod_unfold split: option.splits)

lemma reaches_run_call: "reaches view co w (snd (run_call co call w))"
  by (cases call) (simp_all add: reaches_sweep reaches_recover reaches_calls case_prod_unfold)

lemma app_step_reaches:
  assumes "app_step co (a, ts, w) (a', ts', w')"
  shows "reaches view co w w'"
  using assms
proof (cases rule: app_step.cases)
  case (call call)
  then show ?thesis using reaches_run_call [of view co w call] by simp
next
  case (accepted call i)
  then show ?thesis using reaches_run_call [of view co w call] by simp
next
  case (sweep c)
  then show ?thesis using reaches_trans [OF reaches_sweep, of view co w c c] by (simp add: lease_sweep_def)
qed (auto simp: reaches_refl reaches_tick intro: reaches_calls)

lemma app_runs_reaches: "app_runs co (a, ts, w) (a', ts', w') \<Longrightarrow> reaches view co w w'"
proof (induction "(a, ts, w)" "(a', ts', w')" arbitrary: a' ts' w' rule: app_runs.induct)
  case (step t)
  then show ?case by (cases t) (blast intro: app_step_reaches reaches_trans)
qed (simp add: reaches_refl)

section \<open>Methods as threads\<close>

text \<open>
  The state and world a method leaves behind, for every method at once: the sequential definitions above
  agree with it.
\<close>

definition run_method :: "('r, 'd) Coordinator \<Rightarrow> app_call \<Rightarrow> AppState \<times> ('r, 'd) World \<Rightarrow> AppState \<times> ('r, 'd) World" where
  "run_method co call = (\<lambda>(a, w).
     let w1 = w\<lparr>w_Tick := Suc (w_Tick w)\<rparr>
     in case Application_ready (Some a) (call_context call) (w_Tick w) of
          Some e \<Rightarrow> (a, w1)
        | None \<Rightarrow>
            (case run_call co call w1 of
               (None, w') \<Rightarrow> (a, w')
             | (Some i, w') \<Rightarrow> (Application_schedule i a, w')))"

fun perform :: "('r, 'd) Coordinator \<Rightarrow> app_call \<Rightarrow> AppState option \<times> ('r, 'd) World \<Rightarrow> AppState option \<times> ('r, 'd) World" where
  "perform co (CallCreate c request) s = snd (Application_AcceptCreate co c request s)"
| "perform co (CallDesiredState c i request) s = snd (Application_AcceptDesiredState co c i request s)"
| "perform co (CallLease c i request maxLeaseSeconds) s = snd (Application_AcceptLease co c i request maxLeaseSeconds s)"
| "perform co (CallTerminate c i request) s = snd (Application_AcceptTerminate co c i request s)"
| "perform co (CallRecover c) s = snd (Recover co c s)"
| "perform co (CallExpired c) s = snd (Application_ProcessExpiredLeases co c s)"
| "perform co (CallReadEvents c i after) s = snd (Application_ReadEvents co c i after s)"
| "perform co (CallGetSandbox c i) s = snd (Application_GetSandbox co c i s)"
| "perform co (CallGetOperation c i) s = snd (Application_GetOperation co c i s)"

lemmas method_defs = Application_AcceptCreate_def Application_AcceptDesiredState_def Application_AcceptLease_def
  Application_AcceptTerminate_def Recover_def Application_ProcessExpiredLeases_def Application_ReadEvents_def
  Application_GetSandbox_def Application_GetOperation_def

lemma perform_run: "perform co call (Some a, w) = map_prod Some id (run_method co call (a, w))"
  by (cases call)
    (simp_all add: method_defs run_method_def when_ready_def delegate_def accept_and_schedule_def schedule_opt_def
      case_prod_unfold Let_def split: option.splits)

lemma perform_threads:
  assumes "perform co call (Some a, w) = (Some a', w')"
  shows "\<exists>ts'. app_runs co (a, ts, w) (a', ts', w')"
proof -
  let ?w = "w\<lparr>w_Tick := Suc (w_Tick w)\<rparr>"
  have run: "run_method co call (a, w) = (a', w')" using assms by (cases "run_method co call (a, w)") (simp add: perform_run)
  show ?thesis
  proof (cases "Application_ready (Some a) (call_context call) (w_Tick w)")
    case (Some e)
    then have same: "a' = a" "w' = w\<lparr>w_Driver := w_Driver w, w_Tick := Suc (w_Tick w)\<rparr>"
      using run by (simp_all add: run_method_def Let_def)
    show ?thesis unfolding same by (rule exI, rule app_runs.step [OF app_runs.start app_step.elapse])
  next
    case None
    then have enter: "app_runs co (a, ts, w) (a, add_mset (Entered call) ts, ?w)"
      by (intro app_runs.step [OF app_runs.start] app_step.enter)
    obtain i v where call: "run_call co call ?w = (i, v)" by fastforce
    show ?thesis
    proof (cases i)
      case None
      with call run \<open>Application_ready _ _ _ = None\<close> have "a' = a" "v = w'" by (simp_all add: run_method_def)
      then show ?thesis using app_runs.step [OF enter app_step.call] call None by blast
    next
      case (Some j)
      with call run \<open>Application_ready _ _ _ = None\<close> have "a' = Application_schedule j a" "v = w'"
        by (simp_all add: run_method_def)
      then show ?thesis
        using app_runs.step [OF enter app_step.accepted] call Some
          app_runs.step [OF _ app_step.spawn] app_runs.step [OF _ app_step.no_spawn] by metis
    qed
  qed
qed

section \<open>A sample run\<close>

text \<open>A create is accepted at time 100, its worker is started and runs, and the application is closed.\<close>

definition coordinator100 :: "(FileRepository, FakeDriver) Coordinator" where
  "coordinator100 = \<lparr>co_Repository = file_port, co_Driver = fake_driver,
     co_Env = \<lparr>en_Clock = \<lambda>_. 100, en_Timer = \<lambda>_ _. False, en_Others = \<lambda>_ r. r\<rparr>\<rparr>"

definition app1 :: AppState where
  "app1 = \<lparr>ap_Closed = False, ap_Workers = {||}, ap_Wait = 1\<rparr>"

definition appworld :: "FileRepository \<Rightarrow> nat \<Rightarrow> (FileRepository, FakeDriver) World" where
  "appworld r n = \<lparr>w_Repository = r, w_Driver = Fake_New, w_Tick = n\<rparr>"

lemma app1_New: "Application_New True = Inr app1"
  by (simp add: Application_New_def startLeaseWorker_def app1_def)

lemma app1_accepts: "run_call coordinator100 (CallCreate live create1) (appworld file1 1) = (Some ''op1'', appworld file2 8)"
proof -
  have "StartCreate create1 100 = Inr (sandbox1, operation1)"
    using create1_valid by (simp add: StartCreate_def sandbox1_def operation1_def create1_def spec1_def)
  moreover have "File_ReserveCreate (from_now (Suc (Suc (Suc 0))) live) ''key1'' digest1 sandbox1 operation1 file1 =
      (Inr \<lparr>cres_Operation = operation1, cres_Replayed = False\<rparr>, file2)"
    using create_file_sample by (simp add: from_now_def live_def)
  ultimately show ?thesis
    by (simp add: AcceptCreate_def poll_def clock_now_def write_or_return_def repo_write_def or_return_def return_def
        coordinator100_def appworld_def file_port_def create1_def contextError_def live_def to_schedule_def return_err_def
        operation1_fields)
qed

lemma app1_worker:
  "app_runs coordinator100 (app1, {#Sweeping#}, appworld file1 0)
     (app1\<lparr>ap_Workers := {|''op1''|}, ap_Wait := 2\<rparr>, {#Reconciling ''op1'', Sweeping#}, appworld file2 8)"
proof -
  have "app_step coordinator100 (app1, {#Sweeping#}, appworld file1 0)
      (app1, {#Entered (CallCreate live create1), Sweeping#}, appworld file1 1)"
    using app_step.enter [of app1 "CallCreate live create1" "appworld file1 0"]
    by (simp add: Application_ready_def contextError_def live_def app1_def appworld_def fail_if_def)
  moreover have "app_step coordinator100 (app1, {#Scheduling ''op1'', Sweeping#}, appworld file2 8)
      (app1\<lparr>ap_Workers := {|''op1''|}, ap_Wait := 2\<rparr>, {#Reconciling ''op1'', Sweeping#}, appworld file2 8)"
    using app_step.spawn [of "''op1''" app1 coordinator100 "{#Sweeping#}" "appworld file2 8"]
    by (simp add: starts_worker_def Application_schedule_def app1_def numeral_2_eq_2)
  ultimately show ?thesis
    using app_step.accepted [OF app1_accepts] by (blast intro: app_runs.intros)
qed

text \<open>The same application, closed before any call: the sweep ends and is counted off.\<close>

lemma app1_closed:
  "app_runs co (app1, {#Sweeping#}, w) (app1\<lparr>ap_Closed := True\<rparr>, {#Sweeping#}, w)"
  "app_runs co (app1, {#Sweeping#}, w) (app1\<lparr>ap_Closed := True, ap_Wait := 0\<rparr>, {#}, w)"
proof -
  show close: "app_runs co (app1, {#Sweeping#}, w) (app1\<lparr>ap_Closed := True\<rparr>, {#Sweeping#}, w)"
    using app_runs.step [OF app_runs.start app_step.close] by (simp add: close_mark_def)
  have "app_step co (app1\<lparr>ap_Closed := True\<rparr>, {#Sweeping#}, w) (app1\<lparr>ap_Closed := True\<rparr>, {#CountingOff#}, w)"
    by (rule app_step.sweep_end) simp
  moreover have "app_step co (app1\<lparr>ap_Closed := True\<rparr>, {#CountingOff#}, w) (app1\<lparr>ap_Closed := True, ap_Wait := 0\<rparr>, {#}, w)"
    using app_step.count_off [of co "app1\<lparr>ap_Closed := True\<rparr>" "{#}" w] by (simp add: worker_done_def app1_def)
  ultimately show "app_runs co (app1, {#Sweeping#}, w) (app1\<lparr>ap_Closed := True, ap_Wait := 0\<rparr>, {#}, w)"
    using close by (blast intro: app_runs.step)
qed

section \<open>Properties\<close>

text \<open>
  C26. One worker per operation. Whatever calls, workers, sweeps and closings do in whatever order, an
  operation has a worker exactly when it is registered, and then exactly one: it is never reconciled by two
  workers of the application at once. The wait group counts exactly the goroutines that have not ended.
\<close>

theorem one_worker_per_operation:
  assumes "Application_New complete = Inr a\<^sub>0" and "app_runs co (a\<^sub>0, {#Sweeping#}, w\<^sub>0) (a, ts, w)"
  shows "count ts (Reconciling i) + count ts (Deleting i) = (if i |\<in>| ap_Workers a then 1 else 0) \<and>
    ap_Wait a = size (filter_mset counted ts)"
proof -
  have inv: "app_inv a ts" using app_inv_runs [OF assms(2)] app_inv_New [OF assms(1)] by blast
  then have "count (\<Sum>\<^sub># (image_mset worker_of ts)) i = count (mset_set (fset (ap_Workers a))) i"
    by (simp add: app_inv_def)
  with inv show ?thesis unfolding count_worker_of by (simp add: app_inv_def count_mset_set')
qed

theorem one_worker_per_operation_witness:
  "count {#Reconciling ''op1'', Sweeping#} (Reconciling ''op1'') + count {#Reconciling ''op1'', Sweeping#} (Deleting ''op1'') = 1"
  using one_worker_per_operation [OF app1_New app1_worker, of "''op1''"] by simp

text \<open>
  C27. Closing is final. From the moment \<^verbatim>\<open>Close\<close> can return, no worker and no sweep of the application
  runs, none is ever started again, and no call passes the readiness check any more; only calls that had
  passed it before may still be finishing.
\<close>

theorem close_is_final:
  assumes "Application_New complete = Inr a\<^sub>0" and "app_runs co (a\<^sub>0, {#Sweeping#}, w\<^sub>0) (a, ts, w)"
    and "ap_Closed a" and "\<not> close_waits a" and "app_runs co (a, ts, w) (a', ts', w')"
  shows "ap_Closed a' \<and> \<not> close_waits a' \<and> filter_mset counted ts' = {#} \<and>
    filter_mset entered ts' \<subseteq># filter_mset entered ts"
proof -
  have inv: "app_inv a ts" using app_inv_runs [OF assms(2)] app_inv_New [OF assms(1)] by blast
  with assms(4) have "filter_mset counted ts = {#}" by (simp add: app_inv_def close_waits_def)
  with closed_runs [OF assms(5,3)] app_inv_runs [OF assms(5) inv] show ?thesis
    by (simp add: app_inv_def close_waits_def)
qed

theorem close_is_final_witness:
  "ap_Closed (close_mark (app1\<lparr>ap_Closed := True, ap_Wait := 0\<rparr>)) \<and>
   \<not> close_waits (close_mark (app1\<lparr>ap_Closed := True, ap_Wait := 0\<rparr>))"
  using close_is_final [OF app1_New app1_closed(2) [of coordinator100 "appworld file1 0"] _ _
      app_runs.step [OF app_runs.start app_step.close]] by (simp add: close_waits_def)





end
