(* ===== verification/Gateway_Limiter.thy ===== *)
theory Gateway_Limiter
  imports Go_World
begin

text \<open>
  The public-edge limiter of \<^verbatim>\<open>src/gateway/edge/limiter.go\<close>: a bound on the open connections of a
  process and a fixed-window bound on its connection attempts.

  An operation takes the answer of the limiter's clock as an argument. A lease is the state of its
  \<^verbatim>\<open>sync.Once\<close>: whether it has been released. The runs of the limiter keep a log of the attempts that were
  counted, each with the clock's answer, and the leases handed out.
\<close>

section \<open>Options and construction\<close>

definition MaxConcurrentConnections :: int where "MaxConcurrentConnections = 1000"

definition MaxRequestsPerWindow :: int where "MaxRequestsPerWindow = 100000"

definition millisecond :: int where "millisecond = 1000000"

definition second :: int where "second = 1000000000"

definition MinWindow :: int where "MinWindow = 100 * millisecond"

definition MaxWindow :: int where "MaxWindow = 60 * second"

text \<open>A clock option: nil, a nil pointer or function behind the interface, or a clock.\<close>

datatype clock_option = NilClock | TypedNilClock | GivenClock

definition nilDependency :: "clock_option \<Rightarrow> bool" where
  "nilDependency c \<longleftrightarrow> c = TypedNilClock"

record LocalOptions =
  lo_Clock :: clock_option
  lo_MaxConcurrent :: int
  lo_MaxRequestsPerWindow :: int
  lo_Window :: int

record LocalLimiter =
  ll_maxConcurrent :: int
  ll_maxRequestsPerWindow :: int
  ll_window :: int
  ll_windowStart :: time
  ll_requests :: int
  ll_active :: int

definition NewLocalLimiter :: "LocalOptions \<Rightarrow> error + LocalLimiter" where
  "NewLocalLimiter options =
     unless_err (first_err [
       fail_if (lo_MaxConcurrent options < 1 \<or> lo_MaxConcurrent options > MaxConcurrentConnections)
         [EdgeErr EdgeInvalidOptions],
       fail_if (lo_MaxRequestsPerWindow options < 1 \<or> lo_MaxRequestsPerWindow options > MaxRequestsPerWindow)
         [EdgeErr EdgeInvalidOptions],
       fail_if (lo_Window options < MinWindow \<or> lo_Window options > MaxWindow) [EdgeErr EdgeInvalidOptions],
       fail_if (nilDependency (lo_Clock options)) [EdgeErr EdgeInvalidOptions]])
     (Inr \<lparr>ll_maxConcurrent = lo_MaxConcurrent options, ll_maxRequestsPerWindow = lo_MaxRequestsPerWindow options,
        ll_window = lo_Window options, ll_windowStart = 0, ll_requests = 0, ll_active = 0\<rparr>)"

section \<open>Acquire and release\<close>

text \<open>An error, or a rejection that carries a retry hint.\<close>

datatype edge_error = Plain error | Rejection error int

definition newRejection :: "error \<Rightarrow> int \<Rightarrow> edge_error" where
  "newRejection cause retryAfter = Rejection cause (if retryAfter \<le> 0 then second else retryAfter)"

fun RetryAfter :: "edge_error \<Rightarrow> int" where
  "RetryAfter (Plain _) = 0"
| "RetryAfter (Rejection _ d) = d"

text \<open>A new lease is not released.\<close>

type_synonym localLease = bool

text \<open>The start of the window that the time falls into, and the attempts counted in it so far.\<close>

definition roll_window :: "time \<Rightarrow> LocalLimiter \<Rightarrow> LocalLimiter" where
  "roll_window now l =
     (if ll_windowStart l = 0 then l\<lparr>ll_windowStart := now\<rparr>
      else let elapsed = time_sub now (ll_windowStart l)
        in if elapsed \<ge> ll_window l
           then l\<lparr>ll_windowStart := ll_windowStart l + (elapsed div ll_window l) * ll_window l, ll_requests := 0\<rparr>
           else l)"

definition Limiter_Acquire ::
    "ctx option \<Rightarrow> nat \<Rightarrow> time \<Rightarrow> LocalLimiter option \<Rightarrow> (edge_error + localLease) \<times> LocalLimiter option" where
  "Limiter_Acquire c n now limiter =
     (case limiter of
        None \<Rightarrow> (Inl (Plain [EdgeErr EdgeUnavailable]), limiter)
      | Some l \<Rightarrow>
          if c = None then (Inl (Plain [EdgeErr EdgeUnavailable]), limiter)
          else (case contextError c n of
             Some e \<Rightarrow> (Inl (Plain e), limiter)
           | None \<Rightarrow>
               if now = 0 then (Inl (Plain [EdgeErr EdgeUnavailable]), limiter)
               else if ll_windowStart l \<noteq> 0 \<and> now < ll_windowStart l
                 then (Inl (Plain [EdgeErr EdgeUnavailable]), limiter)
               else
                 let l = roll_window now l;
                     windowEnd = ll_windowStart l + ll_window l
                 in if ll_requests l \<ge> ll_maxRequestsPerWindow l
                    then (Inl (newRejection [EdgeErr EdgeRateLimited] (time_sub windowEnd now)), Some l)
                    else
                      let l = l\<lparr>ll_requests := ll_requests l + 1\<rparr>
                      in if ll_active l \<ge> ll_maxConcurrent l
                         then (Inl (newRejection [EdgeErr EdgeCapacityExhausted] second), Some l)
                         else (Inr False, Some (l\<lparr>ll_active := ll_active l + 1\<rparr>))))"

definition Limiter_Release :: "localLease \<Rightarrow> LocalLimiter \<Rightarrow> localLease \<times> LocalLimiter" where
  "Limiter_Release released l =
     (if released then (released, l)
      else (True, if ll_active l > 0 then l\<lparr>ll_active := ll_active l - 1\<rparr> else l))"

section \<open>Runs\<close>

text \<open>
  A run: the limiter, the log of the attempts that passed the rate check, latest first, and the leases in the
  order they were handed out.
\<close>

record LimiterRun =
  lr_Limiter :: LocalLimiter
  lr_Log :: "time list"
  lr_Leases :: "localLease list"

text \<open>Whether an attempt passed the rate check: it got a lease, or only the connections were exhausted.\<close>

fun attempt_counted :: "edge_error + localLease \<Rightarrow> bool" where
  "attempt_counted (Inr _) = True"
| "attempt_counted (Inl (Rejection e _)) = errors_is e (EdgeErr EdgeCapacityExhausted)"
| "attempt_counted (Inl (Plain _)) = False"

fun new_lease :: "edge_error + localLease \<Rightarrow> localLease list" where
  "new_lease (Inr lease) = [lease]"
| "new_lease (Inl _) = []"

inductive limiter_step :: "time set \<Rightarrow> LimiterRun \<Rightarrow> LimiterRun \<Rightarrow> bool" for clk where
  acquire: "Limiter_Acquire c n now (Some (lr_Limiter r)) = (res, Some l) \<Longrightarrow> now \<in> clk \<Longrightarrow>
    limiter_step clk r \<lparr>lr_Limiter = l, lr_Log = (if attempt_counted res then now # lr_Log r else lr_Log r),
      lr_Leases = lr_Leases r @ new_lease res\<rparr>"
| release: "i < length (lr_Leases r) \<Longrightarrow> Limiter_Release (lr_Leases r ! i) (lr_Limiter r) = (lease, l) \<Longrightarrow>
    limiter_step clk r (r\<lparr>lr_Limiter := l, lr_Leases := (lr_Leases r)[i := lease]\<rparr>)"

inductive limiter_runs :: "time set \<Rightarrow> LimiterRun \<Rightarrow> LimiterRun \<Rightarrow> bool" for clk where
  start: "limiter_runs clk r r"
| step: "limiter_runs clk r s \<Longrightarrow> limiter_step clk s t \<Longrightarrow> limiter_runs clk r t"

definition limiter_start :: "LocalLimiter \<Rightarrow> LimiterRun" where
  "limiter_start l = \<lparr>lr_Limiter = l, lr_Log = [], lr_Leases = []\<rparr>"

section \<open>The branches of an attempt\<close>

lemma Limiter_Acquire_cases:
  assumes "Limiter_Acquire c n now (Some l) = (res, Some l')"
  obtains (refused) e where "res = Inl (Plain e)" "l' = l"
  | (limited) "now \<noteq> 0" "ll_windowStart l = 0 \<or> ll_windowStart l \<le> now" "l' = roll_window now l"
      "ll_requests l' \<ge> ll_maxRequestsPerWindow l'"
      "res = Inl (newRejection [EdgeErr EdgeRateLimited] (time_sub (ll_windowStart l' + ll_window l') now))"
  | (exhausted) r where "now \<noteq> 0" "ll_windowStart l = 0 \<or> ll_windowStart l \<le> now" "r = roll_window now l"
      "ll_requests r < ll_maxRequestsPerWindow r" "ll_active r \<ge> ll_maxConcurrent r"
      "l' = r\<lparr>ll_requests := ll_requests r + 1\<rparr>"
      "res = Inl (newRejection [EdgeErr EdgeCapacityExhausted] second)"
  | (granted) r where "now \<noteq> 0" "ll_windowStart l = 0 \<or> ll_windowStart l \<le> now" "r = roll_window now l"
      "ll_requests r < ll_maxRequestsPerWindow r" "ll_active r < ll_maxConcurrent r"
      "l' = r\<lparr>ll_requests := ll_requests r + 1, ll_active := ll_active r + 1\<rparr>" "res = Inr False"
proof (cases "c = None \<or> contextError c n \<noteq> None \<or> now = 0 \<or> ll_windowStart l \<noteq> 0 \<and> now < ll_windowStart l")
  case True
  then have "\<exists>e. Limiter_Acquire c n now (Some l) = (Inl (Plain e), Some l)"
    by (cases "c = None"; cases "contextError c n") (auto simp: Limiter_Acquire_def)
  with assms refused show ?thesis by auto
next
  case False
  let ?r = "roll_window now l"
  have now: "now \<noteq> 0" "ll_windowStart l = 0 \<or> ll_windowStart l \<le> now" using False by auto
  have eq: "Limiter_Acquire c n now (Some l) =
      (if ll_requests ?r \<ge> ll_maxRequestsPerWindow ?r
       then (Inl (newRejection [EdgeErr EdgeRateLimited] (time_sub (ll_windowStart ?r + ll_window ?r) now)), Some ?r)
       else if ll_active ?r \<ge> ll_maxConcurrent ?r
       then (Inl (newRejection [EdgeErr EdgeCapacityExhausted] second), Some (?r\<lparr>ll_requests := ll_requests ?r + 1\<rparr>))
       else (Inr False, Some (?r\<lparr>ll_requests := ll_requests ?r + 1, ll_active := ll_active ?r + 1\<rparr>)))"
    using False by (auto simp: Limiter_Acquire_def Let_def)
  consider "ll_requests ?r \<ge> ll_maxRequestsPerWindow ?r"
    | "ll_requests ?r < ll_maxRequestsPerWindow ?r" "ll_active ?r \<ge> ll_maxConcurrent ?r"
    | "ll_requests ?r < ll_maxRequestsPerWindow ?r" "ll_active ?r < ll_maxConcurrent ?r" by linarith
  then show ?thesis
  proof cases
    case 1
    with assms eq show ?thesis by (intro limited [OF now]) auto
  next
    case 2
    with assms eq show ?thesis by (intro exhausted [OF now refl 2]) auto
  next
    case 3
    with assms eq show ?thesis by (intro granted [OF now refl 3]) auto
  qed
qed

lemma roll_window_fields [simp]:
  "ll_active (roll_window now l) = ll_active l" "ll_maxConcurrent (roll_window now l) = ll_maxConcurrent l"
  "ll_window (roll_window now l) = ll_window l"
  "ll_maxRequestsPerWindow (roll_window now l) = ll_maxRequestsPerWindow l"
  by (simp_all add: roll_window_def Let_def)

section \<open>Leases\<close>

definition leases_inv :: "LimiterRun \<Rightarrow> bool" where
  "leases_inv r \<longleftrightarrow> ll_active (lr_Limiter r) = int (length (filter Not (lr_Leases r))) \<and>
     ll_active (lr_Limiter r) \<le> ll_maxConcurrent (lr_Limiter r)"

lemma filter_release:
  assumes "i < length xs" and "\<not> xs ! i"
  shows "length (filter Not xs) = Suc (length (filter Not (xs[i := True])))"
  using assms
proof (induction xs arbitrary: i)
  case (Cons x xs)
  then show ?case by (cases i) auto
qed simp

lemma leases_inv_step: "limiter_step clk r s \<Longrightarrow> leases_inv r \<Longrightarrow> leases_inv s"
proof (induction rule: limiter_step.induct)
  case (acquire c n now r res l)
  from acquire(1) show ?case
    by (cases rule: Limiter_Acquire_cases) (use acquire(3) in \<open>auto simp: leases_inv_def newRejection_def\<close>)
next
  case (release i r lease l)
  show ?case
  proof (cases "lr_Leases r ! i")
    case True
    then have "(lr_Leases r)[i := True] = lr_Leases r" by (metis list_update_id)
    with True release show ?thesis by (auto simp: Limiter_Release_def leases_inv_def)
  next
    case False
    with release filter_release [OF release(1) False] show ?thesis
      by (auto simp: Limiter_Release_def leases_inv_def)
  qed
qed

lemma leases_inv_runs: "limiter_runs clk r s \<Longrightarrow> leases_inv r \<Longrightarrow> leases_inv s"
  by (induction rule: limiter_runs.induct) (auto intro: leases_inv_step)

section \<open>Windows\<close>

text \<open>The clock runs after the zero time, and the run is shorter than the longest duration.\<close>

definition clock_within :: "time \<Rightarrow> time set \<Rightarrow> bool" where
  "clock_within lo clk \<longleftrightarrow> 0 < lo \<and> (\<forall>t \<in> clk. lo \<le> t \<and> t < lo + 2 ^ 63)"

text \<open>The window a time falls into, counted from the limiter's current one.\<close>

definition bucket :: "LocalLimiter \<Rightarrow> time \<Rightarrow> int" where
  "bucket l t = (t - ll_windowStart l) div ll_window l"

definition in_bucket :: "LocalLimiter \<Rightarrow> int \<Rightarrow> time list \<Rightarrow> int" where
  "in_bucket l k log = int (length (filter (\<lambda>t. bucket l t = k) log))"

text \<open>
  The counter counts the attempts of the current window, no attempt is in a later one, and no window has more
  attempts than allowed.
\<close>

definition window_inv :: "time \<Rightarrow> LocalLimiter \<Rightarrow> time list \<Rightarrow> bool" where
  "window_inv lo l log \<longleftrightarrow>
     0 < ll_window l \<and> 0 < ll_maxRequestsPerWindow l \<and>
     (ll_windowStart l = 0 \<and> log = [] \<and> ll_requests l = 0 \<or> lo \<le> ll_windowStart l) \<and>
     (\<forall>t \<in> set log. bucket l t \<le> 0) \<and>
     ll_requests l = in_bucket l 0 log \<and>
     (\<forall>k. in_bucket l k log \<le> ll_maxRequestsPerWindow l)"

lemma bucket_shift: "0 < ll_window l \<Longrightarrow> bucket (l\<lparr>ll_windowStart := ll_windowStart l + q * ll_window l, ll_requests := 0\<rparr>) t = bucket l t - q"
  using div_mult_self1 [of "ll_window l" "t - ll_windowStart l" "- q"] by (simp add: bucket_def algebra_simps)

lemma bucket_eq:
  assumes "0 < ll_window l"
  shows "bucket l t = k \<longleftrightarrow> ll_windowStart l + k * ll_window l \<le> t \<and> t < ll_windowStart l + (k + 1) * ll_window l"
proof -
  let ?x = "t - ll_windowStart l" and ?W = "ll_window l"
  have "?x div ?W * ?W \<le> ?x" "?x < ?x div ?W * ?W + ?W"
    using div_mult_mod_eq [of ?x ?W] pos_mod_sign [OF assms, of ?x] pos_mod_bound [OF assms, of ?x] by linarith+
  moreover have "?x div ?W = k" if "k * ?W \<le> ?x" "?x < (k + 1) * ?W"
    using that int_div_pos_eq [of ?x ?W k "?x - k * ?W"] by (simp add: algebra_simps)
  ultimately show ?thesis by (auto simp: bucket_def algebra_simps)
qed

lemma in_bucket_none: "(\<forall>t \<in> set log. bucket l t \<noteq> k) \<Longrightarrow> in_bucket l k log = 0"
  by (simp add: in_bucket_def filter_empty_conv)

lemma roll_window_inv:
  assumes inv: "window_inv lo l log" and "0 < lo" and now: "lo \<le> now" "now < lo + 2 ^ 63"
    and start: "ll_windowStart l = 0 \<or> ll_windowStart l \<le> now"
  shows "window_inv lo (roll_window now l) log \<and> bucket (roll_window now l) now = 0 \<and>
    ll_windowStart (roll_window now l) \<noteq> 0"
proof (cases "ll_windowStart l = 0")
  case True
  then have "log = []" "ll_requests l = 0" using inv assms(2) by (auto simp: window_inv_def)
  with True inv now(1) assms(2) show ?thesis
    by (simp add: window_inv_def roll_window_def bucket_def in_bucket_def)
next
  case False
  let ?q = "(now - ll_windowStart l) div ll_window l"
  have W: "0 < ll_window l" and lo: "lo \<le> ll_windowStart l" "ll_windowStart l \<le> now"
    using inv False start by (auto simp: window_inv_def)
  have sub: "time_sub now (ll_windowStart l) = now - ll_windowStart l"
    using lo now by (simp add: time_sub_def)
  show ?thesis
  proof (cases "ll_window l \<le> now - ll_windowStart l")
    case True
    let ?l = "l\<lparr>ll_windowStart := ll_windowStart l + ?q * ll_window l, ll_requests := 0\<rparr>"
    have roll: "roll_window now l = ?l" using False True sub by (simp add: roll_window_def)
    have q: "1 \<le> ?q" using True W zdiv_mono1 [of "ll_window l" "now - ll_windowStart l" "ll_window l"] by simp
    have b: "bucket ?l t = bucket l t - ?q" for t by (rule bucket_shift [OF W])
    have shift: "in_bucket ?l k log = in_bucket l (k + ?q) log" for k
      unfolding in_bucket_def b by (simp add: diff_eq_eq)
    have early: "\<forall>t \<in> set log. bucket ?l t \<le> -1" using inv q by (force simp: window_inv_def b)
    then have "in_bucket ?l 0 log = 0" by (intro in_bucket_none) force
    moreover have "lo \<le> ll_windowStart ?l" using lo(1) q W by (simp add: add_increasing2)
    moreover have "bucket ?l now = 0" unfolding b by (simp add: bucket_def)
    ultimately show ?thesis
      unfolding roll using inv early W assms(2) by (force simp: window_inv_def shift)
  next
    case False
    then have "roll_window now l = l" "bucket l now = 0"
      using \<open>ll_windowStart l \<noteq> 0\<close> sub lo(2) W by (simp_all add: roll_window_def bucket_def)
    with inv \<open>ll_windowStart l \<noteq> 0\<close> show ?thesis by simp
  qed
qed

lemma count_attempt:
  assumes "window_inv lo l log" and "bucket l now = 0" and "ll_windowStart l \<noteq> 0"
    and "ll_requests l < ll_maxRequestsPerWindow l"
  shows "window_inv lo (l\<lparr>ll_requests := ll_requests l + 1\<rparr>) (now # log)"
  using assms by (auto simp: window_inv_def in_bucket_def bucket_def)

lemma window_inv_active: "window_inv lo (l\<lparr>ll_active := n\<rparr>) log \<longleftrightarrow> window_inv lo l log"
  by (simp add: window_inv_def bucket_def in_bucket_def)

lemma window_inv_step:
  assumes "limiter_step clk r s" and "clock_within lo clk" and "window_inv lo (lr_Limiter r) (lr_Log r)"
  shows "window_inv lo (lr_Limiter s) (lr_Log s)"
  using assms(1,3)
proof (induction rule: limiter_step.induct)
  case (acquire c n now r res l)
  have "0 < lo" "lo \<le> now" "now < lo + 2 ^ 63" using assms(2) acquire(2) by (auto simp: clock_within_def)
  note roll = roll_window_inv [OF acquire(3) this]
  from acquire(1) show ?case
  proof (cases rule: Limiter_Acquire_cases)
    case limited
    with roll show ?thesis by (simp add: newRejection_def)
  next
    case (exhausted r')
    with roll count_attempt [of lo r' "lr_Log r" now] show ?thesis by (simp add: newRejection_def)
  next
    case (granted r')
    with roll count_attempt [of lo r' "lr_Log r" now] show ?thesis by (simp add: window_inv_active)
  qed (use acquire(3) in simp)
next
  case (release i r lease l)
  then show ?case by (auto simp: Limiter_Release_def window_inv_active split: if_splits)
qed

lemma window_inv_runs:
  "limiter_runs clk r s \<Longrightarrow> clock_within lo clk \<Longrightarrow> window_inv lo (lr_Limiter r) (lr_Log r) \<Longrightarrow>
   window_inv lo (lr_Limiter s) (lr_Log s)"
  by (induction rule: limiter_runs.induct) (auto intro: window_inv_step)

lemma NewLocalLimiter_inv:
  assumes "NewLocalLimiter options = Inr l"
  shows "window_inv lo l []" "leases_inv (limiter_start l)"
  using assms by (auto simp: NewLocalLimiter_def window_inv_def in_bucket_def leases_inv_def limiter_start_def
      MinWindow_def millisecond_def)

text \<open>A time interval as long as a window meets at most two windows.\<close>

lemma two_buckets:
  assumes "0 < ll_window l" and "t0 \<le> t" and "t < t0 + ll_window l"
  shows "bucket l t = bucket l t0 \<or> bucket l t = bucket l t0 + 1"
proof -
  have "bucket l t0 \<le> bucket l t" using assms unfolding bucket_def by (intro zdiv_mono1) auto
  moreover have "bucket l t \<le> bucket l (t0 + ll_window l)" using assms unfolding bucket_def by (intro zdiv_mono1) auto
  moreover have "bucket l (t0 + ll_window l) = bucket l t0 + 1"
    using assms(1) div_add_self2 [of "ll_window l" "t0 - ll_windowStart l"] by (simp add: bucket_def algebra_simps)
  ultimately show ?thesis by linarith
qed

lemma interval_bound:
  assumes "window_inv lo l log"
  shows "int (length (filter (\<lambda>t. t0 \<le> t \<and> t < t0 + ll_window l) log)) \<le> 2 * ll_maxRequestsPerWindow l"
proof -
  let ?k = "bucket l t0"
  have W: "0 < ll_window l" using assms by (simp add: window_inv_def)
  have "length (filter (\<lambda>t. t0 \<le> t \<and> t < t0 + ll_window l) log) \<le>
      length (filter (\<lambda>t. bucket l t = ?k) log) + length (filter (\<lambda>t. bucket l t = ?k + 1) log)"
    using two_buckets [OF W] by (induction log) auto
  moreover have "in_bucket l ?k log \<le> ll_maxRequestsPerWindow l" "in_bucket l (?k + 1) log \<le> ll_maxRequestsPerWindow l"
    using assms by (simp_all add: window_inv_def)
  ultimately show ?thesis by (simp add: in_bucket_def)
qed

lemma limiter_limits:
  assumes "limiter_runs clk r s"
  shows "ll_window (lr_Limiter s) = ll_window (lr_Limiter r) \<and>
    ll_maxRequestsPerWindow (lr_Limiter s) = ll_maxRequestsPerWindow (lr_Limiter r) \<and>
    ll_maxConcurrent (lr_Limiter s) = ll_maxConcurrent (lr_Limiter r)"
  using assms
proof (induction rule: limiter_runs.induct)
  case (step r s t)
  from step(2) show ?case
  proof (cases rule: limiter_step.cases)
    case (acquire c n now res l)
    from acquire(2) show ?thesis by (cases rule: Limiter_Acquire_cases) (use acquire(1) step.IH in auto)
  next
    case (release i lease l)
    then show ?thesis using step.IH by (auto simp: Limiter_Release_def split: if_splits)
  qed
qed simp

lemma limiter_options:
  assumes "NewLocalLimiter options = Inr l" and "limiter_runs clk (limiter_start l) r"
  shows "ll_window (lr_Limiter r) = lo_Window options" "0 < lo_Window options"
    "ll_maxRequestsPerWindow (lr_Limiter r) = lo_MaxRequestsPerWindow options"
    "ll_maxConcurrent (lr_Limiter r) = lo_MaxConcurrent options" "lo_MaxConcurrent options \<le> MaxConcurrentConnections"
  using limiter_limits [OF assms(2)] assms(1)
  by (auto simp: NewLocalLimiter_def limiter_start_def MinWindow_def millisecond_def)

lemma limiter_window_inv:
  assumes "NewLocalLimiter options = Inr l" and "clock_within lo clk" and "limiter_runs clk (limiter_start l) r"
  shows "window_inv lo (lr_Limiter r) (lr_Log r)"
  using window_inv_runs [OF assms(3,2)] NewLocalLimiter_inv(1) [OF assms(1)] by (simp add: limiter_start_def)

text \<open>A later attempt in a later window starts from a fresh counter.\<close>

lemma next_window_counted:
  assumes "window_inv lo l log" and "lo \<le> ll_windowStart l" and "0 < lo"
    and "ll_windowStart l + ll_window l \<le> now" and "now < lo + 2 ^ 63" and "c \<noteq> None" and "contextError c n = None"
  shows "attempt_counted (fst (Limiter_Acquire c n now (Some l)))"
proof -
  have W: "0 < ll_window l" "0 < ll_maxRequestsPerWindow l" using assms(1) by (simp_all add: window_inv_def)
  have "time_sub now (ll_windowStart l) = now - ll_windowStart l" using assms W by (simp add: time_sub_def)
  then have "ll_requests (roll_window now l) = 0" using assms by (simp add: roll_window_def Let_def)
  with assms W show ?thesis by (auto simp: Limiter_Acquire_def Let_def newRejection_def)
qed

section \<open>A sample run\<close>

text \<open>One connection and one attempt per second: a lease is handed out and released, and the next attempt is rejected.\<close>

definition options1 :: LocalOptions where
  "options1 = \<lparr>lo_Clock = GivenClock, lo_MaxConcurrent = 1, lo_MaxRequestsPerWindow = 1, lo_Window = second\<rparr>"

definition limiter1 :: "time \<Rightarrow> int \<Rightarrow> int \<Rightarrow> LocalLimiter" where
  "limiter1 start requests active = \<lparr>ll_maxConcurrent = 1, ll_maxRequestsPerWindow = 1, ll_window = second,
     ll_windowStart = start, ll_requests = requests, ll_active = active\<rparr>"

lemma options1_New: "NewLocalLimiter options1 = Inr (limiter1 0 0 0)"
  by (simp add: NewLocalLimiter_def options1_def limiter1_def nilDependency_def MaxConcurrentConnections_def
      MaxRequestsPerWindow_def MinWindow_def MaxWindow_def millisecond_def second_def)

lemmas limiter1_eval = Limiter_Acquire_def contextError_def live_def limiter1_def roll_window_def Let_def
  time_sub_def second_def newRejection_def

lemma limiter1_run:
  "limiter_runs {1000} (limiter_start (limiter1 0 0 0)) \<lparr>lr_Limiter = limiter1 1000 1 0, lr_Log = [1000], lr_Leases = [True]\<rparr>"
proof -
  have "Limiter_Acquire live 0 1000 (Some (limiter1 0 0 0)) = (Inr False, Some (limiter1 1000 1 1))"
    by (simp add: limiter1_eval)
  then have "limiter_step {1000} (limiter_start (limiter1 0 0 0))
      \<lparr>lr_Limiter = limiter1 1000 1 1, lr_Log = [1000], lr_Leases = [False]\<rparr>"
    using limiter_step.acquire [of live 0 1000 "limiter_start (limiter1 0 0 0)" "Inr False" "limiter1 1000 1 1" "{1000}"]
    by (simp add: limiter_start_def)
  moreover have "limiter_step {1000} \<lparr>lr_Limiter = limiter1 1000 1 1, lr_Log = [1000], lr_Leases = [False]\<rparr>
      \<lparr>lr_Limiter = limiter1 1000 1 0, lr_Log = [1000], lr_Leases = [True]\<rparr>"
    using limiter_step.release [of 0 "\<lparr>lr_Limiter = limiter1 1000 1 1, lr_Log = [1000], lr_Leases = [False]\<rparr>"
        True "limiter1 1000 1 0" "{1000}"] by (simp add: Limiter_Release_def limiter1_def)
  ultimately show ?thesis by (blast intro: limiter_runs.intros)
qed

lemma clock1: "clock_within 1 {1000}"
  by (simp add: clock_within_def)

section \<open>Properties\<close>



text \<open>
  Connection slots are counted exactly. Whatever attempts and releases happen, in any order and with any
  clock, the number of active connections is the number of leases handed out and not yet released, however
  often a lease is released, and it never exceeds the configured maximum. So no slot leaks and none is freed
  twice.
\<close>

theorem limiter_counts_leases:
  assumes "NewLocalLimiter options = Inr l" and "limiter_runs clk (limiter_start l) r"
  shows "ll_active (lr_Limiter r) = int (length (filter Not (lr_Leases r))) \<and>
    int (length (filter Not (lr_Leases r))) \<le> lo_MaxConcurrent options \<and>
    (\<forall>i < length (lr_Leases r). lr_Leases r ! i \<longrightarrow>
       Limiter_Release (lr_Leases r ! i) (lr_Limiter r) = (lr_Leases r ! i, lr_Limiter r))"
  using leases_inv_runs [OF assms(2) NewLocalLimiter_inv(2) [OF assms(1)]] limiter_options(4) [OF assms]
  by (simp add: leases_inv_def Limiter_Release_def)

theorem limiter_counts_leases_witness:
  "Limiter_Release True (limiter1 1000 1 0) = (True, limiter1 1000 1 0) \<and> ll_active (limiter1 1000 1 0) = 0"
  using limiter_counts_leases [OF options1_New limiter1_run] by simp

text \<open>
  C33. The retry hint is enough. An attempt that is rejected for its rate carries a hint that is positive and no
  longer than a window, and an attempt made after that time, on the limiter the rejection left, passes the rate
  check.
\<close>

theorem retry_after_suffices:
  assumes "NewLocalLimiter options = Inr l" and "clock_within lo clk" and "limiter_runs clk (limiter_start l) r"
    and "now \<in> clk" and "Limiter_Acquire c n now (Some (lr_Limiter r)) = (Inl e, Some l')"
    and "e = Rejection [EdgeErr EdgeRateLimited] d"
    and "now + d \<le> now'" and "now' < lo + 2 ^ 63" and "c' \<noteq> None" and "contextError c' n' = None"
  shows "0 < RetryAfter e \<and> RetryAfter e \<le> lo_Window options \<and>
    attempt_counted (fst (Limiter_Acquire c' n' now' (Some l')))"
proof -
  have lo: "0 < lo" "lo \<le> now" "now < lo + 2 ^ 63" using assms(2,4) by (auto simp: clock_within_def)
  note inv = limiter_window_inv [OF assms(1-3)]
  from assms(5) show ?thesis
  proof (cases rule: Limiter_Acquire_cases)
    case limited
    have roll: "window_inv lo l' (lr_Log r)" "bucket l' now = 0" "ll_windowStart l' \<noteq> 0"
      using roll_window_inv [OF inv lo limited(2)] limited(3) by simp_all
    have W: "ll_window l' = lo_Window options" "0 < lo_Window options"
      using limited(3) limiter_options(1,2) [OF assms(1,3)] by simp_all
    have ws: "lo \<le> ll_windowStart l'" using roll(1,3) by (auto simp: window_inv_def)
    have "0 \<le> now - ll_windowStart l'" "now - ll_windowStart l' < lo_Window options"
      using roll(2) bucket_eq [of l' now 0] W by simp_all
    moreover have "lo_Window options \<le> MaxWindow" using assms(1) by (simp add: NewLocalLimiter_def)
    ultimately have d: "d = ll_windowStart l' + ll_window l' - now" "0 < d" "d \<le> lo_Window options"
      using limited(5) assms(6) W by (auto simp: newRejection_def time_sub_def MaxWindow_def second_def)
    then show ?thesis
      using next_window_counted [OF roll(1) ws lo(1) _ assms(8-10)] assms(6,7) by simp
  qed (use assms(6) in \<open>simp_all add: newRejection_def\<close>)
qed

theorem retry_after_suffices_witness:
  "attempt_counted (fst (Limiter_Acquire live 0 (1000 + second) (Some (limiter1 1000 1 0))))"
proof -
  have "Limiter_Acquire live 0 1000 (Some (limiter1 1000 1 0)) =
      (Inl (Rejection [EdgeErr EdgeRateLimited] second), Some (limiter1 1000 1 0))"
    by (simp add: limiter1_eval)
  with retry_after_suffices [OF options1_New clock1 limiter1_run, of 1000 live 0 _ _ _ "1000 + second" live 0]
  show ?thesis by (simp add: second_def live_def contextError_def)
qed

end
