(* ===== verification/Gateway_Capacity.thy ===== *)
theory Gateway_Capacity
  imports Go_World Lifecycle_Model "HOL-Library.Multiset"
begin

text \<open>
  The connection capacities of the runtime gateway (\<^verbatim>\<open>src/gateway/capacity.go\<close>): the process-wide
  \<^verbatim>\<open>connectionCapacity\<close> and the authenticated \<^verbatim>\<open>LocalConnectionCapacity\<close>, with the identities they
  count by (\<^verbatim>\<open>src/gateway/model.go\<close>).

  Their contract is a multiset of live connections: a connection is admitted exactly when the multiset has room
  for it, and releasing it takes it out once. The locale \<open>connection_pool\<close> states that contract; both
  implementations interpret it.
\<close>

section \<open>Identities\<close>

definition MaxConnectionCapacity :: int where "MaxConnectionCapacity = 1000"

record CapacitySubject =
  cs_TenantID :: string
  cs_SandboxID :: string
  cs_RuntimeSessionID :: string
  cs_BrowserSessionID :: string
  cs_CapabilityProfileID :: string
  cs_ExpiresAt :: time

definition CapacitySubject_Validate :: "CapacitySubject \<Rightarrow> error option" where
  "CapacitySubject_Validate s =
     first_err [
       fail_if (\<not> identifierPattern (cs_TenantID s) \<or> \<not> identifierPattern (cs_SandboxID s) \<or>
         \<not> identifierPattern (cs_CapabilityProfileID s) \<or> cs_ExpiresAt s = 0) [GatewayErr GatewayInvalidRequest],
       fail_if (cs_RuntimeSessionID s \<noteq> [] \<and> \<not> identifierPattern (cs_RuntimeSessionID s)) [GatewayErr GatewayInvalidRequest],
       fail_if (cs_BrowserSessionID s \<noteq> [] \<and> \<not> identifierPattern (cs_BrowserSessionID s)) [GatewayErr GatewayInvalidRequest],
       fail_if ((if cs_RuntimeSessionID s \<noteq> [] then 1 else 0) + (if cs_BrowserSessionID s \<noteq> [] then 1 else 0) \<noteq> (1 :: nat))
         [GatewayErr GatewayInvalidRequest]]"

record ConnectRequest =
  cq_CallerID :: string
  cq_TenantID :: string
  cq_SandboxID :: string
  cq_RuntimeSessionID :: string
  cq_BrowserSessionID :: string
  cq_CapabilityProfileID :: string
  cq_HandoffReference :: string

text \<open>A fixed prefix, then an identifier without colons.\<close>

definition referencePattern :: "string \<Rightarrow> string \<Rightarrow> bool" where
  "referencePattern prefix s \<longleftrightarrow>
     take (length prefix) s = prefix \<and>
     (case drop (length prefix) s of
        [] \<Rightarrow> False
      | c # cs \<Rightarrow> (upper c \<or> lower c \<or> digit c) \<and> length cs \<le> 199 \<and>
          list_all (\<lambda>d. upper d \<or> lower d \<or> digit d \<or> d \<in> set ''._-'') cs)"

definition terminalReferencePattern :: "string \<Rightarrow> bool" where
  "terminalReferencePattern = referencePattern ''ref:session:''"

definition browserReferencePattern :: "string \<Rightarrow> bool" where
  "browserReferencePattern = referencePattern ''ref:browser-session:''"

definition validSessionIdentity :: "ConnectRequest \<Rightarrow> bool" where
  "validSessionIdentity r =
     (if cq_RuntimeSessionID r \<noteq> [] \<and> cq_BrowserSessionID r = [] then identifierPattern (cq_RuntimeSessionID r)
      else if cq_BrowserSessionID r \<noteq> [] \<and> cq_RuntimeSessionID r = [] then identifierPattern (cq_BrowserSessionID r)
      else False)"

definition validReference :: "ConnectRequest \<Rightarrow> bool" where
  "validReference r =
     (if cq_RuntimeSessionID r \<noteq> [] then terminalReferencePattern (cq_HandoffReference r)
      else browserReferencePattern (cq_HandoffReference r))"

definition ConnectRequest_Validate :: "ConnectRequest \<Rightarrow> error option" where
  "ConnectRequest_Validate r =
     first_err [
       fail_if (\<not> list_all identifierPattern [cq_CallerID r, cq_TenantID r, cq_SandboxID r, cq_CapabilityProfileID r])
         [GatewayErr GatewayInvalidRequest],
       fail_if (\<not> validSessionIdentity r) [GatewayErr GatewayInvalidRequest],
       fail_if (\<not> validReference r) [GatewayErr GatewayInvalidRequest]]"

record Grant =
  gr_GrantID :: string
  gr_CallerID :: string
  gr_TenantID :: string
  gr_SandboxID :: string
  gr_RuntimeSessionID :: string
  gr_BrowserSessionID :: string
  gr_CapabilityProfileID :: string
  gr_HandoffReference :: string
  gr_ConnectionGeneration :: int
  gr_ExpiresAt :: time

definition Grant_Validate :: "Grant \<Rightarrow> time \<Rightarrow> error option" where
  "Grant_Validate g now =
     first_err [
       fail_if (now = 0 \<or> \<not> identifierPattern (gr_GrantID g)) [GatewayErr GatewayInvalidGrant],
       fail_if (ConnectRequest_Validate
           \<lparr>cq_CallerID = gr_CallerID g, cq_TenantID = gr_TenantID g, cq_SandboxID = gr_SandboxID g,
            cq_RuntimeSessionID = gr_RuntimeSessionID g, cq_BrowserSessionID = gr_BrowserSessionID g,
            cq_CapabilityProfileID = gr_CapabilityProfileID g, cq_HandoffReference = gr_HandoffReference g\<rparr> \<noteq> None)
         [GatewayErr GatewayInvalidGrant],
       fail_if (gr_ConnectionGeneration g < 1 \<or> gr_ExpiresAt g = 0 \<or> \<not> now < gr_ExpiresAt g)
         [GatewayErr GatewayInvalidGrant]]"

definition Grant_matches :: "Grant \<Rightarrow> ConnectRequest \<Rightarrow> bool" where
  "Grant_matches g r \<longleftrightarrow>
     gr_CallerID g = cq_CallerID r \<and> gr_TenantID g = cq_TenantID r \<and> gr_SandboxID g = cq_SandboxID r \<and>
     gr_RuntimeSessionID g = cq_RuntimeSessionID r \<and> gr_BrowserSessionID g = cq_BrowserSessionID r \<and>
     gr_CapabilityProfileID g = cq_CapabilityProfileID r \<and> gr_HandoffReference g = cq_HandoffReference r"

definition capacitySubjectForGrant :: "Grant \<Rightarrow> CapacitySubject" where
  "capacitySubjectForGrant g =
     \<lparr>cs_TenantID = gr_TenantID g, cs_SandboxID = gr_SandboxID g, cs_RuntimeSessionID = gr_RuntimeSessionID g,
      cs_BrowserSessionID = gr_BrowserSessionID g, cs_CapabilityProfileID = gr_CapabilityProfileID g,
      cs_ExpiresAt = gr_ExpiresAt g\<rparr>"

text \<open>The subject of a valid grant is valid, so the capacity never refuses it as malformed.\<close>

lemma capacitySubjectForGrant_valid:
  "Grant_Validate g now = None \<Longrightarrow> CapacitySubject_Validate (capacitySubjectForGrant g) = None"
  by (auto simp: Grant_Validate_def ConnectRequest_Validate_def validSessionIdentity_def CapacitySubject_Validate_def
      capacitySubjectForGrant_def split: if_splits)

section \<open>Counters\<close>

record connectionSessionKey =
  sk_tenantID :: string
  sk_sandboxID :: string
  sk_runtimeSessionID :: string
  sk_browserSessionID :: string

definition subject_key :: "CapacitySubject \<Rightarrow> connectionSessionKey" where
  "subject_key s = \<lparr>sk_tenantID = cs_TenantID s, sk_sandboxID = cs_SandboxID s,
     sk_runtimeSessionID = cs_RuntimeSessionID s, sk_browserSessionID = cs_BrowserSessionID s\<rparr>"

text \<open>Incrementing an entry of a map of counters, and decrementing it with its entry deleted at zero.\<close>

definition count_up :: "'k \<Rightarrow> ('k, int) fmap \<Rightarrow> ('k, int) fmap" where
  "count_up k m = fmupd k (fmget m k + 1) m"

definition count_down :: "'k \<Rightarrow> ('k, int) fmap \<Rightarrow> ('k, int) fmap" where
  "count_down k m = (if fmget m k - 1 = 0 then fmdrop k m else fmupd k (fmget m k - 1) m)"

section \<open>The process-wide capacity\<close>

record connectionCapacity =
  cc_maxTotal :: int
  cc_maxPerSession :: int
  cc_total :: int
  cc_bySession :: "(connectionSessionKey, int) fmap"

definition newConnectionCapacity :: "int \<Rightarrow> int \<Rightarrow> error + connectionCapacity option" where
  "newConnectionCapacity maxTotal maxPerSession =
     (if maxTotal = 0 \<and> maxPerSession = 0 then Inr None
      else if maxTotal < 1 \<or> maxTotal > MaxConnectionCapacity \<or> maxPerSession < 1 \<or> maxPerSession > maxTotal
      then Inl [GatewayErr GatewayInvalidRequest]
      else Inr (Some \<lparr>cc_maxTotal = maxTotal, cc_maxPerSession = maxPerSession, cc_total = 0, cc_bySession = fmempty\<rparr>))"

definition cc_admit :: "connectionSessionKey \<Rightarrow> connectionCapacity \<Rightarrow> connectionCapacity option" where
  "cc_admit key c =
     (if cc_total c \<ge> cc_maxTotal c \<or> fmget (cc_bySession c) key \<ge> cc_maxPerSession c then None
      else Some (c\<lparr>cc_total := cc_total c + 1, cc_bySession := count_up key (cc_bySession c)\<rparr>))"

definition cc_free :: "connectionSessionKey \<Rightarrow> connectionCapacity \<Rightarrow> connectionCapacity" where
  "cc_free key c = c\<lparr>cc_total := cc_total c - 1, cc_bySession := count_down key (cc_bySession c)\<rparr>"

text \<open>The release function that acquire returns: the key it frees, and whether it has run.\<close>

record releaser =
  re_key :: connectionSessionKey
  re_done :: bool

definition acquire :: "Grant \<Rightarrow> connectionCapacity option \<Rightarrow> (error + releaser) \<times> connectionCapacity option" where
  "acquire grant capacity =
     (let key = subject_key (capacitySubjectForGrant grant)
      in case capacity of
           None \<Rightarrow> (Inr \<lparr>re_key = key, re_done = True\<rparr>, None)
         | Some c \<Rightarrow>
             (case cc_admit key c of
                None \<Rightarrow> (Inl [GatewayErr GatewayCapacityExhausted], Some c)
              | Some c' \<Rightarrow> (Inr \<lparr>re_key = key, re_done = False\<rparr>, Some c')))"

definition release :: "releaser \<Rightarrow> connectionCapacity \<Rightarrow> releaser \<times> connectionCapacity" where
  "release r c = (if re_done r then (r, c) else (r\<lparr>re_done := True\<rparr>, cc_free (re_key r) c))"

section \<open>The authenticated capacity\<close>

record LocalConnectionCapacityOptions =
  co_MaxTotal :: int
  co_MaxPerTenant :: int
  co_MaxPerSession :: int

record LocalConnectionCapacity =
  lc_maxTotal :: int
  lc_maxPerTenant :: int
  lc_maxPerSession :: int
  lc_total :: int
  lc_byTenant :: "(string, int) fmap"
  lc_bySession :: "(connectionSessionKey, int) fmap"

definition NewLocalConnectionCapacity :: "LocalConnectionCapacityOptions \<Rightarrow> error + LocalConnectionCapacity" where
  "NewLocalConnectionCapacity options =
     (if co_MaxTotal options < 1 \<or> co_MaxTotal options > MaxConnectionCapacity \<or>
         co_MaxPerTenant options < 1 \<or> co_MaxPerTenant options > co_MaxTotal options \<or>
         co_MaxPerSession options < 1 \<or> co_MaxPerSession options > co_MaxPerTenant options
      then Inl [GatewayErr GatewayInvalidRequest]
      else Inr \<lparr>lc_maxTotal = co_MaxTotal options, lc_maxPerTenant = co_MaxPerTenant options,
        lc_maxPerSession = co_MaxPerSession options, lc_total = 0, lc_byTenant = fmempty, lc_bySession = fmempty\<rparr>)"

definition lc_admit :: "connectionSessionKey \<Rightarrow> LocalConnectionCapacity \<Rightarrow> LocalConnectionCapacity option" where
  "lc_admit key c =
     (if lc_total c \<ge> lc_maxTotal c \<or> fmget (lc_byTenant c) (sk_tenantID key) \<ge> lc_maxPerTenant c \<or>
         fmget (lc_bySession c) key \<ge> lc_maxPerSession c then None
      else Some (c\<lparr>lc_total := lc_total c + 1, lc_byTenant := count_up (sk_tenantID key) (lc_byTenant c),
        lc_bySession := count_up key (lc_bySession c)\<rparr>))"

definition lc_free :: "connectionSessionKey \<Rightarrow> LocalConnectionCapacity \<Rightarrow> LocalConnectionCapacity" where
  "lc_free key c = c\<lparr>lc_total := lc_total c - 1, lc_byTenant := count_down (sk_tenantID key) (lc_byTenant c),
     lc_bySession := count_down key (lc_bySession c)\<rparr>"

record localConnectionLease =
  cl_sessionKey :: connectionSessionKey
  cl_released :: bool

definition Capacity_Acquire ::
    "ctx option \<Rightarrow> nat \<Rightarrow> CapacitySubject \<Rightarrow> LocalConnectionCapacity option \<Rightarrow>
     (error + localConnectionLease) \<times> LocalConnectionCapacity option" where
  "Capacity_Acquire c n subject capacity =
     (case capacity of
        None \<Rightarrow> (Inl [GatewayErr GatewayCapacityUnavailable], None)
      | Some cap \<Rightarrow>
          (case contextError c n of
             Some e \<Rightarrow> (Inl e, Some cap)
           | None \<Rightarrow>
               (case CapacitySubject_Validate subject of
                  Some e \<Rightarrow> (Inl (GatewayErr GatewayCapacityUnavailable # e), Some cap)
                | None \<Rightarrow>
                    (case lc_admit (subject_key subject) cap of
                       None \<Rightarrow> (Inl [GatewayErr GatewayCapacityExhausted], Some cap)
                     | Some cap' \<Rightarrow> (Inr \<lparr>cl_sessionKey = subject_key subject, cl_released = False\<rparr>, Some cap')))))"

definition Capacity_Release ::
    "ctx option \<Rightarrow> nat \<Rightarrow> localConnectionLease \<Rightarrow> LocalConnectionCapacity \<Rightarrow>
     error option \<times> localConnectionLease \<times> LocalConnectionCapacity" where
  "Capacity_Release c n lease cap =
     (case contextError c n of
        Some e \<Rightarrow> (Some e, lease, cap)
      | None \<Rightarrow>
          if cl_released lease then (None, lease, cap)
          else (None, lease\<lparr>cl_released := True\<rparr>, lc_free (cl_sessionKey lease) cap))"

section \<open>Lease events\<close>

datatype CapacityEventKind = CapacityEventLost | CapacityEventUnavailable | OtherEventKind string

record CapacityEvent =
  ce_Kind :: CapacityEventKind
  ce_Err :: "error option"

definition joined :: "error option \<Rightarrow> error" where
  "joined e = (case e of None \<Rightarrow> [] | Some e \<Rightarrow> e)"

definition capacityEventError :: "CapacityEvent \<Rightarrow> bool \<Rightarrow> error" where
  "capacityEventError event opened =
     (if \<not> opened then [GatewayErr GatewayCapacityUnavailable, GatewayErr CapacityLeaseUnavailable, ErrOther]
      else case ce_Kind event of
        CapacityEventLost \<Rightarrow> [GatewayErr GatewayCapacityUnavailable, GatewayErr CapacityLeaseLost] @ joined (ce_Err event)
      | CapacityEventUnavailable \<Rightarrow>
          [GatewayErr GatewayCapacityUnavailable, GatewayErr CapacityLeaseUnavailable] @ joined (ce_Err event)
      | OtherEventKind _ \<Rightarrow>
          [GatewayErr GatewayCapacityUnavailable, GatewayErr CapacityLeaseUnavailable, ErrOther] @ joined (ce_Err event))"

text \<open>The channel: nil, or what a receive that does not block finds on it, if anything.\<close>

definition initialCapacityEventError :: "(CapacityEvent \<times> bool) option option \<Rightarrow> error option" where
  "initialCapacityEventError events =
     (case events of
        None \<Rightarrow> Some [GatewayErr GatewayCapacityUnavailable, GatewayErr CapacityLeaseUnavailable]
      | Some None \<Rightarrow> None
      | Some (Some (event, opened)) \<Rightarrow> Some (capacityEventError event opened))"

datatype AuditEventType = AuditCapacityLost | AuditCapacityUnavailable | AuditNone

definition capacityAuditType :: "error \<Rightarrow> AuditEventType" where
  "capacityAuditType err =
     (if errors_is err (GatewayErr CapacityLeaseLost) then AuditCapacityLost
      else if errors_is err (GatewayErr GatewayCapacityUnavailable) then AuditCapacityUnavailable
      else AuditNone)"

text \<open>Every event of a lease is audited, and as lost exactly when the authority says so.\<close>

lemma capacityAuditType_event:
  "capacityAuditType (capacityEventError event opened) \<noteq> AuditNone"
  "\<not> errors_is (joined (ce_Err event)) (GatewayErr CapacityLeaseLost) \<Longrightarrow>
     capacityAuditType (capacityEventError event opened) = AuditCapacityLost \<longleftrightarrow> opened \<and> ce_Kind event = CapacityEventLost"
  by (auto simp: capacityAuditType_def capacityEventError_def errors_is_def split: CapacityEventKind.splits)

section \<open>Counter maps\<close>

text \<open>A map of counters that counts a multiset: an entry for every element, and no others.\<close>

definition counter_of :: "('k, int) fmap \<Rightarrow> 'k multiset \<Rightarrow> bool" where
  "counter_of m N \<longleftrightarrow> (\<forall>k. fmlookup m k = (if k \<in># N then Some (int (count N k)) else None))"

lemma counter_of_get: "counter_of m N \<Longrightarrow> fmget m k = int (count N k)"
  by (simp add: counter_of_def fmget_def not_in_iff)

lemma counter_of_empty: "counter_of fmempty {#}"
  by (simp add: counter_of_def)

lemma counter_of_up: "counter_of m N \<Longrightarrow> counter_of (count_up k m) (add_mset k N)"
  using counter_of_get [of m N k] by (auto simp: counter_of_def count_up_def)

lemma counter_of_down:
  assumes "counter_of m N" and "k \<in># N"
  shows "counter_of (count_down k m) (N - {#k#})"
proof -
  obtain n where n: "count N k = Suc n" using assms(2) by (metis count_greater_zero_iff gr0_implies_Suc)
  with counter_of_get [OF assms(1), of k] show ?thesis
    using assms(1) unfolding counter_of_def count_down_def by (cases n) (auto simp: in_diff_count)
qed

section \<open>The contract of a pool\<close>

text \<open>
  The abstract pool has no counters: it is the list of the connections it admitted, each with whether it has
  been released, and admits a connection exactly when the live ones leave room for it.
\<close>

datatype 'k pool_cmd = Connect 'k | Disconnect nat

definition live_keys :: "('k \<times> bool) list \<Rightarrow> 'k multiset" where
  "live_keys ls = mset (map fst (filter (\<lambda>l. \<not> snd l) ls))"

fun spec_run :: "('k \<Rightarrow> 'k multiset \<Rightarrow> bool) \<Rightarrow> 'k pool_cmd list \<Rightarrow> ('k \<times> bool) list \<Rightarrow> bool list" where
  "spec_run fits [] ls = []"
| "spec_run fits (Connect k # cmds) ls =
     (if fits k (live_keys ls) then True # spec_run fits cmds (ls @ [(k, False)]) else False # spec_run fits cmds ls)"
| "spec_run fits (Disconnect i # cmds) ls =
     True # spec_run fits cmds (if i < length ls then ls[i := (fst (ls ! i), True)] else ls)"

text \<open>The same commands on an implementation that keeps counters.\<close>

fun pool_run :: "('k \<Rightarrow> 'c \<Rightarrow> 'c option) \<Rightarrow> ('k \<Rightarrow> 'c \<Rightarrow> 'c) \<Rightarrow> 'k pool_cmd list \<Rightarrow> 'c \<Rightarrow> ('k \<times> bool) list \<Rightarrow> bool list" where
  "pool_run admit free [] c ls = []"
| "pool_run admit free (Connect k # cmds) c ls =
     (case admit k c of
        None \<Rightarrow> False # pool_run admit free cmds c ls
      | Some c' \<Rightarrow> True # pool_run admit free cmds c' (ls @ [(k, False)]))"
| "pool_run admit free (Disconnect i # cmds) c ls =
     True # (if i < length ls \<and> \<not> snd (ls ! i)
             then pool_run admit free cmds (free (fst (ls ! i)) c) (ls[i := (fst (ls ! i), True)])
             else pool_run admit free cmds c ls)"

lemma live_keys_append [simp]: "live_keys (ls @ [(k, False)]) = add_mset k (live_keys ls)"
  by (simp add: live_keys_def)

lemma live_keys_release:
  assumes "i < length ls" and "\<not> snd (ls ! i)"
  shows "fst (ls ! i) \<in># live_keys ls \<and> live_keys (ls[i := (fst (ls ! i), True)]) = live_keys ls - {#fst (ls ! i)#}"
  using assms
proof (induction ls arbitrary: i)
  case (Cons l ls)
  then show ?case by (cases i; cases l) (auto simp: live_keys_def)
qed simp

locale connection_pool =
  fixes admit :: "'k \<Rightarrow> 'c \<Rightarrow> 'c option"
    and free :: "'k \<Rightarrow> 'c \<Rightarrow> 'c"
    and represents :: "'c \<Rightarrow> 'k multiset \<Rightarrow> bool"
    and fits :: "'k \<Rightarrow> 'k multiset \<Rightarrow> bool"
  assumes admits: "represents c M \<Longrightarrow> fits k M \<Longrightarrow> \<exists>c'. admit k c = Some c' \<and> represents c' (add_mset k M)"
    and rejects: "represents c M \<Longrightarrow> \<not> fits k M \<Longrightarrow> admit k c = None"
    and frees: "represents c M \<Longrightarrow> k \<in># M \<Longrightarrow> represents (free k c) (M - {#k#})"
begin

lemma admit_iff: "represents c M \<Longrightarrow> admit k c \<noteq> None \<longleftrightarrow> fits k M"
  using admits rejects by (metis option.distinct(1))

lemma admit_represents: "represents c M \<Longrightarrow> admit k c = Some c' \<Longrightarrow> represents c' (add_mset k M)"
  using admits rejects by (metis option.distinct(1) option.inject)

lemma run_refines: "represents c (live_keys ls) \<Longrightarrow> pool_run admit free cmds c ls = spec_run fits cmds ls"
proof (induction cmds arbitrary: c ls)
  case (Cons cmd cmds)
  show ?case
  proof (cases cmd)
    case (Connect k)
    show ?thesis
    proof (cases "fits k (live_keys ls)")
      case True
      then obtain c' where "admit k c = Some c'" "represents c' (live_keys (ls @ [(k, False)]))"
        using admits [OF Cons.prems] by auto
      with True Connect Cons.IH show ?thesis by simp
    qed (use Connect Cons rejects in simp)
  next
    case (Disconnect i)
    show ?thesis
    proof (cases "i < length ls \<and> \<not> snd (ls ! i)")
      case True
      with frees [OF Cons.prems] live_keys_release [of i ls]
      have "represents (free (fst (ls ! i)) c) (live_keys (ls[i := (fst (ls ! i), True)]))" by simp
      with True Disconnect Cons.IH show ?thesis by simp
    next
      case False
      then have "(if i < length ls then ls[i := (fst (ls ! i), True)] else ls) = ls"
        by (metis (full_types) list_update_id prod.collapse)
      with False Disconnect Cons.IH [OF Cons.prems] show ?thesis by (simp only: pool_run.simps spec_run.simps if_False)
    qed
  qed
qed simp

end

section \<open>Both capacities keep the contract\<close>

definition capacity_fits :: "int \<Rightarrow> int \<Rightarrow> int \<Rightarrow> connectionSessionKey \<Rightarrow> connectionSessionKey multiset \<Rightarrow> bool" where
  "capacity_fits maxTotal maxPerTenant maxPerSession key M \<longleftrightarrow>
     int (size M) < maxTotal \<and> int (count (image_mset sk_tenantID M) (sk_tenantID key)) < maxPerTenant \<and>
     int (count M key) < maxPerSession"

definition lc_represents :: "int \<Rightarrow> int \<Rightarrow> int \<Rightarrow> LocalConnectionCapacity \<Rightarrow> connectionSessionKey multiset \<Rightarrow> bool" where
  "lc_represents maxTotal maxPerTenant maxPerSession c M \<longleftrightarrow>
     lc_maxTotal c = maxTotal \<and> lc_maxPerTenant c = maxPerTenant \<and> lc_maxPerSession c = maxPerSession \<and>
     lc_total c = int (size M) \<and> counter_of (lc_byTenant c) (image_mset sk_tenantID M) \<and> counter_of (lc_bySession c) M"

definition cc_represents :: "int \<Rightarrow> int \<Rightarrow> connectionCapacity \<Rightarrow> connectionSessionKey multiset \<Rightarrow> bool" where
  "cc_represents maxTotal maxPerSession c M \<longleftrightarrow>
     cc_maxTotal c = maxTotal \<and> cc_maxPerSession c = maxPerSession \<and>
     cc_total c = int (size M) \<and> counter_of (cc_bySession c) M"

lemma image_mset_minus: "k \<in># M \<Longrightarrow> image_mset f (M - {#k#}) = image_mset f M - {#f k#}"
  by (simp add: image_mset_Diff)

lemma size_minus: "k \<in># M \<Longrightarrow> int (size (M - {#k#})) = int (size M) - 1"
  by (auto dest: multi_member_split)

text \<open>The process-wide capacity does not count tenants; its pool is one whose tenants may use all of it.\<close>

lemma capacity_fits_no_tenant:
  "capacity_fits maxTotal maxTotal maxPerSession key M \<longleftrightarrow> int (size M) < maxTotal \<and> int (count M key) < maxPerSession"
proof -
  have "count (image_mset sk_tenantID M) (sk_tenantID key) \<le> size M"
    by (metis count_le_size size_image_mset)
  then show ?thesis by (auto simp: capacity_fits_def)
qed

interpretation process_pool: connection_pool cc_admit cc_free
  "cc_represents maxTotal maxPerSession" "capacity_fits maxTotal maxTotal maxPerSession"
  for maxTotal maxPerSession
proof
  fix c M k
  assume r: "cc_represents maxTotal maxPerSession c M"
  note get = counter_of_get [of "cc_bySession c" M]
  show "\<exists>c'. cc_admit k c = Some c' \<and> cc_represents maxTotal maxPerSession c' (add_mset k M)"
    if "capacity_fits maxTotal maxTotal maxPerSession k M"
    using that r get by (auto simp: cc_admit_def capacity_fits_no_tenant cc_represents_def counter_of_up)
  show "cc_admit k c = None" if "\<not> capacity_fits maxTotal maxTotal maxPerSession k M"
    using that r get by (auto simp: cc_admit_def capacity_fits_no_tenant cc_represents_def)
  show "cc_represents maxTotal maxPerSession (cc_free k c) (M - {#k#})" if "k \<in># M"
    using r that by (simp add: cc_represents_def cc_free_def counter_of_down size_minus)
qed

interpretation local_pool: connection_pool lc_admit lc_free
  "lc_represents maxTotal maxPerTenant maxPerSession" "capacity_fits maxTotal maxPerTenant maxPerSession"
  for maxTotal maxPerTenant maxPerSession
proof
  fix c M k
  assume r: "lc_represents maxTotal maxPerTenant maxPerSession c M"
  note get = counter_of_get [of "lc_byTenant c" "image_mset sk_tenantID M"] counter_of_get [of "lc_bySession c" M]
  show "\<exists>c'. lc_admit k c = Some c' \<and> lc_represents maxTotal maxPerTenant maxPerSession c' (add_mset k M)"
    if "capacity_fits maxTotal maxPerTenant maxPerSession k M"
    using that r get by (auto simp: lc_admit_def capacity_fits_def lc_represents_def counter_of_up)
  show "lc_admit k c = None" if "\<not> capacity_fits maxTotal maxPerTenant maxPerSession k M"
    using that r get by (auto simp: lc_admit_def capacity_fits_def lc_represents_def)
  assume k: "k \<in># M"
  then have "sk_tenantID k \<in># image_mset sk_tenantID M" by simp
  then show "lc_represents maxTotal maxPerTenant maxPerSession (lc_free k c) (M - {#k#})"
    using r k by (simp add: lc_represents_def lc_free_def counter_of_down image_mset_minus size_minus)
qed

section \<open>Runs\<close>

text \<open>The calls of the authenticated capacity, with the leases it has handed out.\<close>

inductive capacity_step ::
    "LocalConnectionCapacity \<times> localConnectionLease list \<Rightarrow> LocalConnectionCapacity \<times> localConnectionLease list \<Rightarrow> bool" where
  granted: "Capacity_Acquire c n subject (Some cap) = (Inr lease, Some cap') \<Longrightarrow>
    capacity_step (cap, leases) (cap', leases @ [lease])"
| refused: "Capacity_Acquire c n subject (Some cap) = (Inl e, Some cap') \<Longrightarrow> capacity_step (cap, leases) (cap', leases)"
| released: "i < length leases \<Longrightarrow> Capacity_Release c n (leases ! i) cap = (err, lease, cap') \<Longrightarrow>
    capacity_step (cap, leases) (cap', leases[i := lease])"

inductive capacity_runs ::
    "LocalConnectionCapacity \<times> localConnectionLease list \<Rightarrow> LocalConnectionCapacity \<times> localConnectionLease list \<Rightarrow> bool" where
  start: "capacity_runs s s"
| step: "capacity_runs s t \<Longrightarrow> capacity_step t u \<Longrightarrow> capacity_runs s u"

definition lease_keys :: "localConnectionLease list \<Rightarrow> connectionSessionKey multiset" where
  "lease_keys leases = live_keys (map (\<lambda>l. (cl_sessionKey l, cl_released l)) leases)"

text \<open>The leases a capacity has handed out are what it represents, and it is never over its limits.\<close>

definition capacity_inv :: "int \<Rightarrow> int \<Rightarrow> int \<Rightarrow> LocalConnectionCapacity \<Rightarrow> connectionSessionKey multiset \<Rightarrow> bool" where
  "capacity_inv maxTotal maxPerTenant maxPerSession cap M \<longleftrightarrow>
     lc_represents maxTotal maxPerTenant maxPerSession cap M \<and> int (size M) \<le> maxTotal \<and>
     (\<forall>t. int (count (image_mset sk_tenantID M) t) \<le> maxPerTenant) \<and> (\<forall>k. int (count M k) \<le> maxPerSession)"

lemma capacity_inv_admit:
  assumes "capacity_inv mt mp ms cap M" and "lc_admit key cap = Some cap'"
  shows "capacity_inv mt mp ms cap' (add_mset key M)"
proof -
  have r: "lc_represents mt mp ms cap M" using assms(1) by (simp add: capacity_inv_def)
  then have "capacity_fits mt mp ms key M" using local_pool.admit_iff [OF r, of key] assms(2) by simp
  with assms local_pool.admit_represents [OF r assms(2)] show ?thesis
    by (auto simp: capacity_inv_def capacity_fits_def)
qed

lemma capacity_inv_free:
  assumes "capacity_inv mt mp ms cap M" and "key \<in># M"
  shows "capacity_inv mt mp ms (lc_free key cap) (M - {#key#})"
proof -
  have "count (image_mset sk_tenantID (M - {#key#})) t \<le> count (image_mset sk_tenantID M) t" for t
    using assms(2) by (simp add: image_mset_minus)
  moreover have "count (M - {#key#}) k \<le> count M k" for k by simp
  ultimately show ?thesis
    using assms local_pool.frees [of mt mp ms cap M key] size_minus [OF assms(2)] unfolding capacity_inv_def
    by (smt (verit) of_nat_mono)
qed

lemma capacity_inv_step:
  assumes "capacity_step (cap, leases) (cap', leases')" and "capacity_inv mt mp ms cap (lease_keys leases)"
  shows "capacity_inv mt mp ms cap' (lease_keys leases')"
  using assms(1)
proof (cases rule: capacity_step.cases)
  case (granted c n subject lease)
  then show ?thesis
    using capacity_inv_admit [OF assms(2), of "subject_key subject" cap']
    by (auto simp: Capacity_Acquire_def lease_keys_def split: option.splits)
next
  case (refused c n subject e)
  then show ?thesis using assms(2) by (auto simp: Capacity_Acquire_def split: option.splits)
next
  case (released i c n err lease)
  let ?ls = "map (\<lambda>l. (cl_sessionKey l, cl_released l)) leases"
  show ?thesis
  proof (cases "contextError c n = None \<and> \<not> cl_released (leases ! i)")
    case True
    then have "cap' = lc_free (fst (?ls ! i)) cap" "lease_keys leases' = live_keys (?ls[i := (fst (?ls ! i), True)])"
      using released by (auto simp: Capacity_Release_def lease_keys_def map_update)
    with True live_keys_release [of i ?ls] released(2) capacity_inv_free [OF assms(2), of "fst (?ls ! i)"] show ?thesis
      by (simp add: lease_keys_def)
  next
    case False
    then have "cap' = cap" "leases' = leases"
      using released by (auto simp: Capacity_Release_def split: option.splits)
    with assms(2) show ?thesis by simp
  qed
qed

lemma capacity_inv_runs:
  "capacity_runs (cap, leases) (cap', leases') \<Longrightarrow> capacity_inv mt mp ms cap (lease_keys leases) \<Longrightarrow>
   capacity_inv mt mp ms cap' (lease_keys leases')"
proof (induction "(cap, leases)" "(cap', leases')" arbitrary: cap' leases' rule: capacity_runs.induct)
  case (step t)
  then show ?case by (cases t) (blast intro: capacity_inv_step)
qed

lemma capacity_inv_New:
  "NewLocalConnectionCapacity options = Inr cap \<Longrightarrow>
   capacity_inv (co_MaxTotal options) (co_MaxPerTenant options) (co_MaxPerSession options) cap (lease_keys [])"
  by (auto simp: NewLocalConnectionCapacity_def capacity_inv_def lc_represents_def counter_of_empty lease_keys_def
      live_keys_def split: if_splits)

text \<open>Connecting and disconnecting, on each capacity, as its answers to a list of commands.\<close>

fun process_answers :: "Grant pool_cmd list \<Rightarrow> connectionCapacity option \<Rightarrow> releaser list \<Rightarrow> bool list" where
  "process_answers [] c rs = []"
| "process_answers (Connect g # cmds) c rs =
     (case acquire g c of
        (Inl e, c') \<Rightarrow> False # process_answers cmds c' rs
      | (Inr r, c') \<Rightarrow> True # process_answers cmds c' (rs @ [r]))"
| "process_answers (Disconnect i # cmds) c rs =
     True # (if i < length rs
             then (case c of
                     None \<Rightarrow> process_answers cmds None rs
                   | Some cap \<Rightarrow> (case release (rs ! i) cap of (r, cap') \<Rightarrow> process_answers cmds (Some cap') (rs[i := r])))
             else process_answers cmds c rs)"

fun local_answers :: "Grant pool_cmd list \<Rightarrow> LocalConnectionCapacity \<Rightarrow> localConnectionLease list \<Rightarrow> bool list" where
  "local_answers [] cap ls = []"
| "local_answers (Connect g # cmds) cap ls =
     (case Capacity_Acquire live 0 (capacitySubjectForGrant g) (Some cap) of
        (Inr lease, Some cap') \<Rightarrow> True # local_answers cmds cap' (ls @ [lease])
      | _ \<Rightarrow> False # local_answers cmds cap ls)"
| "local_answers (Disconnect i # cmds) cap ls =
     True # (if i < length ls
             then (case Capacity_Release live 0 (ls ! i) cap of (_, lease, cap') \<Rightarrow> local_answers cmds cap' (ls[i := lease]))
             else local_answers cmds cap ls)"

definition grant_key :: "Grant \<Rightarrow> connectionSessionKey" where
  "grant_key g = subject_key (capacitySubjectForGrant g)"

lemma process_answers_run:
  "process_answers cmds (Some c) rs =
   pool_run cc_admit cc_free (map (map_pool_cmd grant_key) cmds) c (map (\<lambda>r. (re_key r, re_done r)) rs)"
proof (induction cmds arbitrary: c rs)
  case (Cons cmd cmds)
  then show ?case
  proof (cases cmd)
    case (Disconnect i)
    show ?thesis
    proof (cases "i < length rs \<and> \<not> re_done (rs ! i)")
      case False
      then have "i < length rs \<Longrightarrow> release (rs ! i) c = (rs ! i, c)" by (simp add: release_def)
      with False Disconnect Cons show ?thesis by auto
    qed (use Disconnect Cons in \<open>simp add: release_def map_update\<close>)
  qed (simp add: acquire_def grant_key_def Let_def split: option.splits)
qed simp

lemma local_answers_run:
  assumes "\<forall>g. Connect g \<in> set cmds \<longrightarrow> CapacitySubject_Validate (capacitySubjectForGrant g) = None"
  shows "local_answers cmds cap ls =
    pool_run lc_admit lc_free (map (map_pool_cmd grant_key) cmds) cap (map (\<lambda>l. (cl_sessionKey l, cl_released l)) ls)"
  using assms
proof (induction cmds arbitrary: cap ls)
  case (Cons cmd cmds)
  then show ?case
  proof (cases cmd)
    case (Disconnect i)
    show ?thesis
    proof (cases "i < length ls \<and> \<not> cl_released (ls ! i)")
      case False
      then have "i < length ls \<Longrightarrow> Capacity_Release live 0 (ls ! i) cap = (None, ls ! i, cap)"
        by (simp add: Capacity_Release_def contextError_def live_def)
      with False Disconnect Cons show ?thesis by auto
    qed (use Disconnect Cons in \<open>simp add: Capacity_Release_def contextError_def live_def map_update\<close>)
  qed (simp add: Capacity_Acquire_def contextError_def live_def grant_key_def split: option.splits)
qed simp

section \<open>A sample run\<close>

text \<open>One connection in all: a subject is admitted and released.\<close>

definition capacity_options1 :: LocalConnectionCapacityOptions where
  "capacity_options1 = \<lparr>co_MaxTotal = 1, co_MaxPerTenant = 1, co_MaxPerSession = 1\<rparr>"

definition grant1 :: Grant where
  "grant1 = \<lparr>gr_GrantID = ''g'', gr_CallerID = ''c'', gr_TenantID = ''t'', gr_SandboxID = ''sbx'', gr_RuntimeSessionID = ''s'',
     gr_BrowserSessionID = [], gr_CapabilityProfileID = ''p'', gr_HandoffReference = ''ref:session:s'',
     gr_ConnectionGeneration = 1, gr_ExpiresAt = 5000\<rparr>"

definition capacity1 :: "int \<Rightarrow> (string, int) fmap \<Rightarrow> (connectionSessionKey, int) fmap \<Rightarrow> LocalConnectionCapacity" where
  "capacity1 n tenants sessions = \<lparr>lc_maxTotal = 1, lc_maxPerTenant = 1, lc_maxPerSession = 1, lc_total = n,
     lc_byTenant = tenants, lc_bySession = sessions\<rparr>"

lemma capacity1_New: "NewLocalConnectionCapacity capacity_options1 = Inr (capacity1 0 fmempty fmempty)"
  by (simp add: NewLocalConnectionCapacity_def capacity_options1_def capacity1_def MaxConnectionCapacity_def)

lemma grant1_valid: "CapacitySubject_Validate (capacitySubjectForGrant grant1) = None"
  by (rule capacitySubjectForGrant_valid [of _ 1000])
    (simp add: Grant_Validate_def ConnectRequest_Validate_def validSessionIdentity_def validReference_def
      terminalReferencePattern_def referencePattern_def grant1_def identifierPattern_def identifier_char_def upper_def
      lower_def digit_def byte_def)

lemma capacity1_run:
  "capacity_runs (capacity1 0 fmempty fmempty, [])
     (capacity1 1 (fmupd ''t'' 1 fmempty) (fmupd (grant_key grant1) 1 fmempty),
      [\<lparr>cl_sessionKey = grant_key grant1, cl_released = False\<rparr>])"
proof -
  have "Capacity_Acquire live 0 (capacitySubjectForGrant grant1) (Some (capacity1 0 fmempty fmempty)) =
      (Inr \<lparr>cl_sessionKey = grant_key grant1, cl_released = False\<rparr>,
       Some (capacity1 1 (fmupd ''t'' 1 fmempty) (fmupd (grant_key grant1) 1 fmempty)))"
    using grant1_valid
    by (simp add: Capacity_Acquire_def contextError_def live_def lc_admit_def capacity1_def count_up_def grant_key_def
        subject_key_def capacitySubjectForGrant_def grant1_def)
  from capacity_runs.step [OF capacity_runs.start capacity_step.granted [OF this, of "[]"]] show ?thesis by simp
qed

section \<open>Properties\<close>

text \<open>
  C30. The authenticated capacity keeps its books exactly. After any sequence of acquisitions and releases, with
  contexts that end and leases released more than once, the total and the per-tenant and per-session entries
  are exactly the numbers of leases not yet released, an entry that counts nothing is gone, no limit is
  exceeded, and a valid subject is admitted exactly when all three limits have room for it.
\<close>

theorem capacity_keeps_books:
  assumes "NewLocalConnectionCapacity options = Inr cap\<^sub>0" and "capacity_runs (cap\<^sub>0, []) (cap, leases)"
  shows "lc_total cap = int (size (lease_keys leases)) \<and>
    (\<forall>t. fmlookup (lc_byTenant cap) t = (let n = count (image_mset sk_tenantID (lease_keys leases)) t in
       if n = 0 then None else Some (int n))) \<and>
    (\<forall>k. fmlookup (lc_bySession cap) k = (let n = count (lease_keys leases) k in if n = 0 then None else Some (int n))) \<and>
    int (size (lease_keys leases)) \<le> co_MaxTotal options \<and>
    (\<forall>t. int (count (image_mset sk_tenantID (lease_keys leases)) t) \<le> co_MaxPerTenant options) \<and>
    (\<forall>k. int (count (lease_keys leases) k) \<le> co_MaxPerSession options) \<and>
    (\<forall>c n subject. contextError c n = None \<and> CapacitySubject_Validate subject = None \<longrightarrow>
       (\<not> isl (fst (Capacity_Acquire c n subject (Some cap))) \<longleftrightarrow>
        capacity_fits (co_MaxTotal options) (co_MaxPerTenant options) (co_MaxPerSession options)
          (subject_key subject) (lease_keys leases)))"
proof -
  let ?M = "lease_keys leases"
  have inv: "capacity_inv (co_MaxTotal options) (co_MaxPerTenant options) (co_MaxPerSession options) cap ?M"
    by (rule capacity_inv_runs [OF assms(2) capacity_inv_New [OF assms(1)]])
  then have r: "lc_represents (co_MaxTotal options) (co_MaxPerTenant options) (co_MaxPerSession options) cap ?M"
    by (simp add: capacity_inv_def)
  have "\<not> isl (fst (Capacity_Acquire c n subject (Some cap))) \<longleftrightarrow> lc_admit (subject_key subject) cap \<noteq> None"
    if "contextError c n = None" "CapacitySubject_Validate subject = None" for c n subject
    using that by (simp add: Capacity_Acquire_def split: option.splits)
  with local_pool.admit_iff [OF r] inv show ?thesis
    by (simp add: capacity_inv_def lc_represents_def counter_of_def Let_def not_in_iff)
qed

theorem capacity_keeps_books_witness:
  "\<not> capacity_fits 1 1 1 (grant_key grant1) {#grant_key grant1#} \<and>
   isl (fst (Capacity_Acquire live 0 (capacitySubjectForGrant grant1)
     (Some (capacity1 1 (fmupd ''t'' 1 fmempty) (fmupd (grant_key grant1) 1 fmempty)))))"
  using capacity_keeps_books [OF capacity1_New capacity1_run] grant1_valid
  by (simp add: capacity_fits_def lease_keys_def live_keys_def capacity_options1_def contextError_def live_def)

text \<open>
  C31. The two capacities agree. With the same total and per-session limits, and tenants that may use the
  whole, the process-wide capacity and the authenticated one give the same answers to every sequence of
  connections and disconnections of grants whose subjects are valid, released in any order and any number of
  times; both answer as the abstract pool does.
\<close>

theorem capacities_equivalent:
  assumes "newConnectionCapacity maxTotal perSession = Inr (Some c)"
    and "NewLocalConnectionCapacity \<lparr>co_MaxTotal = maxTotal, co_MaxPerTenant = maxTotal, co_MaxPerSession = perSession\<rparr> = Inr cap"
    and "\<forall>g. Connect g \<in> set cmds \<longrightarrow> CapacitySubject_Validate (capacitySubjectForGrant g) = None"
  shows "process_answers cmds (Some c) [] = local_answers cmds cap [] \<and>
    local_answers cmds cap [] = spec_run (capacity_fits maxTotal maxTotal perSession) (map (map_pool_cmd grant_key) cmds) []"
proof -
  have "cc_represents maxTotal perSession c (live_keys [])"
    using assms(1) by (auto simp: newConnectionCapacity_def cc_represents_def live_keys_def counter_of_empty split: if_splits)
  moreover have "lc_represents maxTotal maxTotal perSession cap (live_keys [])"
    using assms(2) by (auto simp: NewLocalConnectionCapacity_def lc_represents_def live_keys_def counter_of_empty split: if_splits)
  ultimately show ?thesis
    using process_pool.run_refines local_pool.run_refines process_answers_run [of cmds c "[]"]
      local_answers_run [OF assms(3), of cap "[]"] by simp
qed

theorem capacities_equivalent_witness:
  "local_answers [Connect grant1, Connect grant1, Disconnect 0, Disconnect 0, Connect grant1] (capacity1 0 fmempty fmempty) [] =
   [True, False, True, True, True]"
proof -
  have "newConnectionCapacity 1 1 = Inr (Some \<lparr>cc_maxTotal = 1, cc_maxPerSession = 1, cc_total = 0, cc_bySession = fmempty\<rparr>)"
    by (simp add: newConnectionCapacity_def MaxConnectionCapacity_def)
  from capacities_equivalent [OF this capacity1_New [unfolded capacity_options1_def],
      of "[Connect grant1, Connect grant1, Disconnect 0, Disconnect 0, Connect grant1]"] grant1_valid
  show ?thesis by (simp add: capacity_fits_def live_keys_def)
qed

end
