(* ===== verification/Exec_Model.thy ===== *)
theory Exec_Model
  imports Lifecycle_Model
begin

text \<open>
  The values of the provider's process execution (\<^verbatim>\<open>src/provider/exec/model.go\<close>,
  \<^verbatim>\<open>result.go\<close>, \<^verbatim>\<open>ledger.go\<close>): requests, dispatch receipts, observations, results and
  cancellation intents, with their validation.

  The package's regular expressions are predicates on the whole string, as in \<open>Lifecycle_Model\<close>; its identifier
  and digest patterns are the same as there. Strings are byte strings; \<open>utf8_runes\<close> counts their code points as
  \<^verbatim>\<open>unicode/utf8\<close> does. A Go map is ranged over in any order; the validations that do so only decide
  whether there is an error, and wrap the same sentinel whichever entry fails. The \<^verbatim>\<open>Clone\<close> methods copy
  values, which are immutable here, so they are the identity and have no definition.
\<close>

section \<open>Strings\<close>

text \<open>
  The number of code points of a byte string in UTF-8, if it is valid: the first byte fixes the length of a
  sequence and the range of its second byte, later bytes are continuation bytes.
\<close>

definition utf8_cont :: "nat \<Rightarrow> bool" where
  "utf8_cont b \<longleftrightarrow> 128 \<le> b \<and> b \<le> 191"

definition utf8_second :: "nat \<Rightarrow> nat \<Rightarrow> bool" where
  "utf8_second a b \<longleftrightarrow>
     (if a = 224 then 160 \<le> b \<and> b \<le> 191
      else if a = 237 then 128 \<le> b \<and> b \<le> 159
      else if a = 240 then 144 \<le> b \<and> b \<le> 191
      else if a = 244 then 128 \<le> b \<and> b \<le> 143
      else utf8_cont b)"

definition utf8_length :: "nat \<Rightarrow> nat" where
  "utf8_length a =
     (if a < 128 then 1
      else if 194 \<le> a \<and> a \<le> 223 then 2
      else if 224 \<le> a \<and> a \<le> 239 then 3
      else if 240 \<le> a \<and> a \<le> 244 then 4
      else 0)"

function utf8_runes :: "nat list \<Rightarrow> nat option" where
  "utf8_runes [] = Some 0"
| "utf8_runes (a # bs) =
     (let n = utf8_length a
      in if n = 0 \<or> length bs < n - 1 \<or> (2 \<le> n \<and> \<not> utf8_second a (hd bs)) \<or> \<not> list_all utf8_cont (drop 1 (take (n - 1) bs))
         then None
         else map_option Suc (utf8_runes (drop (n - 1) bs)))"
  by pat_completeness auto
termination by (relation "measure length") auto

declare utf8_runes.simps(2) [simp del]

definition validBoundedString :: "string \<Rightarrow> nat \<Rightarrow> nat \<Rightarrow> bool" where
  "validBoundedString v minimum maximum \<longleftrightarrow>
     (case utf8_runes (map byte v) of None \<Rightarrow> False | Some count \<Rightarrow> minimum \<le> count \<and> count \<le> maximum)"

definition alphanumeric :: "char \<Rightarrow> bool" where
  "alphanumeric c \<longleftrightarrow> upper c \<or> lower c \<or> digit c"

definition environmentNamePattern :: "string \<Rightarrow> bool" where
  "environmentNamePattern s \<longleftrightarrow>
     (case s of [] \<Rightarrow> False
      | c # cs \<Rightarrow> (upper c \<or> lower c \<or> c = CHR ''_'') \<and> length cs \<le> 63 \<and> list_all (\<lambda>d. alphanumeric d \<or> d = CHR ''_'') cs)"

text \<open>A prefix, then a name of at most 400 characters.\<close>

definition prefixed :: "string \<Rightarrow> string \<Rightarrow> bool" where
  "prefixed prefix s \<longleftrightarrow>
     take (length prefix) s = prefix \<and>
     (case drop (length prefix) s of
        [] \<Rightarrow> False
      | c # cs \<Rightarrow> alphanumeric c \<and> length cs \<le> 399 \<and> list_all (\<lambda>d. alphanumeric d \<or> d \<in> set ''._:/-'') cs)"

definition environmentRefPattern :: "string \<Rightarrow> bool" where "environmentRefPattern = prefixed ''envref:''"

definition grantPattern :: "string \<Rightarrow> bool" where "grantPattern = prefixed ''grant:''"

definition referencePattern :: "string \<Rightarrow> bool" where "referencePattern = prefixed ''ref:''"

definition signalPattern :: "string \<Rightarrow> bool" where
  "signalPattern s \<longleftrightarrow> s \<noteq> [] \<and> list_all (\<lambda>d. alphanumeric d \<or> d \<in> set ''._-'') s"

definition resultCodePattern :: "string \<Rightarrow> bool" where
  "resultCodePattern s \<longleftrightarrow>
     (case s of [] \<Rightarrow> False
      | c # cs \<Rightarrow> upper c \<and> 2 \<le> length cs \<and> length cs \<le> 63 \<and> list_all (\<lambda>d. upper d \<or> digit d \<or> d = CHR ''_'') cs)"

text \<open>The segments of a path: each a slash and a name that does not begin with a dot.\<close>

definition segment :: "string \<Rightarrow> bool" where
  "segment s \<longleftrightarrow>
     (case s of [] \<Rightarrow> False
      | c # cs \<Rightarrow> (alphanumeric c \<or> c \<in> set ''_-'') \<and> list_all (\<lambda>d. alphanumeric d \<or> d \<in> set ''._-'') cs)"

function path_segments :: "string \<Rightarrow> bool" where
  "path_segments [] = True"
| "path_segments (c # cs) =
     (c = CHR ''/'' \<and> segment (takeWhile (\<lambda>d. d \<noteq> CHR ''/'') cs) \<and> path_segments (dropWhile (\<lambda>d. d \<noteq> CHR ''/'') cs))"
  by pat_completeness auto
termination by (relation "measure length") (auto simp: le_imp_less_Suc length_dropWhile_le)

definition workingDirectoryPattern :: "string \<Rightarrow> bool" where
  "workingDirectoryPattern s \<longleftrightarrow>
     take 10 s = ''/workspace'' \<and> path_segments (drop 10 s) \<or> take 4 s = ''/tmp'' \<and> path_segments (drop 4 s)"

section \<open>Requests\<close>

definition MaxCommandItems :: nat where "MaxCommandItems = 64"

definition MaxCommandItemRunes :: nat where "MaxCommandItemRunes = 4096"

definition MaxWorkingDirectoryRunes :: nat where "MaxWorkingDirectoryRunes = 256"

definition MaxIdempotencyKeyRunes :: nat where "MaxIdempotencyKeyRunes = 200"

definition MaxEnvironmentValues :: nat where "MaxEnvironmentValues = 64"

definition MaxSecretReferences :: nat where "MaxSecretReferences = 64"

definition MaxCaptureBytes :: int where "MaxCaptureBytes = 8388608"

definition MinRetention :: int where "MinRetention = nanos_per_second"

definition MaxRetention :: int where "MaxRetention = 24 * 3600 * nanos_per_second"

record Request =
  rq_SandboxID :: string
  rq_OperationID :: string
  rq_AttemptID :: string
  rq_FencingToken :: int
  rq_ExpectedGeneration :: int
  rq_IdempotencyKey :: string
  rq_RequestDigest :: string
  rq_Deadline :: time
  rq_Command :: "string list"
  rq_WorkingDirectory :: string
  rq_ResultRetention :: int
  rq_Environment :: "(string, string) fmap"
  rq_SecretReferenceIDs :: "string list"
  rq_SecretGrantID :: string
  rq_SecretGrantDigest :: string
  rq_StdinReference :: string
  rq_CaptureStdout :: bool
  rq_CaptureStderr :: bool
  rq_CaptureMaxBytes :: int

definition command_item :: "string \<Rightarrow> bool" where
  "command_item item \<longleftrightarrow>
     validBoundedString item 1 MaxCommandItemRunes \<and> list_all (\<lambda>c. byte c \<noteq> 0 \<and> byte c \<noteq> 13 \<and> byte c \<noteq> 10) item"

definition Request_Validate :: "Request \<Rightarrow> time \<Rightarrow> error option" where
  "Request_Validate r now =
     first_err [
       fail_if (\<not> list_all identifierPattern [rq_SandboxID r, rq_OperationID r, rq_AttemptID r]) [ExecErr ExecInvalidRequest],
       fail_if (\<not> validBoundedString (rq_IdempotencyKey r) 1 MaxIdempotencyKeyRunes) [ExecErr ExecInvalidRequest],
       fail_if (rq_FencingToken r < 1 \<or> rq_ExpectedGeneration r < 1) [ExecErr ExecInvalidRequest],
       fail_if (\<not> digestPattern (rq_RequestDigest r)) [ExecErr ExecInvalidRequest],
       fail_if (rq_Deadline r = 0) [ExecErr ExecInvalidRequest],
       fail_if (\<not> now < rq_Deadline r) [ExecErr ExecDeadlineExpired],
       fail_if (rq_Command r = [] \<or> length (rq_Command r) > MaxCommandItems) [ExecErr ExecInvalidRequest],
       fail_if (\<not> list_all command_item (rq_Command r)) [ExecErr ExecInvalidRequest],
       fail_if (\<not> validBoundedString (rq_WorkingDirectory r) 1 MaxWorkingDirectoryRunes \<or>
         \<not> workingDirectoryPattern (rq_WorkingDirectory r)) [ExecErr ExecInvalidRequest],
       fail_if (rq_ResultRetention r < MinRetention \<or> rq_ResultRetention r > MaxRetention) [ExecErr ExecInvalidRequest],
       fail_if (fcard (fmdom (rq_Environment r)) > MaxEnvironmentValues) [ExecErr ExecInvalidRequest],
       fail_if (\<not> list_all (\<lambda>(name, ref). environmentNamePattern name \<and> environmentRefPattern ref)
         (sorted_list_of_fmap (rq_Environment r))) [ExecErr ExecInvalidRequest],
       fail_if (length (rq_SecretReferenceIDs r) > MaxSecretReferences) [ExecErr ExecInvalidRequest],
       fail_if (\<not> list_all identifierPattern (rq_SecretReferenceIDs r)) [ExecErr ExecInvalidRequest],
       fail_if ((rq_SecretGrantID r = []) \<noteq> (rq_SecretGrantDigest r = []) \<or>
         rq_SecretGrantID r \<noteq> [] \<and> \<not> grantPattern (rq_SecretGrantID r) \<or>
         rq_SecretGrantDigest r \<noteq> [] \<and> \<not> digestPattern (rq_SecretGrantDigest r)) [ExecErr ExecInvalidRequest],
       fail_if (rq_StdinReference r \<noteq> [] \<and> \<not> referencePattern (rq_StdinReference r)) [ExecErr ExecInvalidRequest],
       fail_if (rq_CaptureMaxBytes r < 0 \<or> rq_CaptureMaxBytes r > MaxCaptureBytes) [ExecErr ExecInvalidRequest]]"

record Invocation =
  iv_Request :: Request
  iv_StartedAt :: time

section \<open>Dispatch receipts\<close>

definition ExecutionReference_Validate :: "string \<Rightarrow> error option" where
  "ExecutionReference_Validate r = fail_if (\<not> referencePattern r) [ExecErr ExecInvalidDispatch]"

record Dispatch =
  di_ExecutionReference :: string
  di_AcceptedAt :: time

definition no_dispatch :: Dispatch where
  "no_dispatch = \<lparr>di_ExecutionReference = [], di_AcceptedAt = 0\<rparr>"

definition Dispatch_Validate :: "Dispatch \<Rightarrow> error option" where
  "Dispatch_Validate d =
     fail_if (ExecutionReference_Validate (di_ExecutionReference d) \<noteq> None \<or> di_AcceptedAt d = 0) [ExecErr ExecInvalidDispatch]"

section \<open>Results\<close>

datatype ResultStatus = ResultCompleted | ResultFailed | ResultCancelled | ResultOutcomeUnknown | OtherStatus string

fun ResultStatus_valid :: "ResultStatus \<Rightarrow> bool" where
  "ResultStatus_valid (OtherStatus _) = False"
| "ResultStatus_valid _ = True"

datatype ErrorOutcome = ErrorOutcomeKnown | ErrorOutcomeUnknown | OtherOutcome string

record ResultError =
  er_Code :: string
  er_Message :: string
  er_Retryable :: bool
  er_Outcome :: ErrorOutcome

record ResultOutcome =
  ou_Status :: ResultStatus
  ou_ExitCode :: "int option"
  ou_Signal :: string
  ou_StdoutReference :: string
  ou_StderrReference :: string
  ou_Error :: "ResultError option"

record ExecResult =
  re_OperationID :: string
  re_AttemptID :: string
  re_FencingToken :: int
  re_SandboxID :: string
  re_Status :: ResultStatus
  re_ExitCode :: "int option"
  re_Signal :: string
  re_StdoutReference :: string
  re_StderrReference :: string
  re_StartedAt :: time
  re_CompletedAt :: time
  re_RetainedUntil :: time
  re_Error :: "ResultError option"

record TerminalSummary =
  ts_Status :: ResultStatus
  ts_CompletedAt :: time
  ts_Error :: "ResultError option"

definition error_valid :: "ResultError option \<Rightarrow> bool" where
  "error_valid e =
     (case e of None \<Rightarrow> True
      | Some e \<Rightarrow> resultCodePattern (er_Code e) \<and> validBoundedString (er_Message e) 1 512 \<and>
          (er_Outcome e = ErrorOutcomeKnown \<or> er_Outcome e = ErrorOutcomeUnknown))"

text \<open>An unknown outcome comes with an error that says so.\<close>

definition unknown_explained :: "ResultStatus \<Rightarrow> ResultError option \<Rightarrow> bool" where
  "unknown_explained status e \<longleftrightarrow>
     (status = ResultOutcomeUnknown \<longrightarrow> (case e of None \<Rightarrow> False | Some e \<Rightarrow> er_Outcome e = ErrorOutcomeUnknown))"

definition optional_reference :: "string \<Rightarrow> bool" where
  "optional_reference s \<longleftrightarrow> s = [] \<or> referencePattern s"

definition Result_Validate :: "ExecResult \<Rightarrow> error option" where
  "Result_Validate r =
     first_err [
       fail_if (\<not> list_all identifierPattern [re_OperationID r, re_AttemptID r, re_SandboxID r]) [ExecErr ExecInvalidResult],
       fail_if (re_FencingToken r < 1) [ExecErr ExecInvalidResult],
       fail_if (\<not> ResultStatus_valid (re_Status r)) [ExecErr ExecInvalidResult],
       fail_if (case re_ExitCode r of None \<Rightarrow> False | Some x \<Rightarrow> x < -1 \<or> x > 255) [ExecErr ExecInvalidResult],
       fail_if (\<not> validBoundedString (re_Signal r) 0 64 \<or> re_Signal r \<noteq> [] \<and> \<not> signalPattern (re_Signal r))
         [ExecErr ExecInvalidResult],
       fail_if (\<not> optional_reference (re_StdoutReference r) \<or> \<not> optional_reference (re_StderrReference r))
         [ExecErr ExecInvalidResult],
       fail_if (re_StartedAt r = 0 \<or> re_CompletedAt r = 0 \<or> re_RetainedUntil r = 0 \<or>
         re_CompletedAt r < re_StartedAt r \<or> \<not> re_CompletedAt r < re_RetainedUntil r) [ExecErr ExecInvalidResult],
       fail_if (\<not> error_valid (re_Error r)) [ExecErr ExecInvalidResult],
       fail_if (\<not> unknown_explained (re_Status r) (re_Error r)) [ExecErr ExecInvalidResult]]"

definition TerminalSummary_Validate :: "TerminalSummary \<Rightarrow> error option" where
  "TerminalSummary_Validate s =
     first_err [
       fail_if (\<not> ResultStatus_valid (ts_Status s)) [ExecErr ExecInvalidResult],
       fail_if (ts_CompletedAt s = 0) [ExecErr ExecInvalidResult],
       fail_if (\<not> error_valid (ts_Error s)) [ExecErr ExecInvalidResult],
       fail_if (\<not> unknown_explained (ts_Status s) (ts_Error s)) [ExecErr ExecInvalidResult]]"

definition NewTerminalSummary :: "ExecResult \<Rightarrow> error + TerminalSummary" where
  "NewTerminalSummary result =
     unless_err (Result_Validate result)
       (Inr \<lparr>ts_Status = re_Status result, ts_CompletedAt = re_CompletedAt result, ts_Error = re_Error result\<rparr>)"

record UsageIdentity =
  ui_SandboxID :: string
  ui_OperationID :: string
  ui_AttemptID :: string
  ui_FencingToken :: int

definition Result_UsageIdentity :: "ExecResult \<Rightarrow> error + UsageIdentity" where
  "Result_UsageIdentity r =
     unless_err (Result_Validate r)
       (Inr \<lparr>ui_SandboxID = re_SandboxID r, ui_OperationID = re_OperationID r, ui_AttemptID = re_AttemptID r,
         ui_FencingToken = re_FencingToken r\<rparr>)"

definition NewResult :: "Request \<Rightarrow> time \<Rightarrow> time \<Rightarrow> ResultOutcome \<Rightarrow> error + ExecResult" where
  "NewResult request startedAt completedAt outcome =
     (let result =
        \<lparr>re_OperationID = rq_OperationID request, re_AttemptID = rq_AttemptID request,
         re_FencingToken = rq_FencingToken request, re_SandboxID = rq_SandboxID request,
         re_Status = ou_Status outcome, re_ExitCode = ou_ExitCode outcome, re_Signal = ou_Signal outcome,
         re_StdoutReference = ou_StdoutReference outcome, re_StderrReference = ou_StderrReference outcome,
         re_StartedAt = startedAt, re_CompletedAt = completedAt,
         re_RetainedUntil = completedAt + rq_ResultRetention request, re_Error = ou_Error outcome\<rparr>
      in unless_err (Result_Validate result) (Inr result))"

section \<open>Observations\<close>

record Observation =
  ob_ExecutionReference :: string
  ob_Status :: ResultStatus
  ob_Running :: bool
  ob_StartedAt :: time
  ob_CompletedAt :: time
  ob_ExitCode :: "int option"
  ob_Signal :: string
  ob_StdoutReference :: string
  ob_StderrReference :: string
  ob_Error :: "ResultError option"

definition observed_outcome :: "Observation \<Rightarrow> ResultOutcome" where
  "observed_outcome o' =
     \<lparr>ou_Status = ob_Status o', ou_ExitCode = ob_ExitCode o', ou_Signal = ob_Signal o',
      ou_StdoutReference = ob_StdoutReference o', ou_StderrReference = ob_StderrReference o', ou_Error = ob_Error o'\<rparr>"

definition probe :: Request where
  "probe =
     \<lparr>rq_SandboxID = ''probe'', rq_OperationID = ''probe'', rq_AttemptID = ''probe'', rq_FencingToken = 1,
      rq_ExpectedGeneration = 0, rq_IdempotencyKey = [], rq_RequestDigest = [], rq_Deadline = 0, rq_Command = [],
      rq_WorkingDirectory = [], rq_ResultRetention = nanos_per_second, rq_Environment = fmempty, rq_SecretReferenceIDs = [],
      rq_SecretGrantID = [], rq_SecretGrantDigest = [], rq_StdinReference = [], rq_CaptureStdout = False,
      rq_CaptureStderr = False, rq_CaptureMaxBytes = 0\<rparr>"

definition Observation_Validate :: "Observation \<Rightarrow> error option" where
  "Observation_Validate o' =
     (if ExecutionReference_Validate (ob_ExecutionReference o') \<noteq> None \<or> ob_StartedAt o' = 0
      then Some [ExecErr ExecInvalidObservation]
      else if ob_Running o'
      then fail_if (ob_Status o' \<noteq> OtherStatus [] \<or> ob_CompletedAt o' \<noteq> 0 \<or> ob_ExitCode o' \<noteq> None \<or> ob_Signal o' \<noteq> [] \<or>
             ob_Error o' \<noteq> None) [ExecErr ExecInvalidObservation]
      else if ob_CompletedAt o' = 0 \<or> ob_CompletedAt o' < ob_StartedAt o' then Some [ExecErr ExecInvalidObservation]
      else fail_if (isl (NewResult probe (ob_StartedAt o') (ob_CompletedAt o') (observed_outcome o')))
             [ExecErr ExecInvalidObservation])"

section \<open>Cancellation\<close>

datatype CancellationReason =
    CancellationCallerRequested | CancellationDeadlineExceeded | CancellationShutdown | CancellationPolicy
  | OtherReason string

fun CancellationReason_valid :: "CancellationReason \<Rightarrow> bool" where
  "CancellationReason_valid (OtherReason _) = False"
| "CancellationReason_valid _ = True"

record CancellationIntent =
  ci_SandboxID :: string
  ci_OperationID :: string
  ci_AttemptID :: string
  ci_FencingToken :: int
  ci_ExpectedGeneration :: int
  ci_IdempotencyKey :: string
  ci_RequestDigest :: string
  ci_Deadline :: time
  ci_TargetOperationID :: string
  ci_TargetAttemptID :: string
  ci_Reason :: CancellationReason

definition CancellationIntent_Validate :: "CancellationIntent \<Rightarrow> time \<Rightarrow> error option" where
  "CancellationIntent_Validate i now =
     first_err [
       fail_if (\<not> list_all identifierPattern [ci_SandboxID i, ci_OperationID i, ci_AttemptID i, ci_TargetOperationID i,
         ci_TargetAttemptID i]) [ExecErr ExecInvalidCancellation],
       fail_if (\<not> validBoundedString (ci_IdempotencyKey i) 1 MaxIdempotencyKeyRunes \<or> ci_FencingToken i < 1 \<or>
         ci_ExpectedGeneration i < 1 \<or> \<not> digestPattern (ci_RequestDigest i)) [ExecErr ExecInvalidCancellation],
       fail_if (ci_Deadline i = 0 \<or> \<not> now < ci_Deadline i) [ExecErr ExecInvalidCancellation],
       fail_if (\<not> CancellationReason_valid (ci_Reason i)) [ExecErr ExecInvalidCancellation]]"

section \<open>Records\<close>

record ExecutionRecord =
  xr_Request :: Request
  xr_ReservedAt :: time
  xr_Dispatch :: Dispatch
  xr_Attached :: bool
  xr_Result :: "ExecResult option"
  xr_Terminal :: "TerminalSummary option"
  xr_ResultExpired :: bool

record ExecutionAttachment =
  at_OperationID :: string
  at_AttemptID :: string
  at_SandboxID :: string
  at_FencingToken :: int
  at_ExpectedGeneration :: int
  at_Dispatch :: Dispatch

record ExecutionReservation =
  ev_Execution :: ExecutionRecord
  ev_Replayed :: bool

record CancellationReservation =
  cv_Intent :: CancellationIntent
  cv_ReservedAt :: time
  cv_Replayed :: bool

end
