(* ===== verification/Exec_State.thy ===== *)
theory Exec_State
  imports Exec_Model
begin

text \<open>
  The state of the exec repository (\<^verbatim>\<open>src/provider/exec/repository/state.go\<close>): admission of executions,
  attachment of their receipts, cancellation intents, retained results, and the snapshot that is saved and
  loaded.

  \<^verbatim>\<open>ensureMaps\<close> replaces nil maps by empty ones and is invisible here. The optional dispatch argument of a
  reservation is a list, as in Go. The checks of \<^verbatim>\<open>Import\<close> that range over a map all fail with the same
  error, so the order does not matter.
\<close>

section \<open>State\<close>

record ExecIdempotency =
  xi_Key :: string
  xi_RequestDigest :: string
  xi_OperationID :: string

record ExecState =
  xs_Executions :: "(string, ExecutionRecord) fmap"
  xs_ExecutionIdempotency :: "(string, ExecIdempotency) fmap"
  xs_CancellationIntents :: "(string, CancellationIntent) fmap"
  xs_CancellationReservedAt :: "(string, time) fmap"
  xs_CancellationIdempotency :: "(string, ExecIdempotency) fmap"

definition Exec_NewState :: ExecState where
  "Exec_NewState = \<lparr>xs_Executions = fmempty, xs_ExecutionIdempotency = fmempty, xs_CancellationIntents = fmempty,
     xs_CancellationReservedAt = fmempty, xs_CancellationIdempotency = fmempty\<rparr>"

section \<open>Executions\<close>

definition sameExecutionIdentity :: "Request \<Rightarrow> Request \<Rightarrow> bool" where
  "sameExecutionIdentity l r \<longleftrightarrow>
     rq_OperationID l = rq_OperationID r \<and> rq_AttemptID l = rq_AttemptID r \<and> rq_SandboxID l = rq_SandboxID r \<and>
     rq_FencingToken l = rq_FencingToken r \<and> rq_RequestDigest l = rq_RequestDigest r"

text \<open>Whether another execution has the receipt already.\<close>

definition reference_taken :: "string \<Rightarrow> string \<Rightarrow> ExecState \<Rightarrow> bool" where
  "reference_taken operationID reference s \<longleftrightarrow>
     list_ex (\<lambda>(i, other). i \<noteq> operationID \<and> xr_Attached other \<and> di_ExecutionReference (xr_Dispatch other) = reference)
       (sorted_list_of_fmap (xs_Executions s))"

definition new_record :: "Request \<Rightarrow> time \<Rightarrow> Dispatch list \<Rightarrow> ExecutionRecord" where
  "new_record request acceptedAt dispatch =
     \<lparr>xr_Request = request, xr_ReservedAt = acceptedAt,
      xr_Dispatch = (case dispatch of [d] \<Rightarrow> d | _ \<Rightarrow> no_dispatch), xr_Attached = (length dispatch = 1),
      xr_Result = None, xr_Terminal = None, xr_ResultExpired = False\<rparr>"

definition request_idempotency :: "Request \<Rightarrow> ExecIdempotency" where
  "request_idempotency r = \<lparr>xi_Key = rq_IdempotencyKey r, xi_RequestDigest = rq_RequestDigest r, xi_OperationID = rq_OperationID r\<rparr>"

definition admitted_state :: "Request \<Rightarrow> time \<Rightarrow> Dispatch list \<Rightarrow> ExecState \<Rightarrow> ExecState" where
  "admitted_state request acceptedAt dispatch s =
     s\<lparr>xs_Executions := fmupd (rq_OperationID request) (new_record request acceptedAt dispatch) (xs_Executions s),
       xs_ExecutionIdempotency :=
         fmupd (rq_IdempotencyKey request) (request_idempotency request) (xs_ExecutionIdempotency s)\<rparr>"

definition ReserveExecutionAt ::
    "Request \<Rightarrow> time \<Rightarrow> Dispatch list \<Rightarrow> ExecState \<Rightarrow> error + ExecutionReservation \<times> ExecState" where
  "ReserveExecutionAt request acceptedAt dispatch s =
     unless_err (first_err [
       fail_if (length dispatch > 1) [ExecErr ExecInvalidDispatch],
       fail_if (acceptedAt = 0) [ExecErr ExecInvalidRequest],
       Request_Validate request acceptedAt,
       (case dispatch of [d] \<Rightarrow> Dispatch_Validate d | _ \<Rightarrow> None),
       (case dispatch of [d] \<Rightarrow> fail_if (di_AcceptedAt d < acceptedAt) [ExecErr ExecConflict] | _ \<Rightarrow> None)])
     (case fmlookup (xs_ExecutionIdempotency s) (rq_IdempotencyKey request) of
        Some existing \<Rightarrow>
          if xi_RequestDigest existing \<noteq> rq_RequestDigest request \<or> xi_OperationID existing \<noteq> rq_OperationID request
          then Inl [ExecErr ExecIdempotencyConflict]
          else (case fmlookup (xs_Executions s) (xi_OperationID existing) of
                  None \<Rightarrow> Inl [ExecErr ExecCorrupt]
                | Some r \<Rightarrow>
                    if \<not> sameExecutionIdentity (xr_Request r) request then Inl [ExecErr ExecConflict]
                    else Inr (\<lparr>ev_Execution = r, ev_Replayed = True\<rparr>, s))
      | None \<Rightarrow>
          if rq_OperationID request |\<in>| fmdom (xs_Executions s) then Inl [ExecErr ExecAlreadyExists]
          else if rq_OperationID request |\<in>| fmdom (xs_CancellationIntents s) then Inl [ExecErr ExecAlreadyExists]
          else if (case dispatch of [d] \<Rightarrow> reference_taken (rq_OperationID request) (di_ExecutionReference d) s | _ \<Rightarrow> False)
          then Inl [ExecErr ExecConflict]
          else Inr (\<lparr>ev_Execution = new_record request acceptedAt dispatch, ev_Replayed = False\<rparr>,
                    admitted_state request acceptedAt dispatch s))"

text \<open>The form that takes the time itself: the current time, or that of the receipt.\<close>

definition ReserveExecution ::
    "time \<Rightarrow> Request \<Rightarrow> Dispatch list \<Rightarrow> ExecState \<Rightarrow> error + ExecutionReservation \<times> ExecState" where
  "ReserveExecution now request dispatch =
     ReserveExecutionAt request (case dispatch of [d] \<Rightarrow> di_AcceptedAt d | _ \<Rightarrow> now) dispatch"

definition validateAttachment :: "ExecutionAttachment \<Rightarrow> error option" where
  "validateAttachment a =
     first_err [
       Dispatch_Validate (at_Dispatch a),
       fail_if (\<not> list_all identifierPattern [at_OperationID a, at_AttemptID a, at_SandboxID a]) [ExecErr ExecInvalidRequest],
       fail_if (at_FencingToken a < 1 \<or> at_ExpectedGeneration a < 1) [ExecErr ExecInvalidRequest]]"

definition executionAttachmentMatches :: "Request \<Rightarrow> ExecutionAttachment \<Rightarrow> bool" where
  "executionAttachmentMatches r a \<longleftrightarrow>
     rq_OperationID r = at_OperationID a \<and> rq_AttemptID r = at_AttemptID a \<and> rq_SandboxID r = at_SandboxID a \<and>
     rq_FencingToken r = at_FencingToken a \<and> rq_ExpectedGeneration r = at_ExpectedGeneration a"

definition AttachExecution :: "ExecutionAttachment \<Rightarrow> ExecState \<Rightarrow> error + ExecutionReservation \<times> ExecState" where
  "AttachExecution a s =
     unless_err (validateAttachment a)
     (case fmlookup (xs_Executions s) (at_OperationID a) of
        None \<Rightarrow> Inl [ExecErr ExecNotFound]
      | Some r \<Rightarrow>
          if \<not> executionAttachmentMatches (xr_Request r) a then Inl [ExecErr ExecConflict]
          else if di_AcceptedAt (at_Dispatch a) < xr_ReservedAt r then Inl [ExecErr ExecConflict]
          else if xr_Attached r
          then (if di_ExecutionReference (xr_Dispatch r) \<noteq> di_ExecutionReference (at_Dispatch a)
                then Inl [ExecErr ExecConflict]
                else Inr (\<lparr>ev_Execution = r, ev_Replayed = True\<rparr>, s))
          else if reference_taken (at_OperationID a) (di_ExecutionReference (at_Dispatch a)) s then Inl [ExecErr ExecConflict]
          else (let r' = r\<lparr>xr_Dispatch := at_Dispatch a, xr_Attached := True\<rparr>
                in Inr (\<lparr>ev_Execution = r', ev_Replayed = False\<rparr>,
                        s\<lparr>xs_Executions := fmupd (at_OperationID a) r' (xs_Executions s)\<rparr>)))"

definition GetExecution :: "string \<Rightarrow> ExecState \<Rightarrow> error + ExecutionRecord" where
  "GetExecution operationID s =
     (case fmlookup (xs_Executions s) operationID of None \<Rightarrow> Inl [ExecErr ExecNotFound] | Some r \<Rightarrow> Inr r)"

definition ListExecutions :: "ExecState \<Rightarrow> ExecutionRecord list" where
  "ListExecutions s = fmvals (xs_Executions s)"

section \<open>Cancellations\<close>

definition intent_idempotency :: "CancellationIntent \<Rightarrow> ExecIdempotency" where
  "intent_idempotency i = \<lparr>xi_Key = ci_IdempotencyKey i, xi_RequestDigest = ci_RequestDigest i, xi_OperationID = ci_OperationID i\<rparr>"

definition target_matches :: "CancellationIntent \<Rightarrow> Request \<Rightarrow> bool" where
  "target_matches i r \<longleftrightarrow>
     rq_AttemptID r = ci_TargetAttemptID i \<and> rq_SandboxID r = ci_SandboxID i \<and>
     rq_ExpectedGeneration r = ci_ExpectedGeneration i"

definition intended_state :: "CancellationIntent \<Rightarrow> time \<Rightarrow> ExecState \<Rightarrow> ExecState" where
  "intended_state i now s =
     s\<lparr>xs_CancellationIntents := fmupd (ci_OperationID i) i (xs_CancellationIntents s),
       xs_CancellationReservedAt := fmupd (ci_OperationID i) now (xs_CancellationReservedAt s),
       xs_CancellationIdempotency := fmupd (ci_IdempotencyKey i) (intent_idempotency i) (xs_CancellationIdempotency s)\<rparr>"

definition ReserveCancellation ::
    "CancellationIntent \<Rightarrow> time \<Rightarrow> ExecState \<Rightarrow> error + CancellationReservation \<times> ExecState" where
  "ReserveCancellation i now s =
     unless_err (CancellationIntent_Validate i now)
     (case fmlookup (xs_CancellationIdempotency s) (ci_IdempotencyKey i) of
        Some existing \<Rightarrow>
          if xi_RequestDigest existing \<noteq> ci_RequestDigest i \<or> xi_OperationID existing \<noteq> ci_OperationID i
          then Inl [ExecErr ExecIdempotencyConflict]
          else (case fmlookup (xs_CancellationIntents s) (xi_OperationID existing) of
                  None \<Rightarrow> Inl [ExecErr ExecCorrupt]
                | Some stored \<Rightarrow>
                    (case fmlookup (xs_CancellationReservedAt s) (ci_OperationID stored) of
                       None \<Rightarrow> Inl [ExecErr ExecCorrupt]
                     | Some t \<Rightarrow>
                         if t = 0 then Inl [ExecErr ExecCorrupt]
                         else Inr (\<lparr>cv_Intent = stored, cv_ReservedAt = t, cv_Replayed = True\<rparr>, s)))
      | None \<Rightarrow>
          (case fmlookup (xs_Executions s) (ci_TargetOperationID i) of
             None \<Rightarrow> Inl [ExecErr ExecNotFound]
           | Some target \<Rightarrow>
               if \<not> target_matches i (xr_Request target) then Inl [ExecErr ExecConflict]
               else if xr_Result target \<noteq> None \<or> xr_ResultExpired target then Inl [ExecErr ExecAlreadyExists]
               else if ci_OperationID i |\<in>| fmdom (xs_Executions s) then Inl [ExecErr ExecAlreadyExists]
               else if ci_OperationID i |\<in>| fmdom (xs_CancellationIntents s) then Inl [ExecErr ExecAlreadyExists]
               else Inr (\<lparr>cv_Intent = i, cv_ReservedAt = now, cv_Replayed = False\<rparr>, intended_state i now s)))"

definition GetCancellation :: "string \<Rightarrow> ExecState \<Rightarrow> error + CancellationIntent" where
  "GetCancellation operationID s =
     (case fmlookup (xs_CancellationIntents s) operationID of None \<Rightarrow> Inl [ExecErr ExecNotFound] | Some i \<Rightarrow> Inr i)"

definition GetCancellationReservation :: "string \<Rightarrow> ExecState \<Rightarrow> error + CancellationReservation" where
  "GetCancellationReservation operationID s =
     on_ok (GetCancellation operationID s) (\<lambda>intent.
       case fmlookup (xs_CancellationReservedAt s) operationID of
         None \<Rightarrow> Inl [ExecErr ExecCorrupt]
       | Some t \<Rightarrow>
           if t = 0 then Inl [ExecErr ExecCorrupt]
           else Inr \<lparr>cv_Intent = intent, cv_ReservedAt = t, cv_Replayed = True\<rparr>)"

section \<open>Results\<close>

definition StoreResult :: "ExecResult \<Rightarrow> ExecState \<Rightarrow> error + ExecState" where
  "StoreResult result s =
     unless_err (Result_Validate result)
     (case fmlookup (xs_Executions s) (re_OperationID result) of
        None \<Rightarrow> Inl [ExecErr ExecNotFound]
      | Some r \<Rightarrow>
          if rq_AttemptID (xr_Request r) \<noteq> re_AttemptID result \<or> rq_SandboxID (xr_Request r) \<noteq> re_SandboxID result \<or>
             rq_FencingToken (xr_Request r) \<noteq> re_FencingToken result
          then Inl [ExecErr ExecConflict]
          else if re_StartedAt result < xr_ReservedAt r then Inl [ExecErr ExecConflict]
          else if \<not> xr_Attached r \<and> re_Status result \<noteq> ResultFailed \<and> re_Status result \<noteq> ResultOutcomeUnknown
          then Inl [ExecErr ExecConflict]
          else if re_RetainedUntil result \<noteq> re_CompletedAt result + rq_ResultRetention (xr_Request r)
          then Inl [ExecErr ExecConflict]
          else if xr_ResultExpired r then Inl [ExecErr ExecExpired]
          else (case xr_Result r of
                  Some stored \<Rightarrow>
                    if stored = result
                    then (if (case NewTerminalSummary result of Inl _ \<Rightarrow> True | Inr t \<Rightarrow> xr_Terminal r \<noteq> Some t)
                          then Inl [ExecErr ExecCorrupt] else Inr s)
                    else Inl [ExecErr ExecConflict]
                | None \<Rightarrow>
                    on_ok (NewTerminalSummary result) (\<lambda>terminal.
                      Inr (s\<lparr>xs_Executions := fmupd (re_OperationID result)
                        (r\<lparr>xr_Result := Some result, xr_Terminal := Some terminal\<rparr>) (xs_Executions s)\<rparr>))))"

definition expire_result :: "ExecutionRecord \<Rightarrow> ExecutionRecord" where
  "expire_result r = r\<lparr>xr_ResultExpired := True, xr_Result := None\<rparr>"

text \<open>Reading a result past its retention removes it, and the state changes although the call fails.\<close>

definition ReadResult :: "string \<Rightarrow> time \<Rightarrow> ExecState \<Rightarrow> (error + ExecResult) \<times> bool \<times> ExecState" where
  "ReadResult operationID now s =
     (case fmlookup (xs_Executions s) operationID of
        None \<Rightarrow> (Inl [ExecErr ExecNotFound], False, s)
      | Some r \<Rightarrow>
          if xr_ResultExpired r then (Inl [ExecErr ExecExpired], False, s)
          else (case xr_Result r of
                  None \<Rightarrow> (Inl [ExecErr ExecPending], False, s)
                | Some result \<Rightarrow>
                    if \<not> now < re_RetainedUntil result
                    then (Inl [ExecErr ExecExpired], True,
                          s\<lparr>xs_Executions := fmupd operationID (expire_result r) (xs_Executions s)\<rparr>)
                    else (Inr result, False, s)))"

section \<open>Snapshots\<close>

definition exec_snapshotVersion :: int where "exec_snapshotVersion = 2"

record ExecPersisted =
  xp_Version :: int
  xp_Executions :: "(string, ExecutionRecord) fmap option"
  xp_ExecutionIdempotency :: "(string, ExecIdempotency) fmap option"
  xp_CancellationIntents :: "(string, CancellationIntent) fmap option"
  xp_CancellationReservedAt :: "(string, time) fmap option"
  xp_CancellationIdempotency :: "(string, ExecIdempotency) fmap option"

definition Exec_Export :: "ExecState \<Rightarrow> ExecPersisted" where
  "Exec_Export s =
     \<lparr>xp_Version = exec_snapshotVersion, xp_Executions = Some (xs_Executions s),
      xp_ExecutionIdempotency = Some (xs_ExecutionIdempotency s), xp_CancellationIntents = Some (xs_CancellationIntents s),
      xp_CancellationReservedAt = Some (xs_CancellationReservedAt s),
      xp_CancellationIdempotency = Some (xs_CancellationIdempotency s)\<rparr>"

definition validPersistedRequest :: "Request \<Rightarrow> bool" where
  "validPersistedRequest r \<longleftrightarrow> rq_Deadline r \<noteq> 0 \<and> Request_Validate r (rq_Deadline r - 1) = None"

definition validateStoredResult :: "ExecutionRecord \<Rightarrow> error option" where
  "validateStoredResult r =
     (case xr_Result r of
        None \<Rightarrow> Some [ExecErr ExecCorrupt]
      | Some result \<Rightarrow>
          first_err [
            fail_if (\<not> xr_Attached r \<and> re_Status result \<noteq> ResultFailed \<and> re_Status result \<noteq> ResultOutcomeUnknown)
              [ExecErr ExecCorrupt],
            fail_if (Result_Validate result \<noteq> None \<or> re_OperationID result \<noteq> rq_OperationID (xr_Request r) \<or>
              re_AttemptID result \<noteq> rq_AttemptID (xr_Request r) \<or> re_SandboxID result \<noteq> rq_SandboxID (xr_Request r) \<or>
              re_FencingToken result \<noteq> rq_FencingToken (xr_Request r) \<or>
              re_RetainedUntil result \<noteq> re_CompletedAt result + rq_ResultRetention (xr_Request r)) [ExecErr ExecCorrupt]])"

text \<open>The summary that stands in for one that was never recorded.\<close>

definition lost_summary :: "ExecutionRecord \<Rightarrow> TerminalSummary" where
  "lost_summary r =
     \<lparr>ts_Status = ResultOutcomeUnknown,
      ts_CompletedAt = (if xr_Attached r \<and> xr_ReservedAt r < di_AcceptedAt (xr_Dispatch r)
        then di_AcceptedAt (xr_Dispatch r) else xr_ReservedAt r),
      ts_Error = Some \<lparr>er_Code = ''SANDBOX_EXEC_OUTCOME_UNKNOWN'', er_Message = ''expired execution outcome is no longer available'',
        er_Retryable = False, er_Outcome = ErrorOutcomeUnknown\<rparr>\<rparr>"

text \<open>One record of a snapshot: its receipt, its acceptance time, its result and its summary, in the order of the code.\<close>

definition import_receipt :: "ExecutionRecord \<Rightarrow> error + ExecutionRecord" where
  "import_receipt r =
     (let r = (if \<not> xr_Attached r \<and> di_ExecutionReference (xr_Dispatch r) \<noteq> [] then r\<lparr>xr_Attached := True\<rparr> else r)
      in on_ok (if xr_ReservedAt r = 0
                then (if xr_Attached r then Inr (r\<lparr>xr_ReservedAt := di_AcceptedAt (xr_Dispatch r)\<rparr>) else Inl [ExecErr ExecCorrupt])
                else Inr r) (\<lambda>r.
           unless_err (if xr_Attached r
             then fail_if (Dispatch_Validate (xr_Dispatch r) \<noteq> None \<or> di_AcceptedAt (xr_Dispatch r) < xr_ReservedAt r)
               [ExecErr ExecCorrupt]
             else fail_if (xr_Dispatch r \<noteq> no_dispatch) [ExecErr ExecCorrupt]) (Inr r)))"

definition import_result :: "ExecutionRecord \<Rightarrow> error + ExecutionRecord" where
  "import_result r =
     (case xr_Result r of
        None \<Rightarrow> Inr r
      | Some result \<Rightarrow>
          unless_err (validateStoredResult r)
          (case NewTerminalSummary result of
             Inl _ \<Rightarrow> Inl [ExecErr ExecCorrupt]
           | Inr terminal \<Rightarrow>
               (case xr_Terminal r of
                  None \<Rightarrow> Inr (r\<lparr>xr_Terminal := Some terminal\<rparr>)
                | Some t \<Rightarrow>
                    if TerminalSummary_Validate t \<noteq> None \<or> t \<noteq> terminal then Inl [ExecErr ExecCorrupt] else Inr r)))"

definition import_terminal :: "ExecutionRecord \<Rightarrow> error + ExecutionRecord" where
  "import_terminal r =
     (if xr_ResultExpired r \<and> xr_Result r \<noteq> None then Inl [ExecErr ExecCorrupt]
      else
        let r = (if xr_ResultExpired r \<and> xr_Terminal r = None then r\<lparr>xr_Terminal := Some (lost_summary r)\<rparr> else r)
        in case xr_Terminal r of
             None \<Rightarrow> Inr r
           | Some t \<Rightarrow>
               if TerminalSummary_Validate t \<noteq> None \<or> ts_CompletedAt t < xr_ReservedAt r \<or>
                  xr_Result r = None \<and> \<not> xr_ResultExpired r
               then Inl [ExecErr ExecCorrupt] else Inr r)"

definition import_execution :: "string \<times> ExecutionRecord \<Rightarrow> ExecState \<Rightarrow> error + ExecState" where
  "import_execution = (\<lambda>(i, r) s.
     if i = [] \<or> rq_OperationID (xr_Request r) \<noteq> i \<or> \<not> validPersistedRequest (xr_Request r) then Inl [ExecErr ExecCorrupt]
     else on_ok (import_receipt r) (\<lambda>r. on_ok (import_result r) (\<lambda>r. on_ok (import_terminal r) (\<lambda>r.
       Inr (s\<lparr>xs_Executions := fmupd i r (xs_Executions s)\<rparr>)))))"

definition idempotency_wrong :: "string \<Rightarrow> ExecIdempotency \<Rightarrow> bool" where
  "idempotency_wrong key x \<longleftrightarrow> key = [] \<or> xi_Key x \<noteq> key \<or> xi_RequestDigest x = [] \<or> xi_OperationID x = []"

definition import_execution_idempotency :: "string \<times> ExecIdempotency \<Rightarrow> ExecState \<Rightarrow> error + ExecState" where
  "import_execution_idempotency = (\<lambda>(key, x) s.
     if idempotency_wrong key x then Inl [ExecErr ExecCorrupt]
     else case fmlookup (xs_Executions s) (xi_OperationID x) of
            None \<Rightarrow> Inl [ExecErr ExecCorrupt]
          | Some r \<Rightarrow>
              if rq_IdempotencyKey (xr_Request r) \<noteq> key \<or> rq_RequestDigest (xr_Request r) \<noteq> xi_RequestDigest x
              then Inl [ExecErr ExecCorrupt]
              else Inr (s\<lparr>xs_ExecutionIdempotency := fmupd key x (xs_ExecutionIdempotency s)\<rparr>))"

definition check_execution :: "string \<times> ExecutionRecord \<Rightarrow> ExecState \<Rightarrow> error + ExecState" where
  "check_execution = (\<lambda>(i, r) s.
     case fmlookup (xs_ExecutionIdempotency s) (rq_IdempotencyKey (xr_Request r)) of
       None \<Rightarrow> Inl [ExecErr ExecCorrupt]
     | Some x \<Rightarrow> if xi_OperationID x \<noteq> i then Inl [ExecErr ExecCorrupt] else Inr s)"

definition import_intent :: "int \<Rightarrow> (string, time) fmap \<Rightarrow> string \<times> CancellationIntent \<Rightarrow> ExecState \<Rightarrow> error + ExecState" where
  "import_intent version reservedAt = (\<lambda>(i, intent) s.
     if i = [] \<or> ci_OperationID intent \<noteq> i \<or> CancellationIntent_Validate intent 0 \<noteq> None then Inl [ExecErr ExecCorrupt]
     else if i |\<in>| fmdom (xs_Executions s) then Inl [ExecErr ExecCorrupt]
     else case fmlookup (xs_Executions s) (ci_TargetOperationID intent) of
            None \<Rightarrow> Inl [ExecErr ExecCorrupt]
          | Some target \<Rightarrow>
              if \<not> target_matches intent (xr_Request target) then Inl [ExecErr ExecCorrupt]
              else
                let t = fmget reservedAt i;
                    t = (if version = 1 \<and> t = 0 then xr_ReservedAt target else t)
                in if t = 0 \<or> ci_Deadline intent < t then Inl [ExecErr ExecCorrupt]
                   else Inr (s\<lparr>xs_CancellationIntents := fmupd i intent (xs_CancellationIntents s),
                     xs_CancellationReservedAt := fmupd i t (xs_CancellationReservedAt s)\<rparr>))"

definition import_cancellation_idempotency :: "string \<times> ExecIdempotency \<Rightarrow> ExecState \<Rightarrow> error + ExecState" where
  "import_cancellation_idempotency = (\<lambda>(key, x) s.
     if idempotency_wrong key x then Inl [ExecErr ExecCorrupt]
     else case fmlookup (xs_CancellationIntents s) (xi_OperationID x) of
            None \<Rightarrow> Inl [ExecErr ExecCorrupt]
          | Some i \<Rightarrow>
              if ci_IdempotencyKey i \<noteq> key \<or> ci_RequestDigest i \<noteq> xi_RequestDigest x then Inl [ExecErr ExecCorrupt]
              else Inr (s\<lparr>xs_CancellationIdempotency := fmupd key x (xs_CancellationIdempotency s)\<rparr>))"

definition check_intent :: "string \<times> CancellationIntent \<Rightarrow> ExecState \<Rightarrow> error + ExecState" where
  "check_intent = (\<lambda>(i, intent) s.
     case fmlookup (xs_CancellationIdempotency s) (ci_IdempotencyKey intent) of
       None \<Rightarrow> Inl [ExecErr ExecCorrupt]
     | Some x \<Rightarrow> if xi_OperationID x \<noteq> i then Inl [ExecErr ExecCorrupt] else Inr s)"

definition entries :: "('k::linorder, 'v) fmap option \<Rightarrow> ('k \<times> 'v) list" where
  "entries m = (case m of None \<Rightarrow> [] | Some m \<Rightarrow> sorted_list_of_fmap m)"

definition Exec_Import :: "ExecPersisted \<Rightarrow> error + ExecState" where
  "Exec_Import p =
     (if xp_Version p \<noteq> 1 \<and> xp_Version p \<noteq> exec_snapshotVersion \<or> xp_Executions p = None \<or>
         xp_ExecutionIdempotency p = None \<or> xp_CancellationIntents p = None \<or> xp_CancellationIdempotency p = None
      then Inl [ExecErr ExecCorrupt]
      else if xp_Version p = exec_snapshotVersion \<and> xp_CancellationReservedAt p = None then Inl [ExecErr ExecCorrupt]
      else
        on_ok (fold_res import_execution (entries (xp_Executions p)) Exec_NewState) (\<lambda>s.
        on_ok (fold_res import_execution_idempotency (entries (xp_ExecutionIdempotency p)) s) (\<lambda>s.
        on_ok (fold_res check_execution (sorted_list_of_fmap (xs_Executions s)) s) (\<lambda>s.
        on_ok (fold_res (import_intent (xp_Version p) (case xp_CancellationReservedAt p of None \<Rightarrow> fmempty | Some m \<Rightarrow> m))
          (entries (xp_CancellationIntents p)) s) (\<lambda>s.
        on_ok (fold_res import_cancellation_idempotency (entries (xp_CancellationIdempotency p)) s) (\<lambda>s.
        fold_res check_intent (sorted_list_of_fmap (xs_CancellationIntents s)) s))))))"

end
