(* ===== verification/Exec_Invariant.thy ===== *)
theory Exec_Invariant
  imports Exec_State
begin

text \<open>
  Histories of the exec repository's state: the invariant of every state they reach, what they never change
  again, and the saved snapshot.
\<close>

section \<open>Histories\<close>

text \<open>The clock of a cancellation is after the zero time, as a reservation time of zero reads as absent.\<close>

inductive exec_step :: "ExecState \<Rightarrow> ExecState \<Rightarrow> bool" where
  reserve: "ReserveExecutionAt request acceptedAt dispatch s = Inr (res, s') \<Longrightarrow> exec_step s s'"
| attach: "AttachExecution a s = Inr (res, s') \<Longrightarrow> exec_step s s'"
| cancel: "ReserveCancellation i now s = Inr (res, s') \<Longrightarrow> 0 < now \<Longrightarrow> exec_step s s'"
| store: "StoreResult x s = Inr s' \<Longrightarrow> exec_step s s'"
| read: "ReadResult i now s = (res, changed, s') \<Longrightarrow> exec_step s s'"

inductive exec_evolves :: "ExecState \<Rightarrow> ExecState \<Rightarrow> bool" where
  start: "exec_evolves s s"
| step: "exec_evolves s t \<Longrightarrow> exec_step t u \<Longrightarrow> exec_evolves s u"

lemma exec_evolves_trans: "exec_evolves t u \<Longrightarrow> exec_evolves s t \<Longrightarrow> exec_evolves s u"
  by (induction rule: exec_evolves.induct) (auto intro: exec_evolves.step)

lemma exec_step_evolves: "exec_step s t \<Longrightarrow> exec_evolves s t"
  by (rule exec_evolves.step [OF exec_evolves.start])

section \<open>The branches of the operations\<close>

lemma ReserveExecutionAt_cases:
  assumes "ReserveExecutionAt request acceptedAt dispatch s = Inr (res, s')"
  obtains (replayed) r where "s' = s" "fmlookup (xs_Executions s) (rq_OperationID request) = Some r"
      "res = \<lparr>ev_Execution = r, ev_Replayed = True\<rparr>" "sameExecutionIdentity (xr_Request r) request"
      "Request_Validate request acceptedAt = None"
  | (fresh) "s' = admitted_state request acceptedAt dispatch s" "Request_Validate request acceptedAt = None"
      "acceptedAt \<noteq> 0" "length dispatch \<le> 1"
      "\<forall>d. dispatch = [d] \<longrightarrow> Dispatch_Validate d = None \<and> acceptedAt \<le> di_AcceptedAt d \<and>
         \<not> reference_taken (rq_OperationID request) (di_ExecutionReference d) s"
      "fmlookup (xs_ExecutionIdempotency s) (rq_IdempotencyKey request) = None"
      "rq_OperationID request |\<notin>| fmdom (xs_Executions s)" "rq_OperationID request |\<notin>| fmdom (xs_CancellationIntents s)"
      "res = \<lparr>ev_Execution = new_record request acceptedAt dispatch, ev_Replayed = False\<rparr>"
proof -
  have pre: "length dispatch \<le> 1" "acceptedAt \<noteq> 0" "Request_Validate request acceptedAt = None"
    "\<forall>d. dispatch = [d] \<longrightarrow> Dispatch_Validate d = None \<and> acceptedAt \<le> di_AcceptedAt d"
    using assms by (auto simp: ReserveExecutionAt_def)
  show ?thesis
  proof (cases "fmlookup (xs_ExecutionIdempotency s) (rq_IdempotencyKey request)")
    case None
    then show ?thesis
      using assms pre by (intro fresh) (auto simp: ReserveExecutionAt_def split: if_splits)
  next
    case (Some existing)
    then obtain r where "fmlookup (xs_Executions s) (rq_OperationID request) = Some r" "s' = s"
      "res = \<lparr>ev_Execution = r, ev_Replayed = True\<rparr>" "sameExecutionIdentity (xr_Request r) request"
      using assms by (auto simp: ReserveExecutionAt_def split: if_splits option.splits)
    then show ?thesis using pre(3) by (intro replayed)
  qed
qed

lemma AttachExecution_cases:
  assumes "AttachExecution a s = Inr (res, s')"
  obtains (replayed) r where "s' = s" "fmlookup (xs_Executions s) (at_OperationID a) = Some r" "xr_Attached r"
      "di_ExecutionReference (xr_Dispatch r) = di_ExecutionReference (at_Dispatch a)"
      "res = \<lparr>ev_Execution = r, ev_Replayed = True\<rparr>"
  | (fresh) r r' where "fmlookup (xs_Executions s) (at_OperationID a) = Some r" "\<not> xr_Attached r"
      "executionAttachmentMatches (xr_Request r) a" "xr_ReservedAt r \<le> di_AcceptedAt (at_Dispatch a)"
      "Dispatch_Validate (at_Dispatch a) = None"
      "\<not> reference_taken (at_OperationID a) (di_ExecutionReference (at_Dispatch a)) s"
      "r' = r\<lparr>xr_Dispatch := at_Dispatch a, xr_Attached := True\<rparr>"
      "s' = s\<lparr>xs_Executions := fmupd (at_OperationID a) r' (xs_Executions s)\<rparr>"
      "res = \<lparr>ev_Execution = r', ev_Replayed = False\<rparr>"
proof -
  obtain r where r: "fmlookup (xs_Executions s) (at_OperationID a) = Some r"
    and valid: "Dispatch_Validate (at_Dispatch a) = None"
    using assms by (auto simp: AttachExecution_def validateAttachment_def split: option.splits)
  show ?thesis
  proof (cases "xr_Attached r")
    case True
    with assms r show ?thesis by (intro replayed [OF _ r True]) (auto simp: AttachExecution_def split: if_splits)
  next
    case False
    have "executionAttachmentMatches (xr_Request r) a" "xr_ReservedAt r \<le> di_AcceptedAt (at_Dispatch a)"
      "\<not> reference_taken (at_OperationID a) (di_ExecutionReference (at_Dispatch a)) s"
      using assms r False by (auto simp: AttachExecution_def not_less split: if_splits)
    with assms r False show ?thesis
      by (intro fresh [OF r False _ _ valid _ refl]) (auto simp: AttachExecution_def Let_def)
  qed
qed

lemma ReserveCancellation_cases:
  assumes "ReserveCancellation i now s = Inr (res, s')"
  obtains (replayed) stored t where "s' = s" "res = \<lparr>cv_Intent = stored, cv_ReservedAt = t, cv_Replayed = True\<rparr>"
      "fmlookup (xs_CancellationIntents s) (ci_OperationID i) = Some stored"
  | (fresh) target where "s' = intended_state i now s" "CancellationIntent_Validate i now = None"
      "fmlookup (xs_CancellationIdempotency s) (ci_IdempotencyKey i) = None"
      "fmlookup (xs_Executions s) (ci_TargetOperationID i) = Some target" "target_matches i (xr_Request target)"
      "ci_OperationID i |\<notin>| fmdom (xs_Executions s)" "ci_OperationID i |\<notin>| fmdom (xs_CancellationIntents s)"
      "res = \<lparr>cv_Intent = i, cv_ReservedAt = now, cv_Replayed = False\<rparr>" "xr_Result target = None" "\<not> xr_ResultExpired target"
proof -
  have valid: "CancellationIntent_Validate i now = None" using assms by (auto simp: ReserveCancellation_def)
  show ?thesis
  proof (cases "fmlookup (xs_CancellationIdempotency s) (ci_IdempotencyKey i)")
    case None
    moreover obtain target where t: "fmlookup (xs_Executions s) (ci_TargetOperationID i) = Some target"
      using assms None by (auto simp: ReserveCancellation_def split: option.splits)
    moreover have "target_matches i (xr_Request target)" "ci_OperationID i |\<notin>| fmdom (xs_Executions s)"
      "ci_OperationID i |\<notin>| fmdom (xs_CancellationIntents s)" "xr_Result target = None" "\<not> xr_ResultExpired target"
      using assms None t by (auto simp: ReserveCancellation_def split: if_splits)
    ultimately show ?thesis
      using assms valid by (intro fresh [OF _ valid None t]) (simp_all add: ReserveCancellation_def)
  next
    case (Some existing)
    then obtain stored t where "fmlookup (xs_CancellationIntents s) (ci_OperationID i) = Some stored"
      "s' = s" "res = \<lparr>cv_Intent = stored, cv_ReservedAt = t, cv_Replayed = True\<rparr>"
      using assms by (auto simp: ReserveCancellation_def split: option.splits if_splits)
    then show ?thesis by (intro replayed)
  qed
qed

lemma StoreResult_cases:
  assumes "StoreResult x s = Inr s'"
  obtains (replayed) r where "s' = s" "fmlookup (xs_Executions s) (re_OperationID x) = Some r" "xr_Result r = Some x"
      "Result_Validate x = None"
  | (fresh) r terminal where "fmlookup (xs_Executions s) (re_OperationID x) = Some r" "Result_Validate x = None"
      "rq_AttemptID (xr_Request r) = re_AttemptID x" "rq_SandboxID (xr_Request r) = re_SandboxID x"
      "rq_FencingToken (xr_Request r) = re_FencingToken x" "xr_ReservedAt r \<le> re_StartedAt x"
      "xr_Attached r \<or> re_Status x = ResultFailed \<or> re_Status x = ResultOutcomeUnknown"
      "re_RetainedUntil x = re_CompletedAt x + rq_ResultRetention (xr_Request r)" "\<not> xr_ResultExpired r"
      "xr_Result r = None" "NewTerminalSummary x = Inr terminal"
      "s' = s\<lparr>xs_Executions := fmupd (re_OperationID x) (r\<lparr>xr_Result := Some x, xr_Terminal := Some terminal\<rparr>) (xs_Executions s)\<rparr>"
proof -
  obtain r where r: "fmlookup (xs_Executions s) (re_OperationID x) = Some r" and valid: "Result_Validate x = None"
    using assms by (auto simp: StoreResult_def split: option.splits)
  show ?thesis
  proof (cases "xr_Result r")
    case None
    have "rq_AttemptID (xr_Request r) = re_AttemptID x" "rq_SandboxID (xr_Request r) = re_SandboxID x"
      "rq_FencingToken (xr_Request r) = re_FencingToken x" "xr_ReservedAt r \<le> re_StartedAt x"
      "xr_Attached r \<or> re_Status x = ResultFailed \<or> re_Status x = ResultOutcomeUnknown"
      "re_RetainedUntil x = re_CompletedAt x + rq_ResultRetention (xr_Request r)" "\<not> xr_ResultExpired r"
      using assms r None by (auto simp: StoreResult_def not_less split: if_splits)
    moreover from this obtain terminal where "NewTerminalSummary x = Inr terminal"
      "s' = s\<lparr>xs_Executions := fmupd (re_OperationID x) (r\<lparr>xr_Result := Some x, xr_Terminal := Some terminal\<rparr>) (xs_Executions s)\<rparr>"
      using assms r None by (auto simp: StoreResult_def split: if_splits)
    ultimately show ?thesis by (intro fresh [OF r valid _ _ _ _ _ _ _ None])
  next
    case (Some stored)
    have "stored = x \<and> s' = s"
      using assms r Some by (auto simp: StoreResult_def split: if_splits)
    with r valid Some show ?thesis by (intro replayed) simp_all
  qed
qed

lemma ReadResult_cases:
  assumes "ReadResult i now s = (res, changed, s')"
  obtains (same) "s' = s" "\<not> changed"
      "\<And>x. res = Inr x \<Longrightarrow> \<exists>r. fmlookup (xs_Executions s) i = Some r \<and> xr_Result r = Some x \<and>
         \<not> xr_ResultExpired r \<and> now < re_RetainedUntil x"
  | (expired) r x where "fmlookup (xs_Executions s) i = Some r" "xr_Result r = Some x" "\<not> now < re_RetainedUntil x"
      "res = Inl [ExecErr ExecExpired]" changed
      "s' = s\<lparr>xs_Executions := fmupd i (expire_result r) (xs_Executions s)\<rparr>"
  using assms by (auto simp: ReadResult_def split: option.splits if_splits)

section \<open>The invariant\<close>

definition result_ok :: "ExecutionRecord \<Rightarrow> ExecResult \<Rightarrow> bool" where
  "result_ok r x \<longleftrightarrow> validateStoredResult r = None \<and> NewTerminalSummary x = Inr (the (xr_Terminal r)) \<and>
     xr_Terminal r \<noteq> None \<and> \<not> xr_ResultExpired r"

definition record_ok :: "ExecutionRecord \<Rightarrow> bool" where
  "record_ok r \<longleftrightarrow>
     validPersistedRequest (xr_Request r) \<and> xr_ReservedAt r \<noteq> 0 \<and>
     (if xr_Attached r then Dispatch_Validate (xr_Dispatch r) = None \<and> xr_ReservedAt r \<le> di_AcceptedAt (xr_Dispatch r)
      else xr_Dispatch r = no_dispatch) \<and>
     (\<forall>x. xr_Result r = Some x \<longrightarrow> result_ok r x) \<and>
     (xr_ResultExpired r \<longrightarrow> xr_Terminal r \<noteq> None) \<and>
     (\<forall>t. xr_Terminal r = Some t \<longrightarrow> TerminalSummary_Validate t = None \<and> xr_ReservedAt r \<le> ts_CompletedAt t \<and>
        (xr_Result r \<noteq> None \<or> xr_ResultExpired r))"

definition inv_executions :: "ExecState \<Rightarrow> bool" where
  "inv_executions s \<longleftrightarrow>
     (\<forall>i r. fmlookup (xs_Executions s) i = Some r \<longrightarrow>
        rq_OperationID (xr_Request r) = i \<and> record_ok r \<and>
        fmlookup (xs_ExecutionIdempotency s) (rq_IdempotencyKey (xr_Request r)) = Some (request_idempotency (xr_Request r))) \<and>
     (\<forall>k x. fmlookup (xs_ExecutionIdempotency s) k = Some x \<longrightarrow>
        (\<exists>r. fmlookup (xs_Executions s) (xi_OperationID x) = Some r \<and> x = request_idempotency (xr_Request r) \<and>
           k = rq_IdempotencyKey (xr_Request r)))"

definition intent_ok :: "ExecState \<Rightarrow> CancellationIntent \<Rightarrow> bool" where
  "intent_ok s c \<longleftrightarrow>
     CancellationIntent_Validate c 0 = None \<and> ci_OperationID c |\<notin>| fmdom (xs_Executions s) \<and>
     (\<exists>target. fmlookup (xs_Executions s) (ci_TargetOperationID c) = Some target \<and> target_matches c (xr_Request target)) \<and>
     (\<exists>t. fmlookup (xs_CancellationReservedAt s) (ci_OperationID c) = Some t \<and> t \<noteq> 0 \<and> t \<le> ci_Deadline c)"

definition inv_cancellations :: "ExecState \<Rightarrow> bool" where
  "inv_cancellations s \<longleftrightarrow>
     (\<forall>i c. fmlookup (xs_CancellationIntents s) i = Some c \<longrightarrow>
        ci_OperationID c = i \<and> intent_ok s c \<and>
        fmlookup (xs_CancellationIdempotency s) (ci_IdempotencyKey c) = Some (intent_idempotency c)) \<and>
     fmdom (xs_CancellationReservedAt s) = fmdom (xs_CancellationIntents s) \<and>
     (\<forall>k x. fmlookup (xs_CancellationIdempotency s) k = Some x \<longrightarrow>
        (\<exists>c. fmlookup (xs_CancellationIntents s) (xi_OperationID x) = Some c \<and> x = intent_idempotency c \<and>
           k = ci_IdempotencyKey c))"

text \<open>No receipt belongs to two executions.\<close>

definition inv_references :: "ExecState \<Rightarrow> bool" where
  "inv_references s \<longleftrightarrow>
     (\<forall>i j r q. fmlookup (xs_Executions s) i = Some r \<and> fmlookup (xs_Executions s) j = Some q \<and>
        xr_Attached r \<and> xr_Attached q \<and>
        di_ExecutionReference (xr_Dispatch r) = di_ExecutionReference (xr_Dispatch q) \<longrightarrow> i = j)"

definition exec_inv :: "ExecState \<Rightarrow> bool" where
  "exec_inv s \<longleftrightarrow> inv_executions s \<and> inv_cancellations s \<and> inv_references s"

lemma exec_inv_NewState: "exec_inv Exec_NewState"
  by (simp add: exec_inv_def inv_executions_def inv_cancellations_def inv_references_def Exec_NewState_def)

lemma exec_inv_recordD:
  "exec_inv s \<Longrightarrow> fmlookup (xs_Executions s) i = Some r \<Longrightarrow> rq_OperationID (xr_Request r) = i \<and> record_ok r"
  by (auto simp: exec_inv_def inv_executions_def)

section \<open>Records stay well formed\<close>

lemma validPersistedRequestI: "Request_Validate r t = None \<Longrightarrow> validPersistedRequest r"
  by (auto simp: validPersistedRequest_def Request_Validate_def)

lemma CancellationIntent_Validate_earlier:
  "CancellationIntent_Validate i now = None \<Longrightarrow> 0 < now \<Longrightarrow>
   CancellationIntent_Validate i 0 = None \<and> now \<le> ci_Deadline i"
  by (simp add: CancellationIntent_Validate_def)

lemma record_ok_new:
  assumes "Request_Validate request t = None" and "t \<noteq> 0" and "length dispatch \<le> 1"
    and "\<forall>d. dispatch = [d] \<longrightarrow> Dispatch_Validate d = None \<and> t \<le> di_AcceptedAt d"
  shows "record_ok (new_record request t dispatch)"
proof (cases dispatch)
  case Nil
  with assms validPersistedRequestI show ?thesis by (auto simp: record_ok_def new_record_def)
next
  case (Cons d ds)
  with assms(3) have "dispatch = [d]" by simp
  with assms validPersistedRequestI show ?thesis by (auto simp: record_ok_def new_record_def)
qed

lemma validateStoredResult_attached:
  "validateStoredResult r = None \<Longrightarrow> validateStoredResult (r\<lparr>xr_Dispatch := d, xr_Attached := True\<rparr>) = None"
  by (simp add: validateStoredResult_def split: option.splits)

lemma record_ok_attach:
  assumes "record_ok r" and "Dispatch_Validate d = None" and "xr_ReservedAt r \<le> di_AcceptedAt d"
  shows "record_ok (r\<lparr>xr_Dispatch := d, xr_Attached := True\<rparr>)"
  using assms validateStoredResult_attached [of r d] by (auto simp: record_ok_def result_ok_def split: if_splits)

lemma NewTerminalSummary_valid:
  "NewTerminalSummary x = Inr t \<Longrightarrow> TerminalSummary_Validate t = None \<and> ts_CompletedAt t = re_CompletedAt x \<and>
     ts_Status t = re_Status x \<and> ts_Error t = re_Error x"
  by (auto simp: NewTerminalSummary_def TerminalSummary_Validate_def Result_Validate_def)

lemma Result_Validate_times: "Result_Validate x = None \<Longrightarrow> re_StartedAt x \<le> re_CompletedAt x"
  by (simp add: Result_Validate_def not_less)

lemma record_ok_store:
  assumes "record_ok r" and "Result_Validate x = None" and "re_OperationID x = rq_OperationID (xr_Request r)"
    and "rq_AttemptID (xr_Request r) = re_AttemptID x" "rq_SandboxID (xr_Request r) = re_SandboxID x"
      "rq_FencingToken (xr_Request r) = re_FencingToken x" "xr_ReservedAt r \<le> re_StartedAt x"
      "xr_Attached r \<or> re_Status x = ResultFailed \<or> re_Status x = ResultOutcomeUnknown"
      "re_RetainedUntil x = re_CompletedAt x + rq_ResultRetention (xr_Request r)" "\<not> xr_ResultExpired r"
    and "NewTerminalSummary x = Inr t"
  shows "record_ok (r\<lparr>xr_Result := Some x, xr_Terminal := Some t\<rparr>)"
  using assms(1,3-11) NewTerminalSummary_valid [OF assms(11)] Result_Validate_times [OF assms(2)] assms(2)
  by (auto simp: record_ok_def result_ok_def validateStoredResult_def)

lemma record_ok_expire: "record_ok r \<Longrightarrow> xr_Result r \<noteq> None \<Longrightarrow> record_ok (expire_result r)"
  by (auto simp: record_ok_def result_ok_def expire_result_def)

section \<open>Operations keep the invariant\<close>

lemma reference_taken_iff:
  "reference_taken i ref s \<longleftrightarrow>
     (\<exists>j r. fmlookup (xs_Executions s) j = Some r \<and> j \<noteq> i \<and> xr_Attached r \<and> di_ExecutionReference (xr_Dispatch r) = ref)"
  by (fastforce simp: reference_taken_def list_ex_iff set_sorted_list_of_fmap)

text \<open>Replacing a record by one of the same request.\<close>

lemma exec_inv_update:
  assumes "exec_inv s" and "fmlookup (xs_Executions s) i = Some r" and "xr_Request r' = xr_Request r" and "record_ok r'"
    and "xr_Attached r' \<Longrightarrow> xr_Attached r \<and> xr_Dispatch r' = xr_Dispatch r \<or>
      \<not> reference_taken i (di_ExecutionReference (xr_Dispatch r')) s"
  shows "exec_inv (s\<lparr>xs_Executions := fmupd i r' (xs_Executions s)\<rparr>)"
proof -
  let ?s = "s\<lparr>xs_Executions := fmupd i r' (xs_Executions s)\<rparr>"
  have "inv_executions ?s"
    using assms(1-4) unfolding exec_inv_def inv_executions_def by (auto 4 4)
  moreover have "i |\<in>| fmdom (xs_Executions s)" using assms(2) by (rule fmdomI)
  then have "intent_ok s c \<Longrightarrow> intent_ok ?s c" for c
    using assms(2,3) by (auto simp: intent_ok_def)
  then have "inv_cancellations ?s" using assms(1) by (simp add: exec_inv_def inv_cancellations_def)
  moreover have "inv_references ?s"
    unfolding inv_references_def
  proof (intro allI impI)
    fix j k q q'
    assume h: "fmlookup (xs_Executions ?s) j = Some q \<and> fmlookup (xs_Executions ?s) k = Some q' \<and>
      xr_Attached q \<and> xr_Attached q' \<and> di_ExecutionReference (xr_Dispatch q) = di_ExecutionReference (xr_Dispatch q')"
    have clash: "m = i" if "fmlookup (xs_Executions s) m = Some z" "xr_Attached z" "xr_Attached r'"
      "di_ExecutionReference (xr_Dispatch z) = di_ExecutionReference (xr_Dispatch r')" for m z
      using assms(1,2) assms(5) [OF that(3)] that unfolding exec_inv_def inv_references_def reference_taken_iff by metis
    show "j = k"
      using h clash assms(1) unfolding exec_inv_def inv_references_def by (auto split: if_splits)
  qed
  ultimately show ?thesis by (simp add: exec_inv_def)
qed

lemma ReserveExecutionAt_inv:
  assumes "ReserveExecutionAt request t dispatch s = Inr (res, s')" and "exec_inv s"
  shows "exec_inv s'"
  using assms(1)
proof (cases rule: ReserveExecutionAt_cases)
  case fresh
  let ?i = "rq_OperationID request" and ?r = "new_record request t dispatch"
  have new: "record_ok ?r" using fresh by (intro record_ok_new) auto
  have r: "xr_Request ?r = request" by (simp add: new_record_def)
  have none: "fmlookup (xs_Executions s) ?i = None" using fresh(7) by (simp add: fmdom_notD)
  have old: "rq_IdempotencyKey (xr_Request q) \<noteq> rq_IdempotencyKey request" if "fmlookup (xs_Executions s) j = Some q" for j q
  proof -
    have "fmlookup (xs_ExecutionIdempotency s) (rq_IdempotencyKey (xr_Request q)) = Some (request_idempotency (xr_Request q))"
      using assms(2) that unfolding exec_inv_def inv_executions_def by blast
    with fresh(6) show ?thesis by auto
  qed
  have old2: "xi_OperationID x \<noteq> ?i" if x: "fmlookup (xs_ExecutionIdempotency s) k = Some x" for k x
  proof -
    obtain q where "fmlookup (xs_Executions s) (xi_OperationID x) = Some q"
      using assms(2) x unfolding exec_inv_def inv_executions_def by blast
    with none show ?thesis by auto
  qed
  have execs: "inv_executions s'"
    using assms(2) new r none unfolding fresh(1) admitted_state_def exec_inv_def inv_executions_def
    by (auto simp: request_idempotency_def dest: old old2)
  have kept: "intent_ok s' c" if "fmlookup (xs_CancellationIntents s) j = Some c" for j c
  proof -
    have "intent_ok s c" "ci_OperationID c \<noteq> ?i"
      using assms(2) that fresh(8) by (auto simp: exec_inv_def inv_cancellations_def dest: fmdomI)
    then show ?thesis using none unfolding fresh(1) admitted_state_def intent_ok_def by auto
  qed
  have cancels: "inv_cancellations s'"
    using assms(2) kept unfolding exec_inv_def inv_cancellations_def by (simp add: fresh(1) admitted_state_def)
  have clash: False if z: "fmlookup (xs_Executions s) m = Some z" "xr_Attached z" "xr_Attached ?r"
    "di_ExecutionReference (xr_Dispatch z) = di_ExecutionReference (xr_Dispatch ?r)" for m z
  proof -
    obtain d where "dispatch = [d]" using z(3) by (auto simp: new_record_def length_Suc_conv)
    then have "\<not> reference_taken ?i (di_ExecutionReference (xr_Dispatch ?r)) s" using fresh(5) by (simp add: new_record_def)
    with z none show False unfolding reference_taken_iff by (metis option.distinct(1))
  qed
  have same: "j = k" if "fmlookup (xs_Executions s) j = Some q" "fmlookup (xs_Executions s) k = Some q'" "xr_Attached q"
    "xr_Attached q'" "di_ExecutionReference (xr_Dispatch q) = di_ExecutionReference (xr_Dispatch q')" for j k q q'
    using assms(2) that unfolding exec_inv_def inv_references_def by blast
  have "inv_references s'"
    unfolding inv_references_def
  proof (intro allI impI)
    fix j k q q'
    assume h: "fmlookup (xs_Executions s') j = Some q \<and> fmlookup (xs_Executions s') k = Some q' \<and>
      xr_Attached q \<and> xr_Attached q' \<and> di_ExecutionReference (xr_Dispatch q) = di_ExecutionReference (xr_Dispatch q')"
    then show "j = k"
      using same [of j q k q'] clash [of j q] clash [of k q'] by (auto simp: fresh(1) admitted_state_def split: if_splits)
  qed
  with execs cancels show ?thesis by (simp add: exec_inv_def)
qed (use assms(2) in simp)

lemma AttachExecution_inv:
  assumes "AttachExecution a s = Inr (res, s')" and "exec_inv s"
  shows "exec_inv s'"
  using assms(1)
proof (cases rule: AttachExecution_cases)
  case (fresh r r')
  have "record_ok r'" unfolding fresh(7) using fresh exec_inv_recordD [OF assms(2) fresh(1)] by (intro record_ok_attach) auto
  with fresh show ?thesis unfolding fresh(8) by (intro exec_inv_update [OF assms(2) fresh(1)]) auto
qed (use assms(2) in simp)

lemma ReserveCancellation_inv:
  assumes "ReserveCancellation i now s = Inr (res, s')" and "0 < now" and "exec_inv s"
  shows "exec_inv s'"
  using assms(1)
proof (cases rule: ReserveCancellation_cases)
  case (fresh target)
  note valid = CancellationIntent_Validate_earlier [OF fresh(2) assms(2)]
  have none: "fmlookup (xs_CancellationIntents s) (ci_OperationID i) = None" using fresh(7) by (simp add: fmdom_notD)
  have old: "ci_IdempotencyKey c \<noteq> ci_IdempotencyKey i \<and> ci_OperationID c \<noteq> ci_OperationID i"
    if "fmlookup (xs_CancellationIntents s) j = Some c" for j c
  proof -
    have "ci_OperationID c = j" "fmlookup (xs_CancellationIdempotency s) (ci_IdempotencyKey c) = Some (intent_idempotency c)"
      using assms(3) that unfolding exec_inv_def inv_cancellations_def by blast+
    with fresh(3) none that show ?thesis by auto
  qed
  have new: "intent_ok s' i"
    using valid fresh(4-6) assms(2) unfolding fresh(1) by (simp add: intent_ok_def intended_state_def)
  have kept: "intent_ok s c \<Longrightarrow> ci_OperationID c \<noteq> ci_OperationID i \<Longrightarrow> intent_ok s' c" for c
    unfolding fresh(1) by (simp add: intent_ok_def intended_state_def)
  have "inv_cancellations s'"
    unfolding inv_cancellations_def
  proof (intro conjI allI impI)
    fix j c
    assume "fmlookup (xs_CancellationIntents s') j = Some c"
    then have "c = i \<and> j = ci_OperationID i \<or> fmlookup (xs_CancellationIntents s) j = Some c"
      by (cases "j = ci_OperationID i") (simp_all add: fresh(1) intended_state_def)
    then consider "c = i" "j = ci_OperationID i" | "fmlookup (xs_CancellationIntents s) j = Some c" by blast
    then have "ci_OperationID c = j \<and> intent_ok s' c \<and>
      fmlookup (xs_CancellationIdempotency s') (ci_IdempotencyKey c) = Some (intent_idempotency c)"
    proof cases
      case 1
      with new show ?thesis unfolding fresh(1) by (simp add: intended_state_def)
    next
      case 2
      with assms(3) have "ci_OperationID c = j" "intent_ok s c"
        "fmlookup (xs_CancellationIdempotency s) (ci_IdempotencyKey c) = Some (intent_idempotency c)"
        unfolding exec_inv_def inv_cancellations_def by blast+
      with kept [of c] old [OF 2] show ?thesis by (auto simp: fresh(1) intended_state_def)
    qed
    then show "ci_OperationID c = j" "intent_ok s' c"
      "fmlookup (xs_CancellationIdempotency s') (ci_IdempotencyKey c) = Some (intent_idempotency c)" by simp_all
  next
    show "fmdom (xs_CancellationReservedAt s') = fmdom (xs_CancellationIntents s')"
      using assms(3) unfolding fresh(1) by (simp add: intended_state_def exec_inv_def inv_cancellations_def)
  next
    fix k x
    assume "fmlookup (xs_CancellationIdempotency s') k = Some x"
    then have "k = ci_IdempotencyKey i \<and> x = intent_idempotency i \<or> fmlookup (xs_CancellationIdempotency s) k = Some x"
      by (cases "k = ci_IdempotencyKey i") (simp_all add: fresh(1) intended_state_def)
    then consider "k = ci_IdempotencyKey i" "x = intent_idempotency i" | "fmlookup (xs_CancellationIdempotency s) k = Some x"
      by blast
    then show "\<exists>c. fmlookup (xs_CancellationIntents s') (xi_OperationID x) = Some c \<and> x = intent_idempotency c \<and>
        k = ci_IdempotencyKey c"
    proof cases
      case 1
      then show ?thesis unfolding fresh(1) by (simp add: intended_state_def intent_idempotency_def)
    next
      case 2
      then obtain c where "fmlookup (xs_CancellationIntents s) (xi_OperationID x) = Some c" "x = intent_idempotency c"
        "k = ci_IdempotencyKey c" using assms(3) unfolding exec_inv_def inv_cancellations_def by blast
      moreover from this none have "xi_OperationID x \<noteq> ci_OperationID i" by auto
      ultimately show ?thesis unfolding fresh(1) by (simp add: intended_state_def)
    qed
  qed
  then show ?thesis
    using assms(3) unfolding fresh(1) intended_state_def
    by (simp add: exec_inv_def inv_executions_def inv_references_def)
qed (use assms(3) in simp)

lemma StoreResult_inv:
  assumes "StoreResult x s = Inr s'" and "exec_inv s"
  shows "exec_inv s'"
  using assms(1)
proof (cases rule: StoreResult_cases)
  case (fresh r t)
  note r = exec_inv_recordD [OF assms(2) fresh(1)]
  have "record_ok (r\<lparr>xr_Result := Some x, xr_Terminal := Some t\<rparr>)"
    using fresh(2-11) r by (intro record_ok_store) auto
  with fresh show ?thesis unfolding fresh(12) by (intro exec_inv_update [OF assms(2) fresh(1)]) auto
qed (use assms(2) in simp)

lemma ReadResult_inv:
  assumes "ReadResult i now s = (res, changed, s')" and "exec_inv s"
  shows "exec_inv s'"
  using assms(1)
proof (cases rule: ReadResult_cases)
  case (expired r x)
  have "record_ok (expire_result r)" using record_ok_expire exec_inv_recordD [OF assms(2) expired(1)] expired(2) by simp
  with expired show ?thesis unfolding expired(6) by (intro exec_inv_update [OF assms(2) expired(1)]) (auto simp: expire_result_def)
qed (use assms(2) in simp)

lemma exec_step_inv: "exec_step s t \<Longrightarrow> exec_inv s \<Longrightarrow> exec_inv t"
  by (induction rule: exec_step.induct)
    (blast intro: ReserveExecutionAt_inv AttachExecution_inv ReserveCancellation_inv StoreResult_inv ReadResult_inv)+

lemma exec_evolves_inv: "exec_evolves s t \<Longrightarrow> exec_inv s \<Longrightarrow> exec_inv t"
  by (induction rule: exec_evolves.induct) (auto intro: exec_step_inv)

section \<open>What never changes again\<close>

text \<open>
  A record keeps its request and its acceptance time; a receipt, once attached, and a summary, once there,
  stay; a result stays until it expires, and then never comes back.
\<close>

definition record_follows :: "ExecutionRecord \<Rightarrow> ExecutionRecord \<Rightarrow> bool" where
  "record_follows r r' \<longleftrightarrow>
     xr_Request r' = xr_Request r \<and> xr_ReservedAt r' = xr_ReservedAt r \<and>
     (xr_Attached r \<longrightarrow> xr_Attached r' \<and> xr_Dispatch r' = xr_Dispatch r) \<and>
     (xr_Terminal r \<noteq> None \<longrightarrow> xr_Terminal r' = xr_Terminal r) \<and>
     (xr_Result r \<noteq> None \<longrightarrow> xr_Result r' = xr_Result r \<or> xr_ResultExpired r') \<and>
     (xr_ResultExpired r \<longrightarrow> xr_ResultExpired r')"

definition exec_follows :: "ExecState \<Rightarrow> ExecState \<Rightarrow> bool" where
  "exec_follows s t \<longleftrightarrow>
     (\<forall>i r. fmlookup (xs_Executions s) i = Some r \<longrightarrow> (\<exists>r'. fmlookup (xs_Executions t) i = Some r' \<and> record_follows r r'))"

lemma record_follows_refl: "record_follows r r"
  by (simp add: record_follows_def)

lemma record_follows_trans: "record_follows r q \<Longrightarrow> record_follows q p \<Longrightarrow> record_follows r p"
  by (auto simp: record_follows_def)

lemma exec_follows_refl: "exec_follows s s"
  using record_follows_refl by (auto simp: exec_follows_def)

lemma exec_follows_trans: "exec_follows s t \<Longrightarrow> exec_follows t u \<Longrightarrow> exec_follows s u"
  unfolding exec_follows_def by (meson record_follows_trans)

lemma exec_follows_update:
  assumes "fmlookup (xs_Executions s) i = Some r" and "record_follows r r'"
  shows "exec_follows s (s\<lparr>xs_Executions := fmupd i r' (xs_Executions s)\<rparr>)"
  using assms record_follows_refl by (simp add: exec_follows_def)

lemma exec_step_follows:
  assumes "exec_step s t" and "exec_inv s"
  shows "exec_follows s t"
  using assms
proof (induction rule: exec_step.induct)
  case (reserve request acceptedAt dispatch s res s')
  from reserve(1) show ?case
  proof (cases rule: ReserveExecutionAt_cases)
    case fresh
    then have "fmlookup (xs_Executions s) (rq_OperationID request) = None" by (simp add: fmdom_notD)
    then show ?thesis
      unfolding fresh(1) exec_follows_def admitted_state_def using record_follows_refl by auto
  qed (simp add: exec_follows_refl)
next
  case (attach a s res s')
  from attach(1) show ?case
  proof (cases rule: AttachExecution_cases)
    case (fresh r r')
    then show ?thesis unfolding fresh(8) by (intro exec_follows_update [OF fresh(1)]) (simp add: record_follows_def)
  qed (simp add: exec_follows_refl)
next
  case (cancel i now s res s')
  from cancel(1) show ?case
  proof (cases rule: ReserveCancellation_cases)
    case (fresh target)
    then show ?thesis unfolding fresh(1) exec_follows_def intended_state_def using record_follows_refl by simp
  qed (simp add: exec_follows_refl)
next
  case (store x s s')
  from store(1) show ?case
  proof (cases rule: StoreResult_cases)
    case (fresh r t)
    then have "xr_Terminal r = None"
      using exec_inv_recordD [OF store(2) fresh(1)] by (cases "xr_Terminal r") (auto simp: record_ok_def)
    with fresh show ?thesis unfolding fresh(12) by (intro exec_follows_update [OF fresh(1)]) (simp add: record_follows_def)
  qed (simp add: exec_follows_refl)
next
  case (read i now s res changed s')
  from read(1) show ?case
  proof (cases rule: ReadResult_cases)
    case (expired r x)
    then show ?thesis
      unfolding expired(6) by (intro exec_follows_update [OF expired(1)]) (simp add: record_follows_def expire_result_def)
  qed (simp add: exec_follows_refl)
qed

lemma exec_evolves_follows: "exec_evolves s t \<Longrightarrow> exec_inv s \<Longrightarrow> exec_follows s t"
proof (induction rule: exec_evolves.induct)
  case (step s t u)
  then show ?case using exec_step_follows exec_evolves_inv exec_follows_trans by blast
qed (simp add: exec_follows_refl)

section \<open>Saving and loading\<close>

lemma import_receipt_ok: "record_ok r \<Longrightarrow> import_receipt r = Inr r"
  by (auto simp: record_ok_def import_receipt_def no_dispatch_def Let_def not_less split: if_splits)

lemma import_result_ok: "record_ok r \<Longrightarrow> import_result r = Inr r"
  by (auto simp: record_ok_def import_result_def result_ok_def split: option.splits)

lemma import_terminal_ok: "record_ok r \<Longrightarrow> import_terminal r = Inr r"
  by (auto simp: record_ok_def import_terminal_def result_ok_def not_less Let_def split: option.splits)

lemma import_executions:
  assumes "inv_executions s"
  shows "fold_res import_execution (entries (Some (xs_Executions s))) Exec_NewState = Inr (Exec_NewState\<lparr>xs_Executions := xs_Executions s\<rparr>)"
proof -
  have "fold_res import_execution (sorted_list_of_fmap (xs_Executions s)) (Exec_NewState\<lparr>xs_Executions := fmempty\<rparr>) =
      Inr (Exec_NewState\<lparr>xs_Executions := xs_Executions s\<rparr>)"
  proof (rule fold_res_load_fmap)
    fix i r m
    assume "fmlookup (xs_Executions s) i = Some r"
    with assms have r: "rq_OperationID (xr_Request r) = i" "record_ok r" by (auto simp: inv_executions_def)
    moreover have "i \<noteq> []" "validPersistedRequest (xr_Request r)"
      using r by (auto simp: record_ok_def validPersistedRequest_def Request_Validate_def)
    ultimately show "import_execution (i, r) (Exec_NewState\<lparr>xs_Executions := m\<rparr>) = Inr (Exec_NewState\<lparr>xs_Executions := fmupd i r m\<rparr>)"
      by (simp add: import_execution_def import_receipt_ok import_result_ok import_terminal_ok)
  qed
  moreover have "Exec_NewState\<lparr>xs_Executions := fmempty\<rparr> = Exec_NewState" by (simp add: Exec_NewState_def)
  ultimately show ?thesis by (simp add: entries_def)
qed

lemma idempotency_request:
  assumes "validPersistedRequest r"
  shows "\<not> idempotency_wrong (rq_IdempotencyKey r) (request_idempotency r)"
proof -
  have "\<not> validBoundedString [] 1 MaxIdempotencyKeyRunes" by (simp add: validBoundedString_def)
  with assms show ?thesis
    by (auto simp: idempotency_wrong_def request_idempotency_def validPersistedRequest_def Request_Validate_def)
qed

lemma idempotency_intent:
  assumes "CancellationIntent_Validate c 0 = None"
  shows "\<not> idempotency_wrong (ci_IdempotencyKey c) (intent_idempotency c)"
proof -
  have "\<not> validBoundedString [] 1 MaxIdempotencyKeyRunes" by (simp add: validBoundedString_def)
  with assms show ?thesis
    by (auto simp: idempotency_wrong_def intent_idempotency_def CancellationIntent_Validate_def)
qed

lemma import_execution_idempotencies:
  assumes "inv_executions s" and "xs_Executions v = xs_Executions s" and "xs_ExecutionIdempotency v = fmempty"
  shows "fold_res import_execution_idempotency (entries (Some (xs_ExecutionIdempotency s))) v =
    Inr (v\<lparr>xs_ExecutionIdempotency := xs_ExecutionIdempotency s\<rparr>)"
proof -
  have "fold_res import_execution_idempotency (sorted_list_of_fmap (xs_ExecutionIdempotency s)) (v\<lparr>xs_ExecutionIdempotency := fmempty\<rparr>) =
    Inr (v\<lparr>xs_ExecutionIdempotency := xs_ExecutionIdempotency s\<rparr>)"
  proof (rule fold_res_load_fmap)
    fix k x m
    assume "fmlookup (xs_ExecutionIdempotency s) k = Some x"
    with assms(1) obtain r where r: "fmlookup (xs_Executions s) (xi_OperationID x) = Some r"
      "x = request_idempotency (xr_Request r)" "k = rq_IdempotencyKey (xr_Request r)"
      unfolding inv_executions_def by blast
    moreover have "validPersistedRequest (xr_Request r)" using assms(1) r(1) by (auto simp: inv_executions_def record_ok_def)
    ultimately show "import_execution_idempotency (k, x) (v\<lparr>xs_ExecutionIdempotency := m\<rparr>) =
        Inr (v\<lparr>xs_ExecutionIdempotency := fmupd k x m\<rparr>)"
      using idempotency_request assms(2) by (simp add: import_execution_idempotency_def request_idempotency_def)
  qed
  moreover have "v\<lparr>xs_ExecutionIdempotency := fmempty\<rparr> = v" using assms(3) by (cases v) simp
  ultimately show ?thesis by (simp add: entries_def)
qed

lemma import_intents:
  assumes "inv_cancellations s" and "xs_Executions v = xs_Executions s" and "xs_CancellationIntents v = fmempty"
    and "xs_CancellationReservedAt v = fmempty"
  shows "fold_res (import_intent exec_snapshotVersion (xs_CancellationReservedAt s)) (entries (Some (xs_CancellationIntents s))) v =
    Inr (v\<lparr>xs_CancellationIntents := xs_CancellationIntents s, xs_CancellationReservedAt := xs_CancellationReservedAt s\<rparr>)"
proof -
  let ?f = "import_intent exec_snapshotVersion (xs_CancellationReservedAt s)"
  let ?mk = "\<lambda>m. v\<lparr>xs_CancellationIntents := m, xs_CancellationReservedAt := fmrestrict_fset (fmdom m) (xs_CancellationReservedAt s)\<rparr>"
  have "fold_res ?f (sorted_list_of_fmap (xs_CancellationIntents s)) (?mk fmempty) = Inr (?mk (xs_CancellationIntents s))"
  proof (rule fold_res_load_fmap)
    fix i c m
    assume "fmlookup (xs_CancellationIntents s) i = Some c"
    with assms(1) have c: "ci_OperationID c = i" "intent_ok s c" unfolding inv_cancellations_def by blast+
    then obtain target t where t: "fmlookup (xs_Executions s) (ci_TargetOperationID c) = Some target"
      "target_matches c (xr_Request target)" "fmlookup (xs_CancellationReservedAt s) i = Some t" "t \<noteq> 0" "t \<le> ci_Deadline c"
      by (auto simp: intent_ok_def)
    have "fmupd i t (fmrestrict_fset (fmdom m) (xs_CancellationReservedAt s)) =
        fmrestrict_fset (fmdom (fmupd i c m)) (xs_CancellationReservedAt s)"
      using t(3) by (intro fmap_ext) auto
    moreover have "i \<noteq> []" using c by (auto simp: intent_ok_def CancellationIntent_Validate_def)
    ultimately show "?f (i, c) (?mk m) = Inr (?mk (fmupd i c m))"
      using c t assms(2) by (auto simp: import_intent_def intent_ok_def fmget_def exec_snapshotVersion_def)
  qed
  moreover have "fmrestrict_fset (fmdom (xs_CancellationIntents s)) (xs_CancellationReservedAt s) = xs_CancellationReservedAt s"
    using assms(1) by (intro fmap_ext) (auto simp: inv_cancellations_def fmdom_notD dest: fmdomI)
  moreover have "?mk fmempty = v" using assms(3,4) by simp
  ultimately show ?thesis by (simp add: entries_def)
qed

lemma import_cancellation_idempotencies:
  assumes "inv_cancellations s" and "xs_CancellationIntents v = xs_CancellationIntents s"
    and "xs_CancellationIdempotency v = fmempty"
  shows "fold_res import_cancellation_idempotency (entries (Some (xs_CancellationIdempotency s))) v =
    Inr (v\<lparr>xs_CancellationIdempotency := xs_CancellationIdempotency s\<rparr>)"
proof -
  have "fold_res import_cancellation_idempotency (sorted_list_of_fmap (xs_CancellationIdempotency s)) (v\<lparr>xs_CancellationIdempotency := fmempty\<rparr>) =
    Inr (v\<lparr>xs_CancellationIdempotency := xs_CancellationIdempotency s\<rparr>)"
  proof (rule fold_res_load_fmap)
    fix k x m
    assume "fmlookup (xs_CancellationIdempotency s) k = Some x"
    with assms(1) obtain c where c: "fmlookup (xs_CancellationIntents s) (xi_OperationID x) = Some c"
      "x = intent_idempotency c" "k = ci_IdempotencyKey c"
      unfolding inv_cancellations_def by blast
    moreover have "CancellationIntent_Validate c 0 = None" using assms(1) c(1) by (auto simp: inv_cancellations_def intent_ok_def)
    ultimately show "import_cancellation_idempotency (k, x) (v\<lparr>xs_CancellationIdempotency := m\<rparr>) =
        Inr (v\<lparr>xs_CancellationIdempotency := fmupd k x m\<rparr>)"
      using idempotency_intent assms(2) by (simp add: import_cancellation_idempotency_def intent_idempotency_def)
  qed
  moreover have "v\<lparr>xs_CancellationIdempotency := fmempty\<rparr> = v" using assms(3) by (cases v) simp
  ultimately show ?thesis by (simp add: entries_def)
qed

lemma Exec_Import_Export:
  assumes "exec_inv s"
  shows "Exec_Import (Exec_Export s) = Inr s"
proof -
  have inv: "inv_executions s" "inv_cancellations s" using assms by (simp_all add: exec_inv_def)
  let ?a = "Exec_NewState\<lparr>xs_Executions := xs_Executions s\<rparr>"
  let ?b = "?a\<lparr>xs_ExecutionIdempotency := xs_ExecutionIdempotency s\<rparr>"
  let ?c = "?b\<lparr>xs_CancellationIntents := xs_CancellationIntents s, xs_CancellationReservedAt := xs_CancellationReservedAt s\<rparr>"
  have b: "fold_res import_execution_idempotency (entries (Some (xs_ExecutionIdempotency s))) ?a = Inr ?b"
    by (rule import_execution_idempotencies [OF inv(1)]) (simp_all add: Exec_NewState_def)
  have check_b: "fold_res check_execution (sorted_list_of_fmap (xs_Executions s)) ?b = Inr ?b"
    using inv(1) by (intro fold_res_check)
      (auto simp: check_execution_def set_sorted_list_of_fmap inv_executions_def request_idempotency_def)
  have c: "fold_res (import_intent exec_snapshotVersion (xs_CancellationReservedAt s)) (entries (Some (xs_CancellationIntents s))) ?b = Inr ?c"
    by (rule import_intents [OF inv(2)]) (simp_all add: Exec_NewState_def)
  have d: "fold_res import_cancellation_idempotency (entries (Some (xs_CancellationIdempotency s))) ?c =
      Inr (?c\<lparr>xs_CancellationIdempotency := xs_CancellationIdempotency s\<rparr>)"
    by (rule import_cancellation_idempotencies [OF inv(2)]) (simp_all add: Exec_NewState_def)
  have s: "?c\<lparr>xs_CancellationIdempotency := xs_CancellationIdempotency s\<rparr> = s" by (simp add: Exec_NewState_def)
  have check: "fold_res check_intent (sorted_list_of_fmap (xs_CancellationIntents s)) s = Inr s"
    using inv(2) by (intro fold_res_check)
      (auto simp: check_intent_def set_sorted_list_of_fmap inv_cancellations_def intent_idempotency_def)
  show ?thesis
    using import_executions [OF inv(1)] b check_b c d [unfolded s] check
    by (simp add: Exec_Import_def Exec_Export_def)
qed

section \<open>One step or two\<close>

definition attachment_of :: "Request \<Rightarrow> Dispatch \<Rightarrow> ExecutionAttachment" where
  "attachment_of r d = \<lparr>at_OperationID = rq_OperationID r, at_AttemptID = rq_AttemptID r, at_SandboxID = rq_SandboxID r,
     at_FencingToken = rq_FencingToken r, at_ExpectedGeneration = rq_ExpectedGeneration r, at_Dispatch = d\<rparr>"

lemma reference_taken_admitted:
  "reference_taken (rq_OperationID r) ref (admitted_state r t ds s) \<longleftrightarrow> reference_taken (rq_OperationID r) ref s"
proof -
  have "fmlookup (xs_Executions (admitted_state r t ds s)) j = fmlookup (xs_Executions s) j" if "j \<noteq> rq_OperationID r" for j
    using that by (simp add: admitted_state_def)
  then show ?thesis unfolding reference_taken_iff by metis
qed

lemma validateAttachment_of:
  "Request_Validate r t = None \<Longrightarrow> validateAttachment (attachment_of r d) = Dispatch_Validate d"
  by (cases "Dispatch_Validate d") (auto simp: validateAttachment_def attachment_of_def Request_Validate_def)

lemma attach_admitted:
  assumes "Request_Validate r t = None"
  shows "AttachExecution (attachment_of r d) (admitted_state r t [] s) =
    (if Dispatch_Validate d \<noteq> None then Inl (the (Dispatch_Validate d))
     else if di_AcceptedAt d < t \<or> reference_taken (rq_OperationID r) (di_ExecutionReference d) s then Inl [ExecErr ExecConflict]
     else Inr (\<lparr>ev_Execution = new_record r t [d], ev_Replayed = False\<rparr>, admitted_state r t [d] s))"
proof -
  have "fmlookup (xs_Executions (admitted_state r t [] s)) (rq_OperationID r) = Some (new_record r t [])"
    by (simp add: admitted_state_def)
  moreover have "executionAttachmentMatches r (attachment_of r d)"
    by (simp add: executionAttachmentMatches_def attachment_of_def)
  moreover have "(new_record r t [])\<lparr>xr_Dispatch := d, xr_Attached := True\<rparr> = new_record r t [d]"
    by (simp add: new_record_def)
  moreover have "at_OperationID (attachment_of r d) = rq_OperationID r" "at_Dispatch (attachment_of r d) = d"
    by (simp_all add: attachment_of_def)
  moreover have "(admitted_state r t [] s)\<lparr>xs_Executions := fmupd (rq_OperationID r) (new_record r t [d]) (xs_Executions (admitted_state r t [] s))\<rparr>
      = admitted_state r t [d] s"
    by (simp add: admitted_state_def)
  moreover have "xr_Request (new_record r t []) = r" "\<not> xr_Attached (new_record r t [])" "xr_ReservedAt (new_record r t []) = t"
    by (simp_all add: new_record_def)
  ultimately show ?thesis
    using validateAttachment_of [OF assms, of d] reference_taken_admitted [of r "di_ExecutionReference d" t "[]" s]
    by (cases "Dispatch_Validate d") (simp_all add: AttachExecution_def)
qed

text \<open>A fresh reservation, with its conditions.\<close>

definition admissible :: "Request \<Rightarrow> time \<Rightarrow> ExecState \<Rightarrow> bool" where
  "admissible r t s \<longleftrightarrow>
     t \<noteq> 0 \<and> Request_Validate r t = None \<and> fmlookup (xs_ExecutionIdempotency s) (rq_IdempotencyKey r) = None \<and>
     rq_OperationID r |\<notin>| fmdom (xs_Executions s) \<and> rq_OperationID r |\<notin>| fmdom (xs_CancellationIntents s)"

lemma reserve_none_fresh:
  "ReserveExecutionAt r t [] s = Inr (res, s') \<and> \<not> ev_Replayed res \<longleftrightarrow>
     admissible r t s \<and> res = \<lparr>ev_Execution = new_record r t [], ev_Replayed = False\<rparr> \<and> s' = admitted_state r t [] s"
  by (auto simp: ReserveExecutionAt_def admissible_def split: option.splits if_splits)

lemma reserve_one_fresh:
  "ReserveExecutionAt r t [d] s = Inr (res, s') \<and> \<not> ev_Replayed res \<longleftrightarrow>
     admissible r t s \<and> Dispatch_Validate d = None \<and> t \<le> di_AcceptedAt d \<and>
     \<not> reference_taken (rq_OperationID r) (di_ExecutionReference d) s \<and>
     res = \<lparr>ev_Execution = new_record r t [d], ev_Replayed = False\<rparr> \<and> s' = admitted_state r t [d] s"
  by (auto simp: ReserveExecutionAt_def admissible_def not_less split: option.splits if_splits)

section \<open>A sample history\<close>

definition request1 :: Request where
  "request1 =
     \<lparr>rq_SandboxID = ''sbx'', rq_OperationID = ''op1'', rq_AttemptID = ''at1'', rq_FencingToken = 1, rq_ExpectedGeneration = 1,
      rq_IdempotencyKey = ''key1'', rq_RequestDigest = ''sha256:'' @ replicate 64 (CHR ''0''), rq_Deadline = 5000,
      rq_Command = [''ls''], rq_WorkingDirectory = ''/tmp'', rq_ResultRetention = nanos_per_second, rq_Environment = fmempty,
      rq_SecretReferenceIDs = [], rq_SecretGrantID = [], rq_SecretGrantDigest = [], rq_StdinReference = [],
      rq_CaptureStdout = False, rq_CaptureStderr = False, rq_CaptureMaxBytes = 0\<rparr>"

definition dispatch1 :: Dispatch where
  "dispatch1 = \<lparr>di_ExecutionReference = ''ref:x'', di_AcceptedAt = 100\<rparr>"

definition result1 :: ExecResult where
  "result1 =
     \<lparr>re_OperationID = ''op1'', re_AttemptID = ''at1'', re_FencingToken = 1, re_SandboxID = ''sbx'', re_Status = ResultCompleted,
      re_ExitCode = Some 0, re_Signal = [], re_StdoutReference = [], re_StderrReference = [], re_StartedAt = 100,
      re_CompletedAt = 200, re_RetainedUntil = 200 + nanos_per_second, re_Error = None\<rparr>"

lemmas exec_eval = identifierPattern_def identifier_char_def upper_def lower_def digit_def byte_def alphanumeric_def
  validBoundedString_def utf8_runes.simps utf8_length_def Let_def digestPattern_def hex_digit_def prefixed_def
  referencePattern_def workingDirectoryPattern_def command_item_def

lemma request1_valid: "Request_Validate request1 100 = None"
  by (simp add: Request_Validate_def request1_def exec_eval MaxIdempotencyKeyRunes_def MaxCommandItems_def
      MaxCommandItemRunes_def MaxWorkingDirectoryRunes_def MinRetention_def MaxRetention_def nanos_per_second_def
      MaxEnvironmentValues_def MaxSecretReferences_def MaxCaptureBytes_def numeral_eq_Suc fcard_fempty)

lemma dispatch1_valid: "Dispatch_Validate dispatch1 = None"
  by (simp add: Dispatch_Validate_def ExecutionReference_Validate_def dispatch1_def exec_eval)

lemma result1_valid: "Result_Validate result1 = None"
  by (simp add: Result_Validate_def result1_def exec_eval optional_reference_def error_valid_def unknown_explained_def
      nanos_per_second_def)

definition exec_state1 :: ExecState where
  "exec_state1 = admitted_state request1 100 [dispatch1] Exec_NewState"

definition summary1 :: TerminalSummary where
  "summary1 = \<lparr>ts_Status = ResultCompleted, ts_CompletedAt = 200, ts_Error = None\<rparr>"

definition record1 :: ExecutionRecord where
  "record1 = (new_record request1 100 [dispatch1])\<lparr>xr_Result := Some result1, xr_Terminal := Some summary1\<rparr>"

definition exec_state2 :: ExecState where
  "exec_state2 = exec_state1\<lparr>xs_Executions := fmupd ''op1'' record1 (xs_Executions exec_state1)\<rparr>"

lemma exec_admit1:
  "ReserveExecutionAt request1 100 [dispatch1] Exec_NewState =
     Inr (\<lparr>ev_Execution = new_record request1 100 [dispatch1], ev_Replayed = False\<rparr>, exec_state1)"
proof -
  have "\<not> reference_taken i ref Exec_NewState" for i ref by (simp add: reference_taken_iff Exec_NewState_def)
  then have "ReserveExecutionAt request1 100 [dispatch1] Exec_NewState =
      Inr (\<lparr>ev_Execution = new_record request1 100 [dispatch1], ev_Replayed = False\<rparr>, exec_state1) \<and>
      \<not> ev_Replayed \<lparr>ev_Execution = new_record request1 100 [dispatch1], ev_Replayed = False\<rparr>"
    unfolding reserve_one_fresh
    using request1_valid dispatch1_valid by (simp add: admissible_def exec_state1_def Exec_NewState_def dispatch1_def)
  then show ?thesis by simp
qed

lemma exec_store1: "StoreResult result1 exec_state1 = Inr exec_state2"
proof -
  have "fmlookup (xs_Executions exec_state1) ''op1'' = Some (new_record request1 100 [dispatch1])"
    by (simp add: exec_state1_def admitted_state_def request1_def)
  moreover have "NewTerminalSummary result1 = Inr summary1"
    using result1_valid by (simp add: NewTerminalSummary_def summary1_def result1_def)
  ultimately show ?thesis
    using result1_valid
    by (simp add: StoreResult_def exec_state2_def record1_def new_record_def request1_def result1_def)
qed

lemma exec_state2_reachable: "exec_evolves Exec_NewState exec_state2"
  using exec_step.reserve [OF exec_admit1] exec_step.store [OF exec_store1] by (blast intro: exec_evolves.intros)

lemma exec_state2_record: "fmlookup (xs_Executions exec_state2) ''op1'' = Some record1"
  by (simp add: exec_state2_def)

section \<open>Properties\<close>

text \<open>
  C12. The exec repository can always be saved and loaded. Every state that reservations, attachments,
  cancellations, stored results and reads reach from an empty one is well formed: every record is valid and
  filed under its operation, receipts are not shared, each idempotency record mirrors its request, every
  cancellation has its target and its time, and results agree with their summaries. Loading its snapshot gives
  back exactly that state.
\<close>

theorem exec_snapshot_round_trip:
  assumes "exec_evolves Exec_NewState s"
  shows "exec_inv s \<and> Exec_Import (Exec_Export s) = Inr s"
  using exec_evolves_inv [OF assms exec_inv_NewState] Exec_Import_Export by blast

theorem exec_snapshot_round_trip_witness: "Exec_Import (Exec_Export exec_state2) = Inr exec_state2"
  using exec_snapshot_round_trip [OF exec_state2_reachable] by blast

text \<open>
  C11. The truth about an execution is permanent. Whatever happens later, an admitted execution keeps its
  request, its receipt once attached, and its terminal summary once recorded, also after its result has
  expired. An expired result is never readable again, and a result that can be read is within its retention
  and agrees with the summary.
\<close>

theorem terminal_truth_permanent:
  assumes "exec_evolves Exec_NewState s" and "exec_evolves s t" and "fmlookup (xs_Executions s) i = Some r"
  shows "\<exists>r'. fmlookup (xs_Executions t) i = Some r' \<and> xr_Request r' = xr_Request r \<and>
    (xr_Attached r \<longrightarrow> xr_Attached r' \<and> xr_Dispatch r' = xr_Dispatch r) \<and>
    (\<forall>u. xr_Terminal r = Some u \<longrightarrow> xr_Terminal r' = Some u \<and>
       (\<forall>x. fst (ReadResult i now t) = Inr x \<longrightarrow>
          now < re_RetainedUntil x \<and> re_Status x = ts_Status u \<and> re_CompletedAt x = ts_CompletedAt u)) \<and>
    (xr_ResultExpired r \<longrightarrow> fst (ReadResult i now t) = Inl [ExecErr ExecExpired])"
proof -
  have inv: "exec_inv s" "exec_inv t"
    using exec_evolves_inv [OF assms(1) exec_inv_NewState] exec_evolves_inv [OF assms(2)] by simp_all
  obtain r' where r': "fmlookup (xs_Executions t) i = Some r'" "record_follows r r'"
    using exec_evolves_follows [OF assms(2) inv(1)] assms(3) by (auto simp: exec_follows_def)
  have "record_ok r'" using exec_inv_recordD [OF inv(2) r'(1)] by simp
  then have "re_Status x = ts_Status u \<and> re_CompletedAt x = ts_CompletedAt u"
    if "xr_Result r' = Some x" "xr_Terminal r' = Some u" for x u
    using that NewTerminalSummary_valid [of x u] by (auto simp: record_ok_def result_ok_def)
  with r' show ?thesis
    by (auto simp: record_follows_def ReadResult_def split: option.splits if_splits)
qed

theorem terminal_truth_permanent_witness:
  "\<exists>r'. fmlookup (xs_Executions exec_state2) ''op1'' = Some r' \<and> xr_Terminal r' = Some summary1"
  using terminal_truth_permanent [OF exec_state2_reachable exec_evolves.start exec_state2_record, of 300]
  by (auto simp: record1_def)

text \<open>
  Admission and attachment in one call are the two calls in a row. A reservation that carries its receipt
  succeeds with a new execution in exactly the cases in which the reservation without it does and the receipt
  can then be attached, and both ways end in the same record and the same state.
\<close>

theorem reserve_attach_equivalent:
  "(ReserveExecutionAt request t [d] s = Inr (res, s') \<and> \<not> ev_Replayed res) \<longleftrightarrow>
   (\<exists>res\<^sub>1 s\<^sub>1. ReserveExecutionAt request t [] s = Inr (res\<^sub>1, s\<^sub>1) \<and> \<not> ev_Replayed res\<^sub>1 \<and>
      AttachExecution (attachment_of request d) s\<^sub>1 = Inr (res, s'))"
proof (cases "admissible request t s")
  case True
  then have "Request_Validate request t = None" by (simp add: admissible_def)
  note attach = attach_admitted [OF this, of d s]
  have "ReserveExecutionAt request t [] s =
      Inr (\<lparr>ev_Execution = new_record request t [], ev_Replayed = False\<rparr>, admitted_state request t [] s)"
    using reserve_none_fresh [THEN iffD2] True by simp
  with True show ?thesis unfolding reserve_one_fresh by (auto simp: attach not_less)
next
  case False
  then show ?thesis unfolding reserve_one_fresh using reserve_none_fresh [of request t s] by simp
qed

end
