(* ===== verification/Exec_Repository.thy ===== *)
theory Exec_Repository
  imports Exec_Invariant Go_File
begin

text \<open>
  The exec repository as its callers see it: the port of \<^verbatim>\<open>src/provider/exec/repository/repository.go\<close>, the
  in-memory repository (\<^verbatim>\<open>memory/repository.go\<close>), the file repository (\<^verbatim>\<open>file/repository.go\<close>), and the
  contract that a client relies on as the locale \<open>exec_repository\<close>, which both keep. Methods that take the time
  from the system clock have it as an argument.
\<close>

section \<open>The port\<close>

record 'r ExecPort =
  xo_ReserveExecutionAt :: "ctx option \<Rightarrow> Request \<Rightarrow> time \<Rightarrow> Dispatch list \<Rightarrow> 'r \<Rightarrow> (error + ExecutionReservation) \<times> 'r"
  xo_AttachExecution :: "ctx option \<Rightarrow> ExecutionAttachment \<Rightarrow> 'r \<Rightarrow> (error + ExecutionReservation) \<times> 'r"
  xo_GetExecution :: "ctx option \<Rightarrow> string \<Rightarrow> 'r \<Rightarrow> error + ExecutionRecord"
  xo_ListExecutions :: "ctx option \<Rightarrow> 'r \<Rightarrow> error + ExecutionRecord list"
  xo_ReserveCancellationAt :: "ctx option \<Rightarrow> CancellationIntent \<Rightarrow> time \<Rightarrow> 'r \<Rightarrow> (error + CancellationReservation) \<times> 'r"
  xo_GetCancellation :: "ctx option \<Rightarrow> string \<Rightarrow> 'r \<Rightarrow> error + CancellationIntent"
  xo_GetCancellationReservation :: "ctx option \<Rightarrow> string \<Rightarrow> 'r \<Rightarrow> error + CancellationReservation"
  xo_StoreResult :: "ctx option \<Rightarrow> ExecResult \<Rightarrow> 'r \<Rightarrow> (error + unit) \<times> 'r"
  xo_GetResult :: "ctx option \<Rightarrow> string \<Rightarrow> time \<Rightarrow> 'r \<Rightarrow> (error + ExecResult) \<times> 'r"

section \<open>The in-memory repository\<close>

record ExecMemory =
  xm_State :: ExecState
  xm_Closed :: bool

definition ExecMemory_NewRepository :: ExecMemory where
  "ExecMemory_NewRepository = \<lparr>xm_State = Exec_NewState, xm_Closed = False\<rparr>"

definition exec_checkOpen :: "ExecMemory \<Rightarrow> ctx option \<Rightarrow> nat \<Rightarrow> error option" where
  "exec_checkOpen r c n = first_err [fail_if (xm_Closed r) [ExecErr ExecClosed], contextError c n]"

definition xm_write ::
    "ctx option \<Rightarrow> (ExecState \<Rightarrow> error + 'a \<times> ExecState) \<Rightarrow> ExecMemory \<Rightarrow> (error + 'a) \<times> ExecMemory" where
  "xm_write c f r =
     (case first_err [contextError c 0, exec_checkOpen r c 1] of
        Some e \<Rightarrow> (Inl e, r)
      | None \<Rightarrow> (case f (xm_State r) of Inl e \<Rightarrow> (Inl e, r) | Inr (x, s) \<Rightarrow> (Inr x, r\<lparr>xm_State := s\<rparr>)))"

definition xm_read :: "ctx option \<Rightarrow> (ExecState \<Rightarrow> error + 'a) \<Rightarrow> ExecMemory \<Rightarrow> error + 'a" where
  "xm_read c f r =
     unless_err (first_err [contextError c 0, fail_if (xm_Closed r) [ExecErr ExecClosed]]) (f (xm_State r))"

definition ExecMemory_ReserveExecutionAt ::
    "ctx option \<Rightarrow> Request \<Rightarrow> time \<Rightarrow> Dispatch list \<Rightarrow> ExecMemory \<Rightarrow> (error + ExecutionReservation) \<times> ExecMemory" where
  "ExecMemory_ReserveExecutionAt c request acceptedAt dispatch = xm_write c (ReserveExecutionAt request acceptedAt dispatch)"

definition ExecMemory_ReserveExecution ::
    "time \<Rightarrow> ctx option \<Rightarrow> Request \<Rightarrow> Dispatch list \<Rightarrow> ExecMemory \<Rightarrow> (error + ExecutionReservation) \<times> ExecMemory" where
  "ExecMemory_ReserveExecution now c request dispatch =
     ExecMemory_ReserveExecutionAt c request (case dispatch of [d] \<Rightarrow> di_AcceptedAt d | _ \<Rightarrow> now) dispatch"

definition ExecMemory_AttachExecution ::
    "ctx option \<Rightarrow> ExecutionAttachment \<Rightarrow> ExecMemory \<Rightarrow> (error + ExecutionReservation) \<times> ExecMemory" where
  "ExecMemory_AttachExecution c a = xm_write c (AttachExecution a)"

definition ExecMemory_GetExecution :: "ctx option \<Rightarrow> string \<Rightarrow> ExecMemory \<Rightarrow> error + ExecutionRecord" where
  "ExecMemory_GetExecution c i = xm_read c (GetExecution i)"

definition ExecMemory_ListExecutions :: "ctx option \<Rightarrow> ExecMemory \<Rightarrow> error + ExecutionRecord list" where
  "ExecMemory_ListExecutions c = xm_read c (\<lambda>s. Inr (ListExecutions s))"

definition ExecMemory_ReserveCancellationAt ::
    "ctx option \<Rightarrow> CancellationIntent \<Rightarrow> time \<Rightarrow> ExecMemory \<Rightarrow> (error + CancellationReservation) \<times> ExecMemory" where
  "ExecMemory_ReserveCancellationAt c i acceptedAt = xm_write c (ReserveCancellation i acceptedAt)"

definition ExecMemory_ReserveCancellation ::
    "time \<Rightarrow> ctx option \<Rightarrow> CancellationIntent \<Rightarrow> ExecMemory \<Rightarrow> (error + CancellationReservation) \<times> ExecMemory" where
  "ExecMemory_ReserveCancellation now c i = ExecMemory_ReserveCancellationAt c i now"

definition ExecMemory_GetCancellation :: "ctx option \<Rightarrow> string \<Rightarrow> ExecMemory \<Rightarrow> error + CancellationIntent" where
  "ExecMemory_GetCancellation c i = xm_read c (GetCancellation i)"

definition ExecMemory_GetCancellationReservation :: "ctx option \<Rightarrow> string \<Rightarrow> ExecMemory \<Rightarrow> error + CancellationReservation" where
  "ExecMemory_GetCancellationReservation c i = xm_read c (GetCancellationReservation i)"

definition ExecMemory_StoreResult :: "ctx option \<Rightarrow> ExecResult \<Rightarrow> ExecMemory \<Rightarrow> (error + unit) \<times> ExecMemory" where
  "ExecMemory_StoreResult c x = xm_write c (\<lambda>s. on_ok (StoreResult x s) (\<lambda>s'. Inr ((), s')))"

text \<open>A read that finds the result past its retention fails, and has removed it.\<close>

definition ExecMemory_GetResult :: "ctx option \<Rightarrow> string \<Rightarrow> time \<Rightarrow> ExecMemory \<Rightarrow> (error + ExecResult) \<times> ExecMemory" where
  "ExecMemory_GetResult c i now r =
     (case first_err [contextError c 0, fail_if (xm_Closed r) [ExecErr ExecClosed]] of
        Some e \<Rightarrow> (Inl e, r)
      | None \<Rightarrow> (case ReadResult i now (xm_State r) of (res, _, s) \<Rightarrow> (res, r\<lparr>xm_State := s\<rparr>)))"

definition ExecMemory_Close :: "ExecMemory \<Rightarrow> ExecMemory" where
  "ExecMemory_Close r = r\<lparr>xm_Closed := True\<rparr>"

definition exec_memory_port :: "ExecMemory ExecPort" where
  "exec_memory_port =
     \<lparr>xo_ReserveExecutionAt = ExecMemory_ReserveExecutionAt, xo_AttachExecution = ExecMemory_AttachExecution,
      xo_GetExecution = ExecMemory_GetExecution, xo_ListExecutions = ExecMemory_ListExecutions,
      xo_ReserveCancellationAt = ExecMemory_ReserveCancellationAt, xo_GetCancellation = ExecMemory_GetCancellation,
      xo_GetCancellationReservation = ExecMemory_GetCancellationReservation, xo_StoreResult = ExecMemory_StoreResult,
      xo_GetResult = ExecMemory_GetResult\<rparr>"

section \<open>The file repository\<close>

definition exec_maxFileSize :: int where "exec_maxFileSize = 2 ^ 24"

definition exec_format :: "(ExecState, ExecPersisted) FileFormat" where
  "exec_format =
     \<lparr>ff_NewState = Exec_NewState, ff_Export = Exec_Export, ff_Import = Exec_Import, ff_MaxFileSize = exec_maxFileSize,
      ff_MakesDirectory = False, ff_ErrClosed = [ExecErr ExecClosed], ff_ErrDurability = [ExecErr ExecDurability],
      ff_ErrCorrupt = [ExecErr ExecCorrupt], ff_ErrStat = [ErrOther], ff_ImportError = (\<lambda>_. [ExecErr ExecCorrupt])\<rparr>"

type_synonym ExecFile = "(ExecState, ExecPersisted) FileStore"

definition exec_persist :: "ctx option \<Rightarrow> ExecFile \<Rightarrow> (bool \<times> error option) \<times> ExecFile" where
  "exec_persist c = store_persist exec_format c 2"

definition exec_mutate :: "ctx option \<Rightarrow> (ExecState \<Rightarrow> error + 'a \<times> ExecState) \<Rightarrow> ExecFile \<Rightarrow> (error + 'a) \<times> ExecFile" where
  "exec_mutate c = store_mutate exec_format c 0"

definition exec_file_read :: "ctx option \<Rightarrow> (ExecState \<Rightarrow> error + 'a) \<Rightarrow> ExecFile \<Rightarrow> error + 'a" where
  "exec_file_read c = store_read exec_format c 0"

definition exec_load :: "LoadEnv \<Rightarrow> ExecFile \<Rightarrow> error + ExecFile" where
  "exec_load = store_load exec_format"

definition ExecFile_NewRepository ::
    "string \<Rightarrow> LoadEnv \<Rightarrow> ExecPersisted DiskFile option \<Rightarrow> (nat \<Rightarrow> ExecPersisted PersistEnv) \<Rightarrow> bool \<Rightarrow> error + ExecFile" where
  "ExecFile_NewRepository = store_open exec_format"

definition ExecFile_ReserveExecutionAt ::
    "ctx option \<Rightarrow> Request \<Rightarrow> time \<Rightarrow> Dispatch list \<Rightarrow> ExecFile \<Rightarrow> (error + ExecutionReservation) \<times> ExecFile" where
  "ExecFile_ReserveExecutionAt c request acceptedAt dispatch = exec_mutate c (ReserveExecutionAt request acceptedAt dispatch)"

definition ExecFile_ReserveExecution ::
    "time \<Rightarrow> ctx option \<Rightarrow> Request \<Rightarrow> Dispatch list \<Rightarrow> ExecFile \<Rightarrow> (error + ExecutionReservation) \<times> ExecFile" where
  "ExecFile_ReserveExecution now c request dispatch =
     ExecFile_ReserveExecutionAt c request (case dispatch of [d] \<Rightarrow> di_AcceptedAt d | _ \<Rightarrow> now) dispatch"

definition ExecFile_AttachExecution ::
    "ctx option \<Rightarrow> ExecutionAttachment \<Rightarrow> ExecFile \<Rightarrow> (error + ExecutionReservation) \<times> ExecFile" where
  "ExecFile_AttachExecution c a = exec_mutate c (AttachExecution a)"

definition ExecFile_GetExecution :: "ctx option \<Rightarrow> string \<Rightarrow> ExecFile \<Rightarrow> error + ExecutionRecord" where
  "ExecFile_GetExecution c i = exec_file_read c (GetExecution i)"

definition ExecFile_ListExecutions :: "ctx option \<Rightarrow> ExecFile \<Rightarrow> error + ExecutionRecord list" where
  "ExecFile_ListExecutions c = exec_file_read c (\<lambda>s. Inr (ListExecutions s))"

definition ExecFile_ReserveCancellationAt ::
    "ctx option \<Rightarrow> CancellationIntent \<Rightarrow> time \<Rightarrow> ExecFile \<Rightarrow> (error + CancellationReservation) \<times> ExecFile" where
  "ExecFile_ReserveCancellationAt c i acceptedAt = exec_mutate c (ReserveCancellation i acceptedAt)"

definition ExecFile_ReserveCancellation ::
    "time \<Rightarrow> ctx option \<Rightarrow> CancellationIntent \<Rightarrow> ExecFile \<Rightarrow> (error + CancellationReservation) \<times> ExecFile" where
  "ExecFile_ReserveCancellation now c i = ExecFile_ReserveCancellationAt c i now"

definition ExecFile_GetCancellation :: "ctx option \<Rightarrow> string \<Rightarrow> ExecFile \<Rightarrow> error + CancellationIntent" where
  "ExecFile_GetCancellation c i = exec_file_read c (GetCancellation i)"

definition ExecFile_GetCancellationReservation :: "ctx option \<Rightarrow> string \<Rightarrow> ExecFile \<Rightarrow> error + CancellationReservation" where
  "ExecFile_GetCancellationReservation c i = exec_file_read c (GetCancellationReservation i)"

definition ExecFile_StoreResult :: "ctx option \<Rightarrow> ExecResult \<Rightarrow> ExecFile \<Rightarrow> (error + unit) \<times> ExecFile" where
  "ExecFile_StoreResult c x = exec_mutate c (\<lambda>s. on_ok (StoreResult x s) (\<lambda>s'. Inr ((), s')))"

text \<open>The expiry of a result is written to the file before it is reported; when that fails it is undone.\<close>

definition ExecFile_GetResult :: "ctx option \<Rightarrow> string \<Rightarrow> time \<Rightarrow> ExecFile \<Rightarrow> (error + ExecResult) \<times> ExecFile" where
  "ExecFile_GetResult c i now r =
     (case first_err [contextError c 0, fail_if (file_Closed r) [ExecErr ExecClosed]] of
        Some e \<Rightarrow> (Inl e, r)
      | None \<Rightarrow>
          (case ReadResult i now (file_State r) of
             (res, changed, s) \<Rightarrow>
               if \<not> changed then (res, r)
               else (case store_commit exec_format c 1 s r of
                       (None, r') \<Rightarrow> (res, r')
                     | (Some e, r') \<Rightarrow> (Inl e, r'))))"

definition ExecFile_Close :: "ExecFile \<Rightarrow> error option \<times> ExecFile" where
  "ExecFile_Close = store_close"

definition exec_file_port :: "ExecFile ExecPort" where
  "exec_file_port =
     \<lparr>xo_ReserveExecutionAt = ExecFile_ReserveExecutionAt, xo_AttachExecution = ExecFile_AttachExecution,
      xo_GetExecution = ExecFile_GetExecution, xo_ListExecutions = ExecFile_ListExecutions,
      xo_ReserveCancellationAt = ExecFile_ReserveCancellationAt, xo_GetCancellation = ExecFile_GetCancellation,
      xo_GetCancellationReservation = ExecFile_GetCancellationReservation, xo_StoreResult = ExecFile_StoreResult,
      xo_GetResult = ExecFile_GetResult\<rparr>"

section \<open>The contract\<close>

text \<open>
  A repository is sound when its state is well formed and it holds what it needs to come back. On a sound
  repository a write that succeeds does what the state operation does; one that fails did nothing, or did it and
  only failed to confirm it. A read that succeeds reads the state. Reopening gives back the state.
\<close>

definition exec_writes ::
    "('r \<Rightarrow> bool) \<Rightarrow> ('r \<Rightarrow> ExecState) \<Rightarrow> (ExecState \<Rightarrow> error + 'a \<times> ExecState) \<Rightarrow> ('r \<Rightarrow> (error + 'a) \<times> 'r) \<Rightarrow> bool" where
  "exec_writes sound view f write \<longleftrightarrow>
     (\<forall>r. sound r \<longrightarrow> sound (snd (write r)) \<and>
        (case write r of
           (Inr x, r') \<Rightarrow> f (view r) = Inr (x, view r')
         | (Inl e, r') \<Rightarrow> view r' = view r \<or> (\<exists>x. f (view r) = Inr (x, view r'))))"

definition exec_reads :: "('r \<Rightarrow> ExecState) \<Rightarrow> (ExecState \<Rightarrow> error + 'a) \<Rightarrow> ('r \<Rightarrow> error + 'a) \<Rightarrow> bool" where
  "exec_reads view f read \<longleftrightarrow> (\<forall>r x. read r = Inr x \<longrightarrow> f (view r) = Inr x)"

lemma exec_writes_ok:
  "exec_writes sound view f write \<Longrightarrow> sound r \<Longrightarrow> write r = (Inr x, r') \<Longrightarrow> f (view r) = Inr (x, view r')"
  unfolding exec_writes_def by (drule spec [of _ r]) simp

lemma exec_writes_any:
  "exec_writes sound view f write \<Longrightarrow> sound r \<Longrightarrow> write r = (x, r') \<Longrightarrow>
     sound r' \<and> (view r' = view r \<or> (\<exists>y. f (view r) = Inr (y, view r')))"
  unfolding exec_writes_def by (drule spec [of _ r], cases x) auto

locale exec_repository =
  fixes port :: "'r ExecPort"
    and view :: "'r \<Rightarrow> ExecState"
    and sound :: "'r \<Rightarrow> bool"
    and reopens :: "'r \<Rightarrow> 'r \<Rightarrow> bool"
  assumes sound_inv: "sound r \<Longrightarrow> exec_inv (view r)"
    and Reserve_law: "exec_writes sound view (ReserveExecutionAt q t ds) (xo_ReserveExecutionAt port c q t ds)"
    and Attach_law: "exec_writes sound view (AttachExecution a) (xo_AttachExecution port c a)"
    and Cancel_law: "0 < t \<Longrightarrow> exec_writes sound view (ReserveCancellation i t) (xo_ReserveCancellationAt port c i t)"
    and Store_law: "exec_writes sound view (\<lambda>s. on_ok (StoreResult x s) (\<lambda>s'. Inr ((), s'))) (xo_StoreResult port c x)"
    and GetResult_law: "sound r \<Longrightarrow> xo_GetResult port c j t r = (res, r') \<Longrightarrow>
      sound r' \<and> (view r' = view r \<or> (\<exists>res' changed. ReadResult j t (view r) = (res', changed, view r')))"
    and GetExecution_law: "exec_reads view (GetExecution j) (xo_GetExecution port c j)"
    and ListExecutions_law: "exec_reads view (\<lambda>s. Inr (ListExecutions s)) (xo_ListExecutions port c)"
    and reopen_law: "sound r \<Longrightarrow> reopens r r' \<Longrightarrow> sound r' \<and> view r' = view r"

section \<open>The repositories keep the contract\<close>

lemma exec_read_through: "exec_reads xm_State f (xm_read c f)" "exec_reads file_State f (exec_file_read c f)"
  by (simp_all add: exec_reads_def xm_read_def exec_file_read_def store_read_def)

lemma StoreResult_unit_inv: "on_ok (StoreResult x s) (\<lambda>s'. Inr ((), s')) = Inr (u, t) \<Longrightarrow> exec_inv s \<Longrightarrow> exec_inv t"
  by (auto intro: StoreResult_inv)

lemma xm_write_through:
  assumes "\<And>x t s. f s = Inr (x, t) \<Longrightarrow> exec_inv s \<Longrightarrow> exec_inv t"
  shows "exec_writes (\<lambda>r. exec_inv (xm_State r)) xm_State f (xm_write c f)"
  using assms by (auto simp: exec_writes_def xm_write_def split: option.splits sum.splits)

text \<open>What memory holds is lost with its process: it is never reopened.\<close>

interpretation exec_memory: exec_repository exec_memory_port xm_State "\<lambda>r. exec_inv (xm_State r)" "\<lambda>_ _. False"
proof
  fix c j t r res r'
  assume "exec_inv (xm_State r)" "xo_GetResult exec_memory_port c j t r = (res, r')"
  then show "exec_inv (xm_State r') \<and>
      (xm_State r' = xm_State r \<or> (\<exists>res' changed. ReadResult j t (xm_State r) = (res', changed, xm_State r')))"
    by (auto simp: exec_memory_port_def ExecMemory_GetResult_def split: option.splits prod.splits intro: ReadResult_inv)
qed (simp_all add: exec_memory_port_def ExecMemory_ReserveExecutionAt_def ExecMemory_AttachExecution_def
    ExecMemory_ReserveCancellationAt_def ExecMemory_StoreResult_def ExecMemory_GetExecution_def ExecMemory_ListExecutions_def
    exec_read_through xm_write_through [OF ReserveExecutionAt_inv] xm_write_through [OF AttachExecution_inv]
    xm_write_through [OF ReserveCancellation_inv], rule xm_write_through, erule (1) StoreResult_unit_inv)

lemma exec_format_simps [simp]:
  "ff_NewState exec_format = Exec_NewState" "ff_Export exec_format = Exec_Export" "ff_Import exec_format = Exec_Import"
  "ff_MaxFileSize exec_format = exec_maxFileSize" "\<not> ff_MakesDirectory exec_format"
  "ff_ErrClosed exec_format = [ExecErr ExecClosed]" "ff_ErrDurability exec_format = [ExecErr ExecDurability]"
  "ff_ErrCorrupt exec_format = [ExecErr ExecCorrupt]"
  by (simp_all add: exec_format_def)

interpretation exec_store: file_format exec_format exec_inv
  by unfold_locales (simp_all add: exec_inv_NewState Exec_Import_Export)

abbreviation exec_durable :: "ExecFile \<Rightarrow> bool" where
  "exec_durable \<equiv> store_durable exec_format exec_inv"

definition exec_reopens :: "ExecFile \<Rightarrow> ExecFile \<Rightarrow> bool" where
  "exec_reopens r r' \<longleftrightarrow> (\<exists>path env writes release. ExecFile_NewRepository path env (file_Disk r) writes release = Inr r')"

lemma exec_mutate_through:
  assumes "\<And>x t s. f s = Inr (x, t) \<Longrightarrow> exec_inv s \<Longrightarrow> exec_inv t"
  shows "exec_writes exec_durable file_State f (exec_mutate c f)"
  unfolding exec_writes_def exec_mutate_def
proof (intro allI impI)
  fix r :: ExecFile
  assume d: "exec_durable r"
  then have i: "exec_inv (file_State r)" by (simp add: store_durable_def)
  obtain res r' where m: "store_mutate exec_format c 0 f r = (res, r')" by force
  have "exec_durable r'" using exec_store.mutate_durable [OF m d] assms i by blast
  moreover from m i have "case (res, r') of (Inr x, r') \<Rightarrow> f (file_State r) = Inr (x, file_State r')
      | (Inl e, r') \<Rightarrow> file_State r' = file_State r \<or> (\<exists>x. f (file_State r) = Inr (x, file_State r'))"
    by (cases rule: exec_store.mutate_cases) auto
  ultimately show "exec_durable (snd (store_mutate exec_format c 0 f r)) \<and>
      (case store_mutate exec_format c 0 f r of (Inr x, r') \<Rightarrow> f (file_State r) = Inr (x, file_State r')
       | (Inl e, r') \<Rightarrow> file_State r' = file_State r \<or> (\<exists>x. f (file_State r) = Inr (x, file_State r')))"
    by (simp add: m)
qed

lemma ExecFile_GetResult_through:
  assumes "ExecFile_GetResult c j t r = (res, r')" and "exec_durable r"
  shows "exec_durable r' \<and>
    (file_State r' = file_State r \<or> (\<exists>res' changed. ReadResult j t (file_State r) = (res', changed, file_State r')))"
proof -
  have i: "exec_inv (file_State r)" using assms(2) by (simp add: store_durable_def)
  obtain x changed s where x: "ReadResult j t (file_State r) = (x, changed, s)" by (metis surj_pair)
  obtain err q where q: "store_commit exec_format c 1 s r = (err, q)" by force
  have "r' = r \<or> r' = q"
    using assms(1) x q by (auto simp: ExecFile_GetResult_def split: option.splits if_splits)
  moreover have "exec_durable q" using exec_store.commit_durable [OF q assms(2)] ReadResult_inv [OF x i] by simp
  moreover have "file_State q = file_State r \<or> file_State q = s"
    using q i by (cases rule: exec_store.commit_cases) auto
  ultimately show ?thesis using assms(2) x by auto
qed

interpretation exec_file: exec_repository exec_file_port file_State exec_durable exec_reopens
proof
  fix r r'
  assume "exec_durable r" "exec_reopens r r'"
  then show "exec_durable r' \<and> file_State r' = file_State r"
    unfolding exec_reopens_def ExecFile_NewRepository_def using exec_store.open_durable by blast
next
  fix c j t r res r'
  assume "exec_durable r" "xo_GetResult exec_file_port c j t r = (res, r')"
  then show "exec_durable r' \<and>
      (file_State r' = file_State r \<or> (\<exists>res' changed. ReadResult j t (file_State r) = (res', changed, file_State r')))"
    by (intro ExecFile_GetResult_through) (simp_all add: exec_file_port_def)
qed (simp_all add: store_durable_def exec_file_port_def ExecFile_ReserveExecutionAt_def ExecFile_AttachExecution_def
    ExecFile_ReserveCancellationAt_def ExecFile_StoreResult_def ExecFile_GetExecution_def ExecFile_ListExecutions_def
    exec_read_through exec_mutate_through [OF ReserveExecutionAt_inv] exec_mutate_through [OF AttachExecution_inv]
    exec_mutate_through [OF ReserveCancellation_inv], rule exec_mutate_through, erule (1) StoreResult_unit_inv)

end
