(* ===== verification/Exec_Coordinator.thy ===== *)
theory Exec_Coordinator
  imports Exec_Repository
begin

text \<open>
  The exec coordinator (\<^verbatim>\<open>src/provider/exec/coordinator/coordinator.go\<close>): it reserves an execution before it
  calls the executor, attaches the receipt, reconciles by observation, and cancels.

  The executor, the observer, the canceler, the cleaner and the result observer are interfaces
  (\<^verbatim>\<open>src/provider/exec/port.go\<close>); what they answer is a parameter, a function of the moment of the call, and the
  calls made on them are a trace, latest first. Calls are in the style of \<open>Go_World\<close>: the driver's part of the
  world is the trace.
\<close>

section \<open>Runtime\<close>

datatype runtime_call =
    StartCall Invocation
  | ObserveCall Request
  | CancelCall ExecutionAttachment
  | CleanupCall Request
  | ResultCall ExecResult

record ExecRuntime =
  ru_Executor :: "nat \<Rightarrow> Invocation \<Rightarrow> error + string"
  ru_Observer :: "(nat \<Rightarrow> Request \<Rightarrow> error + Observation) option"
  ru_Canceler :: "(nat \<Rightarrow> ExecutionAttachment \<Rightarrow> error option) option"
  ru_Cleaner :: "(nat \<Rightarrow> Request \<Rightarrow> error option) option"
  ru_ResultSink :: "(nat \<Rightarrow> ExecResult \<Rightarrow> error option) option"

record 'r ExecCoordinator =
  xc_Repository :: "'r ExecPort"
  xc_Runtime :: ExecRuntime
  xc_Env :: "'r Env"

type_synonym 'r exec_world = "('r, runtime_call list) World"
type_synonym ('r, 'a) exec_call = "'r exec_world \<Rightarrow> 'a returns \<times> 'r exec_world"

definition exec_newWithRuntime :: "bool \<Rightarrow> 'r ExecCoordinator \<Rightarrow> error + 'r ExecCoordinator" where
  "exec_newWithRuntime complete co = (if \<not> complete then Inl [ExecErr ExecInvalidCoordinator] else Inr co)"

text \<open>A call on the runtime, and a call whose results the caller goes on with.\<close>

definition runtime :: "runtime_call \<Rightarrow> (nat \<Rightarrow> 'a) \<Rightarrow> ('a \<Rightarrow> ('r, 'b) exec_call) \<Rightarrow> ('r, 'b) exec_call" where
  "runtime made answer k w = k (answer (w_Tick w)) (w\<lparr>w_Driver := made # w_Driver w, w_Tick := Suc (w_Tick w)\<rparr>)"

definition after_call :: "('r, 'a) exec_call \<Rightarrow> ('a option \<Rightarrow> error option \<Rightarrow> ('r, 'b) exec_call) \<Rightarrow> ('r, 'b) exec_call" where
  "after_call call k w = (case call w of ((x, e), w') \<Rightarrow> k x e w')"

text \<open>
  \<^verbatim>\<open>context.WithDeadline\<close>: done with its parent, when its deadline has passed, or once its timer has fired. It
  reads the system clock.
\<close>

definition with_deadline ::
    "'r ExecCoordinator \<Rightarrow> ctx option \<Rightarrow> time \<Rightarrow> (ctx option \<Rightarrow> ('r, 'b) exec_call) \<Rightarrow> ('r, 'b) exec_call" where
  "with_deadline co c deadline k w =
     (let n = w_Tick w; left = deadline - en_Clock (xc_Env co) n
      in k (map_option (\<lambda>parent. with_timeout (en_Timer (xc_Env co) n) parent n left) c) (w\<lparr>w_Tick := Suc n\<rparr>))"

definition cancellationPersistenceTimeout :: int where
  "cancellationPersistenceTimeout = 5 * nanos_per_second"

definition write_context :: "'r ExecCoordinator \<Rightarrow> (ctx option \<Rightarrow> ('r, 'b) exec_call) \<Rightarrow> ('r, 'b) exec_call" where
  "write_context co k w =
     k (Some (with_timeout (en_Timer (xc_Env co) (w_Tick w)) (\<lambda>_. None) (w_Tick w) cancellationPersistenceTimeout)) w"

section \<open>Starting\<close>

definition exec_attach :: "'r ExecCoordinator \<Rightarrow> ctx option \<Rightarrow> Request \<Rightarrow> Dispatch \<Rightarrow> (error + ExecutionReservation \<Rightarrow> ('r, 'b) exec_call) \<Rightarrow> ('r, 'b) exec_call" where
  "exec_attach co c request dispatch =
     repo_write (xc_Env co) c (\<lambda>c. xo_AttachExecution (xc_Repository co) c (attachment_of request dispatch))"

definition exec_dispatch :: "'r ExecCoordinator \<Rightarrow> ctx option \<Rightarrow> Request \<Rightarrow> time \<Rightarrow> ExecutionReservation \<Rightarrow> ('r, ExecutionReservation) exec_call" where
  "exec_dispatch co c request now reservation =
     with_deadline co c (rq_Deadline request) (\<lambda>operationContext.
       poll operationContext (\<lambda>err. case err of Some e \<Rightarrow> return_both reservation e | None \<Rightarrow>
         runtime (StartCall \<lparr>iv_Request = request, iv_StartedAt = now\<rparr>)
           (\<lambda>n. ru_Executor (xc_Runtime co) n \<lparr>iv_Request = request, iv_StartedAt = now\<rparr>) (\<lambda>answer.
           case answer of
             Inl e \<Rightarrow> return_both reservation
               (if errors_is e ContextCanceled \<or> errors_is e ContextDeadlineExceeded then [ExecErr ExecDispatchUnknown] else e)
           | Inr reference \<Rightarrow>
               exec_attach co c request \<lparr>di_ExecutionReference = reference, di_AcceptedAt = now\<rparr> (\<lambda>res.
                 case res of
                   Inl e \<Rightarrow> return_both reservation (ExecErr ExecDispatchUnknown # e)
                 | Inr attached \<Rightarrow> return attached))))"

definition exec_Start :: "'r ExecCoordinator \<Rightarrow> ctx option \<Rightarrow> Request \<Rightarrow> ('r, ExecutionReservation) exec_call" where
  "exec_Start co c request =
     poll c (\<lambda>err. case err of Some e \<Rightarrow> return_err e | None \<Rightarrow>
       clock_now (xc_Env co) (\<lambda>now.
         case Request_Validate request now of Some e \<Rightarrow> return_err e | None \<Rightarrow>
           repo_write (xc_Env co) c (\<lambda>c. xo_ReserveExecutionAt (xc_Repository co) c request now []) (\<lambda>res.
             case res of
               Inl e \<Rightarrow> return_err e
             | Inr reservation \<Rightarrow>
                 if ev_Replayed reservation then return reservation else exec_dispatch co c request now reservation)))"

section \<open>Reading\<close>

definition exec_GetExecution :: "'r ExecCoordinator \<Rightarrow> ctx option \<Rightarrow> string \<Rightarrow> ('r, ExecutionRecord) exec_call" where
  "exec_GetExecution co c i =
     poll c (\<lambda>err. case err of Some e \<Rightarrow> return_err e | None \<Rightarrow>
       read_or_return (xc_Env co) c (\<lambda>c. xo_GetExecution (xc_Repository co) c i) return)"

definition exec_GetCancellation :: "'r ExecCoordinator \<Rightarrow> ctx option \<Rightarrow> string \<Rightarrow> ('r, CancellationIntent) exec_call" where
  "exec_GetCancellation co c i =
     poll c (\<lambda>err. case err of Some e \<Rightarrow> return_err e | None \<Rightarrow>
       read_or_return (xc_Env co) c (\<lambda>c. xo_GetCancellation (xc_Repository co) c i) return)"

definition exec_GetCancellationReservation :: "'r ExecCoordinator \<Rightarrow> ctx option \<Rightarrow> string \<Rightarrow> ('r, CancellationReservation) exec_call" where
  "exec_GetCancellationReservation co c i =
     poll c (\<lambda>err. case err of Some e \<Rightarrow> return_err e | None \<Rightarrow>
       read_or_return (xc_Env co) c (\<lambda>c. xo_GetCancellationReservation (xc_Repository co) c i) return)"

definition observeResult :: "'r ExecCoordinator \<Rightarrow> ExecResult \<Rightarrow> (error option \<Rightarrow> ('r, 'b) exec_call) \<Rightarrow> ('r, 'b) exec_call" where
  "observeResult co result k =
     (case ru_ResultSink (xc_Runtime co) of
        None \<Rightarrow> k None
      | Some sink \<Rightarrow> runtime (ResultCall result) (\<lambda>n. sink n result) k)"

definition cleanup :: "'r ExecCoordinator \<Rightarrow> Request \<Rightarrow> (error option \<Rightarrow> ('r, 'b) exec_call) \<Rightarrow> ('r, 'b) exec_call" where
  "cleanup co request k =
     (case ru_Cleaner (xc_Runtime co) of
        None \<Rightarrow> k None
      | Some clean \<Rightarrow> runtime (CleanupCall request) (\<lambda>n. clean n request) k)"

definition past_retention :: "ExecutionRecord \<Rightarrow> time \<Rightarrow> bool" where
  "past_retention r now \<longleftrightarrow>
     (case xr_Result r of None \<Rightarrow> False | Some x \<Rightarrow> \<not> now < re_RetainedUntil x)"

definition exec_GetResult :: "'r ExecCoordinator \<Rightarrow> ctx option \<Rightarrow> string \<Rightarrow> time \<Rightarrow> ('r, ExecResult) exec_call" where
  "exec_GetResult co c i now =
     poll c (\<lambda>err. case err of Some e \<Rightarrow> return_err e | None \<Rightarrow>
       read_or_return (xc_Env co) c (\<lambda>c. xo_GetExecution (xc_Repository co) c i) (\<lambda>r.
         (if xr_ResultExpired r \<or> past_retention r now then cleanup co (xr_Request r) else (\<lambda>k. k None)) (\<lambda>err.
           case err of Some e \<Rightarrow> return_err e | None \<Rightarrow>
             write_or_return (xc_Env co) c (\<lambda>c. xo_GetResult (xc_Repository co) c i now) (\<lambda>result.
               observeResult co result (\<lambda>err. case err of Some e \<Rightarrow> return_err e | None \<Rightarrow> return result)))))"

section \<open>Outcomes\<close>

definition observe_and_return :: "'r ExecCoordinator \<Rightarrow> ExecResult \<Rightarrow> ('r, ExecResult) exec_call" where
  "observe_and_return co result =
     observeResult co result (\<lambda>err. case err of Some e \<Rightarrow> return_both result e | None \<Rightarrow> return result)"

definition StoreOutcome ::
    "'r ExecCoordinator \<Rightarrow> ctx option \<Rightarrow> string \<Rightarrow> time \<Rightarrow> time \<Rightarrow> ResultOutcome \<Rightarrow> ('r, ExecResult) exec_call" where
  "StoreOutcome co c i startedAt completedAt outcome =
     poll c (\<lambda>err. case err of Some e \<Rightarrow> return_err e | None \<Rightarrow>
       read_or_return (xc_Env co) c (\<lambda>c. xo_GetExecution (xc_Repository co) c i) (\<lambda>r.
         case xr_Result r of
           Some result \<Rightarrow> observe_and_return co result
         | None \<Rightarrow>
             let startedAt = (if startedAt = 0 then xr_ReservedAt r else startedAt);
                 completedAt = (if completedAt < startedAt then startedAt else completedAt)
             in or_return (NewResult (xr_Request r) startedAt completedAt outcome) (\<lambda>result.
                  write_or_return (xc_Env co) c (\<lambda>c. xo_StoreResult (xc_Repository co) c result) (\<lambda>_.
                    observe_and_return co result))))"

text \<open>A terminal observation is stored, and the record returned with it.\<close>

definition store_observation :: "'r ExecCoordinator \<Rightarrow> ctx option \<Rightarrow> string \<Rightarrow> ExecutionRecord \<Rightarrow> Observation \<Rightarrow> ('r, ExecutionRecord) exec_call" where
  "store_observation co c i r seen =
     (if ob_Running seen then return r
      else after_call (StoreOutcome co c i (ob_StartedAt seen) (ob_CompletedAt seen) (observed_outcome seen)) (\<lambda>result err.
        case (err, result) of
          (Some e, _) \<Rightarrow> return_both r e
        | (None, None) \<Rightarrow> return r
        | (None, Some result) \<Rightarrow>
            (case NewTerminalSummary result of
               Inl e \<Rightarrow> return_both (r\<lparr>xr_Result := Some result\<rparr>) e
             | Inr terminal \<Rightarrow> return (r\<lparr>xr_Result := Some result, xr_Terminal := Some terminal\<rparr>))))"

definition exec_Reconcile :: "'r ExecCoordinator \<Rightarrow> ctx option \<Rightarrow> string \<Rightarrow> ('r, ExecutionRecord) exec_call" where
  "exec_Reconcile co c i =
     poll c (\<lambda>err. case err of Some e \<Rightarrow> return_err e | None \<Rightarrow>
       read_or_return (xc_Env co) c (\<lambda>c. xo_GetExecution (xc_Repository co) c i) (\<lambda>r.
         if xr_Result r \<noteq> None \<or> xr_ResultExpired r then return r
         else case ru_Observer (xc_Runtime co) of
           None \<Rightarrow> return r
         | Some observe \<Rightarrow>
             runtime (ObserveCall (xr_Request r)) (\<lambda>n. observe n (xr_Request r)) (\<lambda>answer.
               case answer of
                 Inl e \<Rightarrow> return_both r e
               | Inr seen \<Rightarrow>
                   if Observation_Validate seen \<noteq> None then return_both r [ExecErr ExecInvalidObservation]
                   else if xr_Attached r
                   then (if di_ExecutionReference (xr_Dispatch r) \<noteq> ob_ExecutionReference seen
                         then return_both r [ExecErr ExecConflict] else store_observation co c i r seen)
                   else exec_attach co c (xr_Request r)
                          \<lparr>di_ExecutionReference = ob_ExecutionReference seen, di_AcceptedAt = ob_StartedAt seen\<rparr> (\<lambda>res.
                          case res of
                            Inl e \<Rightarrow> return_both r e
                          | Inr attached \<Rightarrow> store_observation co c i (ev_Execution attached) seen))))"

definition recovered_outcome :: ResultOutcome where
  "recovered_outcome =
     \<lparr>ou_Status = ResultOutcomeUnknown, ou_ExitCode = None, ou_Signal = [], ou_StdoutReference = [], ou_StderrReference = [],
      ou_Error = Some \<lparr>er_Code = ''SANDBOX_EXEC_OUTCOME_UNKNOWN'', er_Message = ''execution outcome requires reconciliation'',
        er_Retryable = True, er_Outcome = ErrorOutcomeUnknown\<rparr>\<rparr>"

fun recover_executions ::
    "'r ExecCoordinator \<Rightarrow> ctx option \<Rightarrow> ExecutionRecord list \<Rightarrow> ExecutionRecord list \<Rightarrow> ('r, ExecutionRecord list) exec_call" where
  "recover_executions co c [] results = return results"
| "recover_executions co c (r # rs) results =
     (if xr_ResultExpired r
      then cleanup co (xr_Request r) (\<lambda>err.
        case err of Some e \<Rightarrow> return_both results e | None \<Rightarrow> recover_executions co c rs results)
      else case xr_Result r of
        Some result \<Rightarrow>
          observeResult co result (\<lambda>err. case err of Some e \<Rightarrow> return_both results e | None \<Rightarrow>
            clock_now (xc_Env co) (\<lambda>now.
              if now < re_RetainedUntil result then recover_executions co c rs results
              else clock_now (xc_Env co) (\<lambda>later.
                after_call (exec_GetResult co c (rq_OperationID (xr_Request r)) later) (\<lambda>_ err.
                  case err of
                    None \<Rightarrow> recover_executions co c rs results
                  | Some e \<Rightarrow>
                      if errors_is e (ExecErr ExecExpired) then recover_executions co c rs results
                      else return_both results e))))
      | None \<Rightarrow>
          after_call (exec_Reconcile co c (rq_OperationID (xr_Request r))) (\<lambda>reconciled err.
            case err of
              None \<Rightarrow> recover_executions co c rs (results @ (case reconciled of None \<Rightarrow> [] | Some x \<Rightarrow> [x]))
            | Some e \<Rightarrow>
                if errors_is e (ExecErr ExecExecutionNotFound)
                then clock_now (xc_Env co) (\<lambda>now.
                  after_call (StoreOutcome co c (rq_OperationID (xr_Request r)) (xr_ReservedAt r) now recovered_outcome) (\<lambda>result err.
                    case err of
                      Some e \<Rightarrow> return_both results e
                    | None \<Rightarrow> recover_executions co c rs (results @ [r\<lparr>xr_Result := result\<rparr>])))
                else return_both results e))"

definition exec_Recover :: "'r ExecCoordinator \<Rightarrow> ctx option \<Rightarrow> ('r, ExecutionRecord list) exec_call" where
  "exec_Recover co c =
     read_or_return (xc_Env co) c (\<lambda>c. xo_ListExecutions (xc_Repository co) c) (\<lambda>records. recover_executions co c records [])"

section \<open>Cancelling\<close>

datatype CancellationStatus = CancellationPending | CancellationConfirmed

record CancellationResult =
  cx_Reservation :: CancellationReservation
  cx_Status :: CancellationStatus

definition cancelled_outcome :: ResultOutcome where
  "cancelled_outcome = \<lparr>ou_Status = ResultCancelled, ou_ExitCode = None, ou_Signal = [], ou_StdoutReference = [],
     ou_StderrReference = [], ou_Error = None\<rparr>"

text \<open>What follows once the canceler has confirmed: the cancelled result is written, and only then reported.\<close>

definition store_cancelled :: "'r ExecCoordinator \<Rightarrow> ExecutionRecord \<Rightarrow> CancellationResult \<Rightarrow> ('r, CancellationResult) exec_call" where
  "store_cancelled co target result =
     clock_now (xc_Env co) (\<lambda>now.
       let now = (if now < di_AcceptedAt (xr_Dispatch target) then di_AcceptedAt (xr_Dispatch target) else now)
       in case NewResult (xr_Request target) (di_AcceptedAt (xr_Dispatch target)) now cancelled_outcome of
            Inl e \<Rightarrow> return_both result e
          | Inr retained \<Rightarrow>
              write_context co (\<lambda>writeCtx.
                repo_write (xc_Env co) writeCtx (\<lambda>c. xo_StoreResult (xc_Repository co) c retained) (\<lambda>res.
                  case res of
                    Inl e \<Rightarrow> return_both result e
                  | Inr _ \<Rightarrow>
                      observeResult co retained (\<lambda>err.
                        case err of
                          Some e \<Rightarrow> return_both result e
                        | None \<Rightarrow> return (result\<lparr>cx_Status := CancellationConfirmed\<rparr>)))))"

definition run_canceler :: "'r ExecCoordinator \<Rightarrow> ctx option \<Rightarrow> time \<Rightarrow> ExecutionRecord \<Rightarrow> CancellationResult \<Rightarrow> ('r, CancellationResult) exec_call" where
  "run_canceler co c deadline target result =
     (case ru_Canceler (xc_Runtime co) of
        None \<Rightarrow> return result
      | Some canceler \<Rightarrow>
          with_deadline co c deadline (\<lambda>cancelContext.
            poll cancelContext (\<lambda>err. case err of Some e \<Rightarrow> return_both result e | None \<Rightarrow>
              let attachment = attachment_of (xr_Request target) (xr_Dispatch target)
              in runtime (CancelCall attachment) (\<lambda>n. canceler n attachment) (\<lambda>err.
                   case err of Some e \<Rightarrow> return_both result e | None \<Rightarrow> store_cancelled co target result))))"

definition exec_Cancel :: "'r ExecCoordinator \<Rightarrow> ctx option \<Rightarrow> CancellationIntent \<Rightarrow> ('r, CancellationResult) exec_call" where
  "exec_Cancel co c intent =
     poll c (\<lambda>err. case err of Some e \<Rightarrow> return_err e | None \<Rightarrow>
       clock_now (xc_Env co) (\<lambda>now.
         write_or_return (xc_Env co) c (\<lambda>c. xo_ReserveCancellationAt (xc_Repository co) c intent now) (\<lambda>reservation.
           let intent = (if cv_Replayed reservation then cv_Intent reservation else intent);
               result = \<lparr>cx_Reservation = reservation, cx_Status = CancellationPending\<rparr>
           in repo_read (xc_Env co) c (\<lambda>c. xo_GetExecution (xc_Repository co) c (ci_TargetOperationID intent)) (\<lambda>res.
                case res of
                  Inl e \<Rightarrow> return_both result e
                | Inr target \<Rightarrow>
                    if cv_Replayed reservation
                    then return (if (case xr_Terminal target of None \<Rightarrow> False | Some t \<Rightarrow> ts_Status t = ResultCancelled)
                                 then result\<lparr>cx_Status := CancellationConfirmed\<rparr> else result)
                    else if \<not> xr_Attached target then return result
                    else run_canceler co c (ci_Deadline intent) target result))))"

section \<open>Histories of calls\<close>

text \<open>
  What happens to a world over time: calls of the coordinator with any arguments and contexts, the passing of
  time, and restarts of the process, which reopen the repository. A process that dies in the middle of a call
  leaves the world that the call leaves when its context ends there.
\<close>

inductive exec_served :: "'r ExecCoordinator \<Rightarrow> ('r \<Rightarrow> 'r \<Rightarrow> bool) \<Rightarrow> 'r exec_world \<Rightarrow> 'r exec_world \<Rightarrow> bool"
  for co reopens w where
  none: "exec_served co reopens w w"
| time: "exec_served co reopens w u \<Longrightarrow> exec_served co reopens w (u\<lparr>w_Tick := n\<rparr>)"
| restart: "exec_served co reopens w u \<Longrightarrow> reopens (w_Repository u) r \<Longrightarrow> exec_served co reopens w (u\<lparr>w_Repository := r\<rparr>)"
| start: "exec_served co reopens w u \<Longrightarrow> exec_served co reopens w (snd (exec_Start co c request u))"
| get_execution: "exec_served co reopens w u \<Longrightarrow> exec_served co reopens w (snd (exec_GetExecution co c i u))"
| get_cancellation: "exec_served co reopens w u \<Longrightarrow> exec_served co reopens w (snd (exec_GetCancellation co c i u))"
| get_reservation: "exec_served co reopens w u \<Longrightarrow> exec_served co reopens w (snd (exec_GetCancellationReservation co c i u))"
| get_result: "exec_served co reopens w u \<Longrightarrow> exec_served co reopens w (snd (exec_GetResult co c i now u))"
| store_outcome: "exec_served co reopens w u \<Longrightarrow>
    exec_served co reopens w (snd (StoreOutcome co c i startedAt completedAt outcome u))"
| reconcile: "exec_served co reopens w u \<Longrightarrow> exec_served co reopens w (snd (exec_Reconcile co c i u))"
| recover: "exec_served co reopens w u \<Longrightarrow> exec_served co reopens w (snd (exec_Recover co c u))"
| cancel: "exec_served co reopens w u \<Longrightarrow> exec_served co reopens w (snd (exec_Cancel co c intent u))"

text \<open>How often the executor was called for an operation.\<close>

fun starts :: "string \<Rightarrow> runtime_call list \<Rightarrow> nat" where
  "starts i [] = 0"
| "starts i (StartCall v # trace) = (if rq_OperationID (iv_Request v) = i then Suc (starts i trace) else starts i trace)"
| "starts i (_ # trace) = starts i trace"

text \<open>Other callers keep the repository sound and move it along the same histories; the clock is set.\<close>

definition exec_others :: "('r \<Rightarrow> bool) \<Rightarrow> ('r \<Rightarrow> ExecState) \<Rightarrow> 'r ExecCoordinator \<Rightarrow> bool" where
  "exec_others sound view co \<longleftrightarrow>
     (\<forall>n r. sound r \<longrightarrow> sound (en_Others (xc_Env co) n r) \<and> exec_evolves (view r) (view (en_Others (xc_Env co) n r))) \<and>
     (\<forall>n. 0 < en_Clock (xc_Env co) n)"

section \<open>The executor is called at most once\<close>

definition executions :: "ExecState \<Rightarrow> string fset" where
  "executions s = fmdom (xs_Executions s)"

lemma executions_reserve:
  assumes "ReserveExecutionAt request t ds s = Inr (res, s')"
  shows "executions s |\<subseteq>| executions s'"
    and "\<not> ev_Replayed res \<Longrightarrow> rq_OperationID request |\<notin>| executions s \<and> rq_OperationID request |\<in>| executions s'"
  using assms by (cases rule: ReserveExecutionAt_cases; auto simp: executions_def admitted_state_def)+

lemma executions_step: "exec_step s t \<Longrightarrow> executions s |\<subseteq>| executions t"
proof (induction rule: exec_step.induct)
  case (reserve request acceptedAt dispatch s res s')
  then show ?case by (rule executions_reserve(1))
qed (auto elim!: AttachExecution_cases ReserveCancellation_cases StoreResult_cases ReadResult_cases
    simp: executions_def intended_state_def)

lemma executions_evolve: "exec_evolves s t \<Longrightarrow> executions s |\<subseteq>| executions t"
  by (induction rule: exec_evolves.induct) (auto dest: executions_step)

text \<open>
  The invariant of the trace: one call of the executor at most for an operation, and only for an operation
  that the repository holds. Before the call, the operation is held and was never started.
\<close>

definition once :: "ExecState \<Rightarrow> runtime_call list \<Rightarrow> bool" where
  "once s trace \<longleftrightarrow> (\<forall>i. starts i trace \<le> 1 \<and> (0 < starts i trace \<longrightarrow> i |\<in>| executions s))"

definition ready :: "string \<Rightarrow> ExecState \<Rightarrow> runtime_call list \<Rightarrow> bool" where
  "ready i s trace \<longleftrightarrow> once s trace \<and> starts i trace = 0 \<and> i |\<in>| executions s"

lemma once_evolves: "once s trace \<Longrightarrow> exec_evolves s t \<Longrightarrow> once t trace"
  using executions_evolve by (auto simp: once_def)

lemma once_start: "ready (rq_OperationID (iv_Request v)) s trace \<Longrightarrow> once s (StartCall v # trace)"
  by (auto simp: ready_def once_def)

text \<open>
  A call that, on a sound repository, leads from worlds with \<open>P\<close> to worlds with \<open>Q\<close>, both about the
  repository's state and the trace.
\<close>

definition leads ::
    "('r \<Rightarrow> bool) \<Rightarrow> ('r \<Rightarrow> ExecState) \<Rightarrow> (ExecState \<Rightarrow> runtime_call list \<Rightarrow> bool) \<Rightarrow> (ExecState \<Rightarrow> runtime_call list \<Rightarrow> bool) \<Rightarrow>
     ('r, 'a) exec_call \<Rightarrow> bool" where
  "leads sound view P Q m \<longleftrightarrow>
     (\<forall>w. sound (w_Repository w) \<and> P (view (w_Repository w)) (w_Driver w) \<longrightarrow>
        sound (w_Repository (snd (m w))) \<and> Q (view (w_Repository (snd (m w)))) (w_Driver (snd (m w))))"

lemma leads_weaken: "leads sound view P Q m \<Longrightarrow> (\<And>s t. P' s t \<Longrightarrow> P s t) \<Longrightarrow> leads sound view P' Q m"
  by (simp add: leads_def)

named_theorems leads_intros

lemma leads_return [leads_intros]:
  "leads sound view P P (return x)" "leads sound view P P (return_err e)" "leads sound view P P (return_both x e)"
  by (simp_all add: leads_def return_def return_err_def return_both_def)

lemma leads_if [leads_intros]: "leads sound view P Q f \<Longrightarrow> leads sound view P Q g \<Longrightarrow> leads sound view P Q (if b then f else g)"
  by simp

lemma leads_option [leads_intros]:
  "leads sound view P Q f \<Longrightarrow> (\<And>y. leads sound view P Q (g y)) \<Longrightarrow> leads sound view P Q (case x of None \<Rightarrow> f | Some y \<Rightarrow> g y)"
  by (simp split: option.split)

lemma leads_sum [leads_intros]:
  "(\<And>e. leads sound view P Q (f e)) \<Longrightarrow> (\<And>y. leads sound view P Q (g y)) \<Longrightarrow> leads sound view P Q (case x of Inl e \<Rightarrow> f e | Inr y \<Rightarrow> g y)"
  by (simp split: sum.split)

lemma leads_or_return [leads_intros]: "(\<And>x. leads sound view P P (k x)) \<Longrightarrow> leads sound view P P (or_return r k)"
  by (cases r) (simp_all add: leads_def or_return_def return_err_def)

lemma leads_clock [leads_intros]: "(\<And>t. leads sound view P Q (k t)) \<Longrightarrow> leads sound view P Q (clock_now env k)"
  by (simp add: leads_def clock_now_def)

lemma leads_poll [leads_intros]: "(\<And>e. leads sound view P Q (k e)) \<Longrightarrow> leads sound view P Q (poll c k)"
  by (simp add: leads_def poll_def)

lemma leads_deadline [leads_intros]: "(\<And>c. leads sound view P Q (k c)) \<Longrightarrow> leads sound view P Q (with_deadline co c t k)"
  by (simp add: leads_def with_deadline_def Let_def)

lemma leads_write_context [leads_intros]: "(\<And>c. leads sound view P Q (k c)) \<Longrightarrow> leads sound view P Q (write_context co k)"
  by (simp add: leads_def write_context_def)

lemma leads_after_call [leads_intros]:
  "leads sound view P P m \<Longrightarrow> (\<And>x e. leads sound view P Q (k x e)) \<Longrightarrow> leads sound view P Q (after_call m k)"
  by (simp add: leads_def after_call_def case_prod_unfold)

text \<open>
  What other calls of the runtime and steps of the repository leave alone. The coordinator's calls, but for the
  start of an execution, lead from such a predicate to itself.
\<close>

definition steady :: "(ExecState \<Rightarrow> runtime_call list \<Rightarrow> bool) \<Rightarrow> bool" where
  "steady P \<longleftrightarrow>
     (\<forall>s t trace. P s trace \<longrightarrow> exec_evolves s t \<longrightarrow> P t trace) \<and>
     (\<forall>s made trace. (\<forall>v. made \<noteq> StartCall v) \<longrightarrow> P s trace \<longrightarrow> P s (made # trace))"

lemma starts_other: "\<forall>v. made \<noteq> StartCall v \<Longrightarrow> starts i (made # trace) = starts i trace"
  by (cases made) auto

lemma steady_once: "steady once"
  using once_evolves by (auto simp: steady_def starts_other once_def)

lemma steady_starts: "steady (\<lambda>_ trace. starts i trace = n)"
  by (auto simp: steady_def starts_other)

lemma steady_held: "steady (\<lambda>s trace. i |\<in>| executions s \<and> starts i trace = n)"
  using executions_evolve by (auto simp: steady_def starts_other)

lemma leads_runtime [leads_intros]:
  "steady P \<Longrightarrow> (\<And>v. made \<noteq> StartCall v) \<Longrightarrow> (\<And>x. leads sound view P P (k x)) \<Longrightarrow> leads sound view P P (runtime made answer k)"
  by (simp add: leads_def runtime_def steady_def)

lemma leads_runtime_start:
  "(\<And>x. leads sound view once once (k x)) \<Longrightarrow>
   leads sound view (ready (rq_OperationID (iv_Request v))) once (runtime (StartCall v) answer k)"
  by (simp add: leads_def runtime_def once_start)

lemma leads_observe [leads_intros]:
  "steady P \<Longrightarrow> (\<And>e. leads sound view P P (k e)) \<Longrightarrow> leads sound view P P (observeResult co x k)"
  by (auto simp: observeResult_def intro: leads_runtime split: option.split)

lemma leads_cleanup [leads_intros]:
  "steady P \<Longrightarrow> (\<And>e. leads sound view P P (k e)) \<Longrightarrow> leads sound view P P (cleanup co q k)"
  by (auto simp: cleanup_def intro: leads_runtime split: option.split)

definition onward :: "('r \<Rightarrow> bool) \<Rightarrow> ('r \<Rightarrow> ExecState) \<Rightarrow> (ctx option \<Rightarrow> 'r \<Rightarrow> (error + 'a) \<times> 'r) \<Rightarrow> bool" where
  "onward sound view write \<longleftrightarrow>
     (\<forall>c r. sound r \<longrightarrow> sound (snd (write c r)) \<and> exec_evolves (view r) (view (snd (write c r))))"

lemma leads_write:
  assumes others: "exec_others sound view co" and "steady P" and "onward sound view write" and "\<And>x. leads sound view P P (k x)"
  shows "leads sound view P P (repo_write (xc_Env co) c write k)"
  unfolding leads_def
proof (intro allI impI)
  fix w :: "'a exec_world"
  assume w: "sound (w_Repository w) \<and> P (view (w_Repository w)) (w_Driver w)"
  let ?r = "en_Others (xc_Env co) (w_Tick w) (w_Repository w)"
  let ?res = "write (from_now (w_Tick w) c) ?r"
  have "sound ?r" "P (view ?r) (w_Driver w)"
    using others w assms(2) unfolding exec_others_def steady_def by blast+
  then have "sound (snd ?res)" "P (view (snd ?res)) (w_Driver w)"
    using assms(2,3) unfolding onward_def steady_def by blast+
  with assms(4) [of "fst ?res"]
  show "sound (w_Repository (snd (repo_write (xc_Env co) c write k w))) \<and>
      P (view (w_Repository (snd (repo_write (xc_Env co) c write k w)))) (w_Driver (snd (repo_write (xc_Env co) c write k w)))"
    by (simp add: leads_def repo_write_def case_prod_unfold)
qed

lemma leads_read [leads_intros]:
  "exec_others sound view co \<Longrightarrow> steady P \<Longrightarrow> (\<And>x. leads sound view P P (k x)) \<Longrightarrow>
   leads sound view P P (repo_read (xc_Env co) c read k)"
  unfolding repo_read_def by (rule leads_write) (simp_all add: onward_def exec_evolves.start)

text \<open>A reservation that is fresh leads on from \<open>R\<close>.\<close>

lemma leads_reserve:
  assumes others: "exec_others sound view co" and steady: "steady P"
    and law: "\<And>c r res r' trace. write c r = (Inr res, r') \<Longrightarrow> sound r \<Longrightarrow> \<not> ev_Replayed res \<Longrightarrow> P (view r) trace \<Longrightarrow>
      P (view r') trace \<Longrightarrow> R (view r') trace"
    and onward: "onward sound view write"
    and k: "\<And>e. leads sound view P P (k (Inl e))" "\<And>x. ev_Replayed x \<Longrightarrow> leads sound view P P (k (Inr x))"
      "\<And>x. \<not> ev_Replayed x \<Longrightarrow> leads sound view R P (k (Inr x))"
  shows "leads sound view P P (repo_write (xc_Env co) c write k)"
  unfolding leads_def
proof (intro allI impI)
  fix w :: "'a exec_world"
  assume w: "sound (w_Repository w) \<and> P (view (w_Repository w)) (w_Driver w)"
  let ?r = "en_Others (xc_Env co) (w_Tick w) (w_Repository w)"
  obtain x r' where x: "write (from_now (w_Tick w) c) ?r = (x, r')" by force
  have r: "sound ?r" "P (view ?r) (w_Driver w)"
    using others w steady unfolding exec_others_def steady_def by blast+
  have "sound r' \<and> exec_evolves (view ?r) (view r')" using onward r(1) x unfolding onward_def by (metis snd_conv)
  then have o: "sound r'" "P (view r') (w_Driver w)" using r(2) steady unfolding steady_def by blast+
  have fresh: "R (view r') (w_Driver w)" if "x = Inr res" "\<not> ev_Replayed res" for res
    using law [of _ ?r res r' "w_Driver w"] x that o r by blast
  show "sound (w_Repository (snd (repo_write (xc_Env co) c write k w))) \<and>
      P (view (w_Repository (snd (repo_write (xc_Env co) c write k w)))) (w_Driver (snd (repo_write (xc_Env co) c write k w)))"
  proof (cases x)
    case (Inl e)
    with x o k(1) [of e] show ?thesis by (simp add: leads_def repo_write_def)
  next
    case (Inr res)
    with x o fresh k(2,3) [of res] show ?thesis by (cases "ev_Replayed res") (simp_all add: leads_def repo_write_def)
  qed
qed

context exec_repository
begin

lemma onward_writes:
  assumes "\<And>c. exec_writes sound view f (write c)" and "\<And>s x s'. f s = Inr (x, s') \<Longrightarrow> exec_step s s'"
  shows "onward sound view write"
  unfolding onward_def
proof (intro allI impI)
  fix c r
  assume r: "sound r"
  obtain x r' where x: "write c r = (x, r')" by force
  have "sound r' \<and> (view r' = view r \<or> (\<exists>y. f (view r) = Inr (y, view r')))"
    using exec_writes_any [OF assms(1) r x] .
  with assms(2) x show "sound (snd (write c r)) \<and> exec_evolves (view r) (view (snd (write c r)))"
    by (auto intro: exec_evolves.start exec_step_evolves)
qed

lemma onward_port:
  "onward sound view (\<lambda>c. xo_ReserveExecutionAt port c q t ds)" "onward sound view (\<lambda>c. xo_AttachExecution port c a)"
  "onward sound view (\<lambda>c. xo_StoreResult port c x)" "onward sound view (\<lambda>c. xo_GetResult port c j t)"
  "0 < t \<Longrightarrow> onward sound view (\<lambda>c. xo_ReserveCancellationAt port c i t)"
proof -
  show "onward sound view (\<lambda>c. xo_ReserveExecutionAt port c q t ds)"
    by (rule onward_writes [OF Reserve_law exec_step.reserve])
  show "onward sound view (\<lambda>c. xo_AttachExecution port c a)" by (rule onward_writes [OF Attach_law exec_step.attach])
  show "0 < t \<Longrightarrow> onward sound view (\<lambda>c. xo_ReserveCancellationAt port c i t)"
    by (rule onward_writes [OF Cancel_law exec_step.cancel])
  show "onward sound view (\<lambda>c. xo_StoreResult port c x)"
    by (rule onward_writes [OF Store_law]) (auto intro: exec_step.store)
  have "sound (snd (xo_GetResult port c j t r)) \<and> exec_evolves (view r) (view (snd (xo_GetResult port c j t r)))"
    if "sound r" for c r
    using GetResult_law [OF that, of c j t "fst (xo_GetResult port c j t r)" "snd (xo_GetResult port c j t r)"]
    by (auto intro: exec_evolves.start exec_step_evolves exec_step.read)
  then show "onward sound view (\<lambda>c. xo_GetResult port c j t)" by (simp add: onward_def)
qed

lemma reserve_fresh:
  assumes "xo_ReserveExecutionAt port c q t ds r = (Inr res, r')" and "sound r" and "\<not> ev_Replayed res"
  shows "rq_OperationID q |\<notin>| executions (view r) \<and> rq_OperationID q |\<in>| executions (view r')"
  using executions_reserve(2) [OF exec_writes_ok [OF Reserve_law assms(2,1)] assms(3)] .

lemmas port_leads = onward_port(1-4) [THEN leads_write [rotated 2]]

lemma leads_attach:
  assumes "exec_others sound view co" and "xc_Repository co = port" and "steady P" and "\<And>x. leads sound view P P (k x)"
  shows "leads sound view P P (exec_attach co c request d k)"
  unfolding exec_attach_def assms(2) by (rule port_leads(2)) (rule assms)+

lemma leads_dispatch:
  assumes "exec_others sound view co" and "xc_Repository co = port"
  shows "leads sound view (ready (rq_OperationID request)) once (exec_dispatch co c request now reservation)"
proof -
  let ?v = "\<lparr>iv_Request = request, iv_StartedAt = now\<rparr>"
  have failed: "leads sound view (ready (rq_OperationID request)) once (return_both reservation e)" for e
    by (rule leads_weaken [OF leads_return(3)]) (simp add: ready_def)
  have started: "leads sound view (ready (rq_OperationID request)) once (runtime (StartCall ?v) answer k)"
    if "\<And>x. leads sound view once once (k x)" for answer k
    using leads_runtime_start [of sound view k ?v answer] that by simp
  show ?thesis
    unfolding exec_dispatch_def
    by (intro leads_deadline leads_poll leads_option started failed leads_sum leads_return leads_attach assms steady_once)
qed

lemma leads_Start_from:
  assumes "exec_others sound view co" and "xc_Repository co = port" and "steady P"
    and "\<And>s t trace. P t trace \<Longrightarrow> P s trace \<Longrightarrow> rq_OperationID request |\<notin>| executions s \<Longrightarrow>
      rq_OperationID request |\<in>| executions t \<Longrightarrow> R t trace"
    and dispatch: "\<And>now v. leads sound view R P (exec_dispatch co c request now v)"
  shows "leads sound view P P (exec_Start co c request)"
proof -
  have "leads sound view P P (repo_write (xc_Env co) c (\<lambda>c. xo_ReserveExecutionAt port c request now []) (\<lambda>res.
      case res of Inl e \<Rightarrow> return_err e | Inr reservation \<Rightarrow>
        if ev_Replayed reservation then return reservation else exec_dispatch co c request now reservation))" for now
    by (rule leads_reserve [OF assms(1,3) _ onward_port(1), where R = R])
      (use reserve_fresh assms(4) in \<open>blast\<close>, simp_all add: leads_return dispatch)
  then show ?thesis
    unfolding exec_Start_def assms(2) by (intro leads_poll leads_option leads_return leads_clock)
qed

lemma leads_Start:
  assumes "exec_others sound view co" and "xc_Repository co = port"
  shows "leads sound view once once (exec_Start co c request)"
  by (rule leads_Start_from [OF assms steady_once _ leads_dispatch [OF assms]])
    (fastforce simp: ready_def once_def)

text \<open>An operation that the repository holds is not started.\<close>

lemma leads_Start_held:
  assumes "exec_others sound view co" and "xc_Repository co = port" and "i = rq_OperationID request"
  shows "leads sound view (\<lambda>s trace. i |\<in>| executions s \<and> starts i trace = n) (\<lambda>s trace. i |\<in>| executions s \<and> starts i trace = n)
    (exec_Start co c request)"
  by (rule leads_Start_from [OF assms(1,2) steady_held, where R = "\<lambda>_ _. False"])
    (use assms(3) in \<open>simp_all add: leads_def\<close>)

lemma leads_queries:
  assumes "exec_others sound view co" and "steady P"
  shows "leads sound view P P (exec_GetExecution co c i)" "leads sound view P P (exec_GetCancellation co c i)"
    "leads sound view P P (exec_GetCancellationReservation co c i)"
  unfolding exec_GetExecution_def exec_GetCancellation_def exec_GetCancellationReservation_def read_or_return_def
  by (intro leads_intros assms)+

lemma leads_observe_and_return: "steady P \<Longrightarrow> leads sound view P P (observe_and_return co x)"
  unfolding observe_and_return_def by (intro leads_intros)

lemma leads_if_cleanup:
  "steady P \<Longrightarrow> (\<And>e. leads sound view P P (k e)) \<Longrightarrow> leads sound view P P ((if b then cleanup co q else (\<lambda>k. k None)) k)"
  by (simp add: leads_cleanup)

lemma leads_GetResult:
  assumes "exec_others sound view co" and "xc_Repository co = port" and "steady P"
  shows "leads sound view P P (exec_GetResult co c i now)"
  unfolding exec_GetResult_def read_or_return_def write_or_return_def assms(2)
  by (intro leads_intros leads_if_cleanup port_leads assms(1,3))

lemma leads_StoreOutcome:
  assumes "exec_others sound view co" and "xc_Repository co = port" and "steady P"
  shows "leads sound view P P (StoreOutcome co c i startedAt completedAt outcome)"
  unfolding StoreOutcome_def read_or_return_def write_or_return_def Let_def assms(2)
  by (intro leads_intros leads_observe_and_return port_leads assms(1,3))

lemma leads_store_observation:
  assumes "exec_others sound view co" and "xc_Repository co = port" and "steady P"
  shows "leads sound view P P (store_observation co c i r seen)"
  unfolding store_observation_def prod.case
  by (intro leads_intros leads_StoreOutcome assms)

lemma leads_Reconcile:
  assumes "exec_others sound view co" and "xc_Repository co = port" and "steady P"
  shows "leads sound view P P (exec_Reconcile co c i)"
  unfolding exec_Reconcile_def read_or_return_def
  by (intro leads_intros leads_attach leads_store_observation assms) simp

lemma leads_recover_executions:
  assumes "exec_others sound view co" and "xc_Repository co = port" and "steady P"
  shows "leads sound view P P (recover_executions co c rs results)"
proof (induction rs arbitrary: results)
  case (Cons r rs)
  then show ?case
    unfolding recover_executions.simps
    by (intro leads_intros leads_GetResult leads_Reconcile leads_StoreOutcome assms)
qed (simp add: leads_return)

lemma leads_Recover:
  assumes "exec_others sound view co" and "xc_Repository co = port" and "steady P"
  shows "leads sound view P P (exec_Recover co c)"
  unfolding exec_Recover_def read_or_return_def by (intro leads_intros leads_recover_executions assms)

lemma leads_clock_set:
  "exec_others sound view co \<Longrightarrow> (\<And>t. 0 < t \<Longrightarrow> leads sound view P Q (k t)) \<Longrightarrow> leads sound view P Q (clock_now (xc_Env co) k)"
  by (simp add: leads_def clock_now_def exec_others_def)

lemma leads_run_canceler:
  assumes "exec_others sound view co" and "xc_Repository co = port" and "steady P"
  shows "leads sound view P P (run_canceler co c deadline target result)"
  unfolding run_canceler_def store_cancelled_def Let_def assms(2)
  by (intro leads_intros port_leads assms(1,3)) simp

lemma leads_Cancel:
  assumes "exec_others sound view co" and "xc_Repository co = port" and "steady P"
  shows "leads sound view P P (exec_Cancel co c intent)"
  unfolding exec_Cancel_def write_or_return_def Let_def assms(2)
  by (intro leads_poll leads_option leads_return leads_clock_set leads_write onward_port(5) leads_or_return leads_read
    leads_sum leads_if leads_run_canceler assms)

lemmas leads_calls = leads_queries leads_GetResult leads_StoreOutcome leads_Reconcile leads_Recover leads_Cancel

lemma served_once:
  assumes "exec_served co reopens w w'" and "exec_others sound view co" and "xc_Repository co = port"
    and "sound (w_Repository w)" and "w_Driver w = []"
  shows "sound (w_Repository w') \<and> once (view (w_Repository w')) (w_Driver w')"
  using assms(1)
proof induction
  case none
  with assms(4,5) show ?case by (simp add: once_def)
next
  case (restart u r)
  with reopen_law [of "w_Repository u" r] show ?case by simp
qed (use leads_calls [OF assms(2), of once] leads_Start [OF assms(2)] steady_once assms(3) in \<open>simp_all add: leads_def\<close>)

end

section \<open>What a confirmed cancellation means\<close>

definition ended_cancelled :: "string \<Rightarrow> ExecState \<Rightarrow> bool" where
  "ended_cancelled i s \<longleftrightarrow>
     (case fmlookup (xs_Executions s) i of None \<Rightarrow> False
      | Some r \<Rightarrow> (case xr_Terminal r of None \<Rightarrow> False | Some t \<Rightarrow> ts_Status t = ResultCancelled))"

lemma NewResult_cancelled:
  "NewResult request t u cancelled_outcome = Inr x \<Longrightarrow>
     re_OperationID x = rq_OperationID request \<and> re_Status x = ResultCancelled"
  by (auto simp: NewResult_def Let_def cancelled_outcome_def)

lemma StoreResult_cancelled:
  "StoreResult x s = Inr s' \<Longrightarrow> re_Status x = ResultCancelled \<Longrightarrow> ended_cancelled (re_OperationID x) s'"
  by (auto simp: StoreResult_def ended_cancelled_def NewTerminalSummary_def split: option.splits if_splits sum.splits)

lemma observeResult_cases:
  obtains w' e where "observeResult co x k w = k e w'" "w_Repository w' = w_Repository w"
    "\<exists>rest. w_Driver w' = rest @ w_Driver w"
proof (cases "ru_ResultSink (xc_Runtime co)")
  case None
  then show ?thesis by (intro that [of None w]) (simp_all add: observeResult_def)
next
  case (Some sink)
  let ?w = "w\<lparr>w_Driver := ResultCall x # w_Driver w, w_Tick := Suc (w_Tick w)\<rparr>"
  from Some show ?thesis by (intro that [of "sink (w_Tick w) x" ?w]) (simp_all add: observeResult_def runtime_def)
qed

context exec_repository
begin

lemma store_confirmed:
  assumes "repo_write (xc_Env co) c (\<lambda>c. xo_StoreResult port c x) (\<lambda>res.
      case res of Inl e \<Rightarrow> return_both pending e
      | Inr _ \<Rightarrow> observeResult co x (\<lambda>err. case err of Some e \<Rightarrow> return_both pending e
          | None \<Rightarrow> return (pending\<lparr>cx_Status := CancellationConfirmed\<rparr>))) w = ((Some result, err), w')"
    and "cx_Status pending = CancellationPending" and "cx_Status result = CancellationConfirmed"
    and "exec_others sound view co" and "sound (w_Repository w)"
  shows "err = None \<and> cx_Reservation result = cx_Reservation pending \<and>
    (\<exists>s. StoreResult x s = Inr (view (w_Repository w'))) \<and> (\<exists>rest. w_Driver w' = rest @ w_Driver w)"
proof -
  let ?r = "en_Others (xc_Env co) (w_Tick w) (w_Repository w)"
  let ?k = "\<lambda>err. case err of Some e \<Rightarrow> return_both pending e | None \<Rightarrow> return (pending\<lparr>cx_Status := CancellationConfirmed\<rparr>)"
  obtain res r' where st: "xo_StoreResult port (from_now (w_Tick w) c) x ?r = (res, r')" by force
  have "res \<noteq> Inl e" for e using assms st by (auto simp: repo_write_def return_both_def)
  then have res: "res = Inr ()" by (cases res) auto
  have "sound ?r" using assms(4,5) by (simp add: exec_others_def)
  then have "StoreResult x (view ?r) = Inr (view r')" using exec_writes_ok [OF Store_law _ st [unfolded res]] by auto
  moreover obtain v e where v: "observeResult co x ?k (w\<lparr>w_Repository := r', w_Tick := w_Tick w + 5\<rparr>) = ?k e v"
    "w_Repository v = r'" "\<exists>rest. w_Driver v = rest @ w_Driver w"
    by (rule observeResult_cases [of co x ?k "w\<lparr>w_Repository := r', w_Tick := w_Tick w + 5\<rparr>"]) auto
  moreover have "?k e v = ((Some result, err), w')" using assms(1) st res v(1) by (simp add: repo_write_def)
  ultimately show ?thesis using assms(2,3) by (cases e) (auto simp: return_def return_both_def)
qed

lemma store_cancelled_confirmed:
  assumes "store_cancelled co target pending w = ((Some result, err), w')" and "xc_Repository co = port"
    and "cx_Status pending = CancellationPending" and "cx_Status result = CancellationConfirmed"
    and "exec_others sound view co" and "sound (w_Repository w)"
  shows "err = None \<and> cx_Reservation result = cx_Reservation pending \<and>
    ended_cancelled (rq_OperationID (xr_Request target)) (view (w_Repository w')) \<and> (\<exists>rest. w_Driver w' = rest @ w_Driver w)"
proof -
  let ?t = "di_AcceptedAt (xr_Dispatch target)" and ?n = "en_Clock (xc_Env co) (w_Tick w)"
  obtain x where x: "NewResult (xr_Request target) ?t (if ?n < ?t then ?t else ?n) cancelled_outcome = Inr x"
    using assms(1,3,4)
    by (cases "NewResult (xr_Request target) ?t (if ?n < ?t then ?t else ?n) cancelled_outcome")
      (auto simp: store_cancelled_def clock_now_def Let_def return_both_def)
  have w: "w_Driver w = w_Driver (w\<lparr>w_Tick := Suc (w_Tick w)\<rparr>)" by simp
  show ?thesis
    using assms(1,6) store_confirmed [OF _ assms(3-5)] NewResult_cancelled [OF x] StoreResult_cancelled [of x]
    unfolding store_cancelled_def clock_now_def Let_def x assms(2) sum.case write_context_def w by fastforce
qed

lemma run_canceler_confirmed:
  assumes "run_canceler co c deadline target pending w = ((Some result, err), w')" and "xc_Repository co = port"
    and "cx_Status pending = CancellationPending" and "cx_Status result = CancellationConfirmed"
    and "exec_others sound view co" and "sound (w_Repository w)"
  shows "err = None \<and> cx_Reservation result = cx_Reservation pending \<and>
    ended_cancelled (rq_OperationID (xr_Request target)) (view (w_Repository w')) \<and>
    (\<exists>canceler n rest. ru_Canceler (xc_Runtime co) = Some canceler \<and>
       canceler n (attachment_of (xr_Request target) (xr_Dispatch target)) = None \<and>
       w_Driver w' = rest @ CancelCall (attachment_of (xr_Request target) (xr_Dispatch target)) # w_Driver w)"
proof -
  let ?a = "attachment_of (xr_Request target) (xr_Dispatch target)"
  obtain canceler where canceler: "ru_Canceler (xc_Runtime co) = Some canceler"
    using assms(1,3,4) by (auto simp: run_canceler_def return_def split: option.splits)
  let ?v = "w\<lparr>w_Driver := CancelCall ?a # w_Driver w, w_Tick := Suc (Suc (Suc (w_Tick w)))\<rparr>"
  have v: "canceler (w_Tick w + 2) ?a = None" "store_cancelled co target pending ?v = ((Some result, err), w')"
    using assms(1,3,4) canceler
    by (auto simp: run_canceler_def with_deadline_def poll_def runtime_def return_both_def Let_def split: option.splits)
  from store_cancelled_confirmed [OF v(2) assms(2-5)] assms(6) v(1) canceler show ?thesis by fastforce
qed

lemma GetExecution_found: "xo_GetExecution port c i r = Inr x \<Longrightarrow> fmlookup (xs_Executions (view r)) i = Some x"
  using GetExecution_law [of i c] unfolding exec_reads_def GetExecution_def
  by (drule_tac spec [of _ r]) (auto split: option.splits)

text \<open>After its reservation, a cancellation decides on the record of its target.\<close>

lemma Cancel_target:
  assumes "exec_Cancel co c intent w = ((Some result, err), w')" and "xc_Repository co = port"
    and "exec_others sound view co" and "sound (w_Repository w)" and "cx_Status result = CancellationConfirmed"
  obtains reservation pending target v where "sound (w_Repository v)" "pending = \<lparr>cx_Reservation = reservation, cx_Status = CancellationPending\<rparr>"
    "fmlookup (xs_Executions (view (w_Repository v))) (ci_TargetOperationID (cv_Intent reservation)) = Some target"
    "rq_OperationID (xr_Request target) = ci_TargetOperationID (cv_Intent reservation)" "w_Driver v = w_Driver w"
    "(if cv_Replayed reservation
      then return (if (case xr_Terminal target of None \<Rightarrow> False | Some t \<Rightarrow> ts_Status t = ResultCancelled)
        then pending\<lparr>cx_Status := CancellationConfirmed\<rparr> else pending)
      else if \<not> xr_Attached target then return pending
      else run_canceler co c (ci_Deadline (cv_Intent reservation)) target pending) v = ((Some result, err), w')"
proof -
  let ?env = "xc_Env co" and ?n = "w_Tick w"
  let ?now = "en_Clock ?env (Suc ?n)" and ?r\<^sub>1 = "en_Others ?env (Suc (Suc ?n)) (w_Repository w)"
  note call = exec_Cancel_def poll_def clock_now_def write_or_return_def repo_read_def repo_write_def or_return_def
    return_err_def return_both_def Let_def
  obtain res r\<^sub>2 where reserve: "xo_ReserveCancellationAt port (from_now (Suc (Suc ?n)) c) intent ?now ?r\<^sub>1 = (res, r\<^sub>2)"
    by force
  have r\<^sub>1: "sound ?r\<^sub>1" and now: "0 < ?now" using assms(3,4) by (simp_all add: exec_others_def)
  from reserve obtain reservation where res: "res = Inr reservation"
    using assms(1,2,5) by (cases res) (auto simp: call split: option.splits)
  have step: "ReserveCancellation intent ?now (view ?r\<^sub>1) = Inr (reservation, view r\<^sub>2)"
    using exec_writes_ok [OF Cancel_law [OF now] r\<^sub>1 reserve [unfolded res]] .
  have intent: "(if cv_Replayed reservation then cv_Intent reservation else intent) = cv_Intent reservation"
    using step by (cases rule: ReserveCancellation_cases) simp_all
  let ?r\<^sub>3 = "en_Others ?env (7 + ?n) r\<^sub>2" and ?i = "ci_TargetOperationID (cv_Intent reservation)"
  obtain target where target: "xo_GetExecution port (from_now (7 + ?n) c) ?i ?r\<^sub>3 = Inr target"
    using assms(1,2,5) reserve res intent
    by (cases "xo_GetExecution port (from_now (7 + ?n) c) ?i ?r\<^sub>3") (auto simp: call split: option.splits)
  have found: "fmlookup (xs_Executions (view ?r\<^sub>3)) ?i = Some target" using target by (rule GetExecution_found)
  have "sound r\<^sub>2" using exec_writes_any [OF Cancel_law [OF now] r\<^sub>1 reserve] by simp
  then have r\<^sub>3: "sound ?r\<^sub>3" using assms(3) by (simp add: exec_others_def)
  have key: "rq_OperationID (xr_Request target) = ?i" using exec_inv_recordD [OF sound_inv [OF r\<^sub>3] found] by simp
  show ?thesis
    by (rule that [of "w\<lparr>w_Repository := ?r\<^sub>3, w_Tick := 12 + ?n\<rparr>", OF _ refl _ key])
      (use assms(1,2) r\<^sub>3 reserve res target found intent in \<open>auto simp: call split: option.splits if_splits\<close>)
qed

lemma cancel_confirmed:
  assumes "exec_Cancel co c intent w = ((Some result, err), w')" and "xc_Repository co = port"
    and "exec_others sound view co" and "sound (w_Repository w)" and "cx_Status result = CancellationConfirmed"
  shows "err = None \<and> ended_cancelled (ci_TargetOperationID (cv_Intent (cx_Reservation result))) (view (w_Repository w')) \<and>
    (cv_Replayed (cx_Reservation result) \<and> w_Driver w' = w_Driver w \<or>
     (\<exists>canceler n a rest. ru_Canceler (xc_Runtime co) = Some canceler \<and> canceler n a = None \<and>
        at_OperationID a = ci_TargetOperationID (cv_Intent (cx_Reservation result)) \<and>
        w_Driver w' = rest @ CancelCall a # w_Driver w))"
  using assms
proof (rule Cancel_target)
  fix reservation pending target v
  assume sound_v: "sound (w_Repository v)" and pending: "pending = \<lparr>cx_Reservation = reservation, cx_Status = CancellationPending\<rparr>"
    and found: "fmlookup (xs_Executions (view (w_Repository v))) (ci_TargetOperationID (cv_Intent reservation)) = Some target"
    and key: "rq_OperationID (xr_Request target) = ci_TargetOperationID (cv_Intent reservation)"
    and v: "w_Driver v = w_Driver w"
    and rest: "(if cv_Replayed reservation
      then return (if (case xr_Terminal target of None \<Rightarrow> False | Some t \<Rightarrow> ts_Status t = ResultCancelled)
        then pending\<lparr>cx_Status := CancellationConfirmed\<rparr> else pending)
      else if \<not> xr_Attached target then return pending
      else run_canceler co c (ci_Deadline (cv_Intent reservation)) target pending) v = ((Some result, err), w')"
  show ?thesis
  proof (cases "cv_Replayed reservation")
    case True
    with rest assms(5) found pending v show ?thesis
      by (auto simp: return_def ended_cancelled_def split: if_splits option.splits)
  next
    case False
    with rest assms(5) pending have "run_canceler co c (ci_Deadline (cv_Intent reservation)) target pending v = ((Some result, err), w')"
      by (auto simp: return_def split: if_splits)
    from run_canceler_confirmed [OF this assms(2) _ assms(5,3) sound_v] key pending v show ?thesis
      by (fastforce simp: attachment_of_def)
  qed
qed

end

section \<open>A sample coordinator\<close>

definition exec_env1 :: "ExecPersisted PersistEnv" where
  "exec_env1 = \<lparr>pe_MkdirAll = False, pe_CreateTemp = False, pe_Chmod = False, pe_Encode = False, pe_Stat = False,
     pe_Size = \<lambda>_. 4096, pe_Sync = False, pe_Close = False, pe_Rename = False, pe_OpenDirectory = False,
     pe_SyncDirectory = False, pe_CloseDirectory = False\<rparr>"

definition exec_file1 :: "ExecState \<Rightarrow> ExecFile" where
  "exec_file1 s =
     \<lparr>file_State = s, file_Closed = False,
      file_Disk = Some \<lparr>df_Regular = True, df_Size = 4096, df_Documents = [Snapshot (Exec_Export s)]\<rparr>,
      file_Env = (\<lambda>_. exec_env1), file_Writes = 0, file_ReleaseFails = False\<rparr>"

definition exec_co1 :: "ExecFile ExecCoordinator" where
  "exec_co1 =
     \<lparr>xc_Repository = exec_file_port,
      xc_Runtime = \<lparr>ru_Executor = (\<lambda>_ _. Inr ''ref:x''), ru_Observer = None, ru_Canceler = Some (\<lambda>_ _. None),
        ru_Cleaner = None, ru_ResultSink = None\<rparr>,
      xc_Env = \<lparr>en_Clock = (\<lambda>_. 100), en_Timer = (\<lambda>_ _. False), en_Others = (\<lambda>_ r. r)\<rparr>\<rparr>"

definition exec_world1 :: "ExecState \<Rightarrow> ExecFile exec_world" where
  "exec_world1 s = \<lparr>w_Repository = exec_file1 s, w_Driver = [], w_Tick = 0\<rparr>"

definition intent1 :: CancellationIntent where
  "intent1 =
     \<lparr>ci_SandboxID = ''sbx'', ci_OperationID = ''op2'', ci_AttemptID = ''at2'', ci_FencingToken = 1, ci_ExpectedGeneration = 1,
      ci_IdempotencyKey = ''key2'', ci_RequestDigest = ''sha256:'' @ replicate 64 (CHR ''0''), ci_Deadline = 5000,
      ci_TargetOperationID = ''op1'', ci_TargetAttemptID = ''at1'', ci_Reason = CancellationCallerRequested\<rparr>"

lemma exec_co1_others: "exec_others exec_durable file_State exec_co1"
  by (simp add: exec_others_def exec_co1_def exec_evolves.start)

lemma exec_world1_durable: "exec_inv s \<Longrightarrow> exec_durable (w_Repository (exec_world1 s))"
  by (simp add: exec_world1_def exec_file1_def store_durable_def stored_def exec_maxFileSize_def)

lemma exec_world1_tick [simp]: "exec_world1 s\<lparr>w_Tick := 0\<rparr> = exec_world1 s"
  by (simp add: exec_world1_def)

lemma exec_mutate1:
  "f s = Inr (x, s') \<Longrightarrow> file_State r = s \<Longrightarrow> \<not> file_Closed r \<Longrightarrow> file_Env r = (\<lambda>_. exec_env1) \<Longrightarrow>
   exec_mutate (Some (\<lambda>_. None)) f r = (Inr x, r\<lparr>file_State := s', file_Writes := Suc (file_Writes r),
     file_Disk := Some \<lparr>df_Regular = True, df_Size = 4096, df_Documents = [Snapshot (Exec_Export s')]\<rparr>\<rparr>)"
  by (simp add: exec_mutate_def store_eval exec_env1_def exec_maxFileSize_def contextError_def Let_def)

lemmas exec_run = poll_def clock_now_def repo_write_def repo_read_def write_or_return_def or_return_def with_deadline_def
  write_context_def with_timeout_def contextError_def live_def from_now_def runtime_def return_def return_both_def
  exec_file_port_def exec_file_read_def store_read_def Let_def

lemma exec_start1:
  "w_Driver (snd (exec_Start exec_co1 live request1 (exec_world1 Exec_NewState\<lparr>w_Tick := n\<rparr>))) =
     [StartCall \<lparr>iv_Request = request1, iv_StartedAt = 100\<rparr>]"
proof -
  have "admissible request1 100 Exec_NewState" using request1_valid by (simp add: admissible_def Exec_NewState_def)
  then have "ReserveExecutionAt request1 100 [] Exec_NewState =
      Inr (\<lparr>ev_Execution = new_record request1 100 [], ev_Replayed = False\<rparr>, admitted_state request1 100 [] Exec_NewState)"
    using reserve_none_fresh [THEN iffD2] by simp
  moreover have "100 < rq_Deadline request1" by (simp add: request1_def)
  ultimately show ?thesis
    using request1_valid
    by (simp add: exec_Start_def exec_dispatch_def exec_attach_def exec_co1_def exec_world1_def exec_file1_def exec_run
        ExecFile_ReserveExecutionAt_def exec_mutate1 split: prod.split sum.split)
qed

lemma intent1_valid: "CancellationIntent_Validate intent1 100 = None"
  by (simp add: CancellationIntent_Validate_def intent1_def exec_eval MaxIdempotencyKeyRunes_def numeral_eq_Suc)

lemma cancelled1:
  "NewResult request1 100 100 cancelled_outcome =
     Inr (result1\<lparr>re_Status := ResultCancelled, re_ExitCode := None, re_CompletedAt := 100, re_RetainedUntil := 100 + nanos_per_second\<rparr>)"
    (is "_ = Inr ?x")
proof -
  have "Result_Validate ?x = None"
    by (simp add: Result_Validate_def result1_def exec_eval optional_reference_def error_valid_def unknown_explained_def
        nanos_per_second_def)
  then show ?thesis by (simp add: NewResult_def cancelled_outcome_def result1_def request1_def Let_def)
qed

lemma exec_cancel1:
  "\<exists>w'. exec_Cancel exec_co1 live intent1 (exec_world1 exec_state1) =
     ((Some \<lparr>cx_Reservation = \<lparr>cv_Intent = intent1, cv_ReservedAt = 100, cv_Replayed = False\<rparr>,
        cx_Status = CancellationConfirmed\<rparr>, None), w')"
proof -
  let ?s = "intended_state intent1 100 exec_state1" and ?r = "new_record request1 100 [dispatch1]"
  have target: "fmlookup (xs_Executions exec_state1) ''op1'' = Some ?r" "xs_Executions ?s = xs_Executions exec_state1"
    by (simp_all add: exec_state1_def admitted_state_def request1_def intended_state_def)
  have fresh: "fmlookup (xs_CancellationIdempotency exec_state1) k = None" "ci_OperationID intent1 |\<notin>| fmdom (xs_Executions exec_state1)"
    "j |\<notin>| fmdom (xs_CancellationIntents exec_state1)" "target_matches intent1 (xr_Request ?r)" "ci_TargetOperationID intent1 = ''op1''"
    "xr_Result ?r = None" "\<not> xr_ResultExpired ?r" for k j
    by (simp_all add: exec_state1_def admitted_state_def Exec_NewState_def request1_def intent1_def target_matches_def new_record_def)
  have "ReserveCancellation intent1 100 exec_state1 = Inr (\<lparr>cv_Intent = intent1, cv_ReservedAt = 100, cv_Replayed = False\<rparr>, ?s)"
    using intent1_valid target fresh by (simp add: ReserveCancellation_def)
  moreover have "GetExecution (ci_TargetOperationID intent1) ?s = Inr ?r"
    using target by (simp add: GetExecution_def intent1_def)
  moreover have "\<exists>s'. StoreResult (result1\<lparr>re_Status := ResultCancelled, re_ExitCode := None, re_CompletedAt := 100,
      re_RetainedUntil := 100 + nanos_per_second\<rparr>) ?s = Inr s'"
    using target cancelled1
    by (auto simp: StoreResult_def NewTerminalSummary_def NewResult_def Let_def result1_def request1_def new_record_def
        cancelled_outcome_def)
  moreover have "ci_Deadline intent1 = 5000" "xr_Request ?r = request1" "xr_Attached ?r" "di_AcceptedAt (xr_Dispatch ?r) = 100"
    by (simp_all add: intent1_def new_record_def dispatch1_def)
  ultimately show ?thesis
    using cancelled1
    by (auto simp: exec_Cancel_def run_canceler_def store_cancelled_def observeResult_def exec_co1_def exec_world1_def
        exec_file1_def exec_run exec_mutate1 ExecFile_ReserveCancellationAt_def ExecFile_GetExecution_def ExecFile_StoreResult_def
        cancellationPersistenceTimeout_def nanos_per_second_def)
qed

section \<open>Properties\<close>

text \<open>
  C3. The executor starts an operation at most once. Over any sequence of the coordinator's calls and restarts
  of the process, with any contexts, clock readings, failing system calls and answers of the runtime, and with
  other callers working on the same repository before every access, the executor is called at most once for an
  operation, and only after the operation was recorded in the file: a retry, a recovery, a reconciliation or a
  cancellation never starts a second process, also after a crash between the start and its receipt.
\<close>

theorem executor_called_at_most_once:
  assumes "exec_served co exec_reopens w w'" and "xc_Repository co = exec_file_port"
    and "exec_others exec_durable file_State co" and "exec_durable (w_Repository w)" and "w_Driver w = []"
  shows "starts i (w_Driver w') \<le> 1 \<and>
    (0 < starts i (w_Driver w') \<longrightarrow> i |\<in>| fmdom (xs_Executions (file_State (w_Repository w')))) \<and>
    exec_durable (w_Repository w')"
  using exec_file.served_once [OF assms(1,3,2,4,5)] by (simp add: once_def executions_def)

theorem executor_called_at_most_once_witness:
  "\<exists>w r. w = snd (exec_Start exec_co1 live request1 (exec_world1 Exec_NewState)) \<and> exec_reopens (w_Repository w) r \<and>
     starts ''op1'' (w_Driver w) = 1 \<and>
     starts ''op1'' (w_Driver (snd (exec_Start exec_co1 live request1 (w\<lparr>w_Repository := r\<rparr>)))) \<le> 1"
proof -
  let ?w\<^sub>0 = "exec_world1 Exec_NewState"
  let ?w = "snd (exec_Start exec_co1 live request1 ?w\<^sub>0)"
  have co: "xc_Repository exec_co1 = exec_file_port" "w_Driver ?w\<^sub>0 = []" by (simp_all add: exec_co1_def exec_world1_def)
  have served: "exec_served exec_co1 exec_reopens ?w\<^sub>0 ?w" by (intro exec_served.intros)
  note once = executor_called_at_most_once [OF _ co(1) exec_co1_others exec_world1_durable [OF exec_inv_NewState] co(2)]
  have "exec_durable (w_Repository ?w)" using once [OF served] by blast
  from exec_store.opens [OF this, of "''x''" "\<lparr>le_MkdirAll = False, le_Lock = False, le_Open = False, le_Stat = False, le_Read = False\<rparr>"
      "\<lambda>_. exec_env1" False]
  obtain r where r: "exec_reopens (w_Repository ?w) r"
    unfolding exec_reopens_def ExecFile_NewRepository_def by (simp add: not_blank_Cons byte_def) blast
  have "exec_served exec_co1 exec_reopens ?w\<^sub>0 (snd (exec_Start exec_co1 live request1 (?w\<lparr>w_Repository := r\<rparr>)))"
    by (intro exec_served.intros r)
  from once [OF this, of "''op1''"] r exec_start1 [of 0] show ?thesis by (auto simp: request1_def)
qed

text \<open>
  C10. A confirmed cancellation is true. When a cancellation reports confirmed, the repository holds the target
  as ended by cancellation at that moment. Unless the report is of a cancellation recorded before, which calls
  no one, the canceler was called on the target's own receipt in this call and answered without an error; a
  recorded intent alone is never reported as confirmed.
\<close>

theorem cancel_confirmed_is_true:
  assumes "exec_Cancel co c intent w = ((Some result, err), w')" and "cx_Status result = CancellationConfirmed"
    and "xc_Repository co = exec_file_port" and "exec_others exec_durable file_State co" and "exec_durable (w_Repository w)"
  shows "err = None \<and>
    ended_cancelled (ci_TargetOperationID (cv_Intent (cx_Reservation result))) (file_State (w_Repository w')) \<and>
    (cv_Replayed (cx_Reservation result) \<and> w_Driver w' = w_Driver w \<or>
     (\<exists>canceler n a rest. ru_Canceler (xc_Runtime co) = Some canceler \<and> canceler n a = None \<and>
        at_OperationID a = ci_TargetOperationID (cv_Intent (cx_Reservation result)) \<and>
        w_Driver w' = rest @ CancelCall a # w_Driver w))"
  using exec_file.cancel_confirmed [OF assms(1,3,4,5,2)] .

theorem cancel_confirmed_is_true_witness:
  "\<exists>w' a rest. snd (exec_Cancel exec_co1 live intent1 (exec_world1 exec_state1)) = w' \<and>
     ended_cancelled ''op1'' (file_State (w_Repository w')) \<and> w_Driver w' = rest @ [CancelCall a]"
proof -
  obtain w' where w': "exec_Cancel exec_co1 live intent1 (exec_world1 exec_state1) =
      ((Some \<lparr>cx_Reservation = \<lparr>cv_Intent = intent1, cv_ReservedAt = 100, cv_Replayed = False\<rparr>,
        cx_Status = CancellationConfirmed\<rparr>, None), w')"
    using exec_cancel1 by blast
  have "exec_inv exec_state1" using ReserveExecutionAt_inv [OF exec_admit1 exec_inv_NewState] .
  from cancel_confirmed_is_true [OF w' _ _ exec_co1_others exec_world1_durable [OF this]] w' show ?thesis
    by (auto simp: exec_co1_def exec_world1_def intent1_def)
qed

end
