(* ===== verification/Provider_Operation.thy ===== *)
theory Provider_Operation
  imports Exec_Model Go_World
begin

text \<open>
  The view of an operation that the provider's families share, and its aggregation
  (\<^verbatim>\<open>src/provider/operation/model.go\<close>), with the reader of the lifecycle family
  (\<^verbatim>\<open>lifecycle_reader.go\<close>). A reader is a function of the world: the exec family reconciles when it is
  read. The token of a view is a signed 64-bit integer.
\<close>

section \<open>Views\<close>

datatype ViewType =
    TypeCreate | TypeExtendLease | TypeExec | TypeCancelExec | TypeSuspend | TypeResume | TypeTerminate
  | TypeRuntimeSession | TypeCloseRuntimeSession | TypeBrowserSession | TypeDesktopSession
  | TypeCloseDesktopSession | TypeArtifactStage | OtherType string

datatype ViewStatus =
    StatusAccepted | StatusRunning | StatusSucceeded | StatusFailed | StatusCancelled | StatusOutcomeUnknown
  | OtherViewStatus string

record ViewFailure =
  vf_Code :: string
  vf_Retryable :: bool
  vf_Outcome :: string

record View =
  vw_OperationID :: string
  vw_AttemptID :: string
  vw_FencingToken :: int
  vw_SandboxID :: string
  vw_Type :: ViewType
  vw_Status :: ViewStatus
  vw_ProviderOperationID :: string
  vw_ResultReference :: string
  vw_ObservedAt :: time
  vw_Failure :: "ViewFailure option"

fun ViewType_known :: "ViewType \<Rightarrow> bool" where
  "ViewType_known (OtherType _) = False"
| "ViewType_known _ = True"

fun ViewStatus_known :: "ViewStatus \<Rightarrow> bool" where
  "ViewStatus_known (OtherViewStatus _) = False"
| "ViewStatus_known _ = True"

definition resultReferencePattern :: "string \<Rightarrow> bool" where
  "resultReferencePattern = prefixed ''ref:''"

definition View_Validate :: "View \<Rightarrow> error option" where
  "View_Validate v = first_err
     [fail_if (vw_OperationID v = [] \<or> vw_AttemptID v = [] \<or> vw_SandboxID v = [] \<or> vw_FencingToken v < 1 \<or>
        vw_ObservedAt v = 0) [OperationErr OperationInvalidView],
      fail_if (vw_ResultReference v \<noteq> [] \<and> \<not> resultReferencePattern (vw_ResultReference v)) [OperationErr OperationInvalidView],
      fail_if (\<not> ViewType_known (vw_Type v)) [OperationErr OperationInvalidView],
      fail_if (\<not> ViewStatus_known (vw_Status v)) [OperationErr OperationInvalidView],
      fail_if (vw_Failure v \<noteq> None \<and> vw_Status v \<noteq> StatusFailed \<and> vw_Status v \<noteq> StatusOutcomeUnknown)
        [OperationErr OperationInvalidView]]"

section \<open>Aggregation\<close>

type_synonym 'w Reader = "ctx option \<Rightarrow> string \<Rightarrow> 'w \<Rightarrow> (error + View) \<times> 'w"

fun aggregate ::
    "ctx option \<Rightarrow> string \<Rightarrow> 'w Reader list \<Rightarrow> View option \<Rightarrow> 'w \<Rightarrow> (error + View) \<times> 'w" where
  "aggregate c operationID [] found w =
     ((case found of None \<Rightarrow> Inl [OperationErr OperationNotFound] | Some v \<Rightarrow> Inr v), w)"
| "aggregate c operationID (reader # readers) found w =
     (case reader c operationID w of
        (Inl e, w') \<Rightarrow>
          if errors_is e (OperationErr OperationNotFound) then aggregate c operationID readers found w' else (Inl e, w')
      | (Inr v, w') \<Rightarrow>
          (case View_Validate v of
             Some e \<Rightarrow> (Inl (OperationErr OperationUnavailable # e), w')
           | None \<Rightarrow>
               if vw_OperationID v \<noteq> operationID
               then (Inl [OperationErr OperationConflict, OperationErr OperationInvalidView], w')
               else if found \<noteq> None then (Inl [OperationErr OperationConflict], w')
               else aggregate c operationID readers (Some v) w'))"

definition Aggregator_ReadOperation :: "'w Reader list \<Rightarrow> 'w Reader" where
  "Aggregator_ReadOperation readers c operationID w =
     (if operationID = [] then (Inl [OperationErr OperationUnavailable], w)
      else if c = None then (Inl [ContextCanceled], w)
      else aggregate c operationID readers None w)"

section \<open>The lifecycle family\<close>

text \<open>The conversions between string types keep the string.\<close>

fun lifecycle_type :: "OperationType \<Rightarrow> ViewType" where
  "lifecycle_type OperationCreate = TypeCreate"
| "lifecycle_type OperationExtendLease = TypeExtendLease"
| "lifecycle_type OperationSuspend = TypeSuspend"
| "lifecycle_type OperationResume = TypeResume"
| "lifecycle_type OperationTerminate = TypeTerminate"
| "lifecycle_type (OperationTypeUnknown s) = OtherType s"

fun lifecycle_status :: "OperationState \<Rightarrow> ViewStatus" where
  "lifecycle_status OperationAccepted = StatusAccepted"
| "lifecycle_status OperationRunning = StatusRunning"
| "lifecycle_status OperationSucceeded = StatusSucceeded"
| "lifecycle_status OperationFailed = StatusFailed"
| "lifecycle_status OperationCancelled = StatusCancelled"
| "lifecycle_status OperationOutcomeUnknown = StatusOutcomeUnknown"
| "lifecycle_status (OperationStateUnknown s) = OtherViewStatus s"

fun lifecycle_outcome :: "FailureOutcome \<Rightarrow> string" where
  "lifecycle_outcome FailureKnown = ''known_failed''"
| "lifecycle_outcome FailureUnknown = ''outcome_unknown''"
| "lifecycle_outcome (FailureOutcomeOther s) = s"

definition lifecycle_view :: "Operation \<Rightarrow> View" where
  "lifecycle_view p =
     \<lparr>vw_OperationID = op_ID p, vw_AttemptID = op_AttemptID p, vw_FencingToken = sint (op_FencingToken p),
      vw_SandboxID = op_SandboxID p, vw_Type = lifecycle_type (op_Type p), vw_Status = lifecycle_status (op_State p),
      vw_ProviderOperationID = op_ID p, vw_ResultReference = [], vw_ObservedAt = op_ObservedAt p,
      vw_Failure = map_option (\<lambda>f. \<lparr>vf_Code = fl_Code f, vf_Retryable = fl_Retryable f,
        vf_Outcome = lifecycle_outcome (fl_Outcome f)\<rparr>) (op_Failure p)\<rparr>"

definition LifecycleReader_ReadOperation ::
    "(ctx option \<Rightarrow> string \<Rightarrow> 'w \<Rightarrow> (error + Operation) \<times> 'w) \<Rightarrow> 'w Reader" where
  "LifecycleReader_ReadOperation reader c operationID w =
     (case reader c operationID w of
        (Inl e, w') \<Rightarrow> (Inl (if errors_is e ErrNotFound then [OperationErr OperationNotFound] else e), w')
      | (Inr p, w') \<Rightarrow>
          (case Operation_Validate p of
             Some e \<Rightarrow> (Inl (OperationErr OperationUnavailable # e), w')
           | None \<Rightarrow> (Inr (lifecycle_view p), w')))"

section \<open>Properties\<close>

text \<open>Readers that all miss, and the world after them.\<close>

fun all_miss :: "ctx option \<Rightarrow> string \<Rightarrow> 'w Reader list \<Rightarrow> 'w \<Rightarrow> 'w option" where
  "all_miss c i [] w = Some w"
| "all_miss c i (reader # readers) w =
     (case reader c i w of
        (Inl e, w') \<Rightarrow> if errors_is e (OperationErr OperationNotFound) then all_miss c i readers w' else None
      | (Inr _, _) \<Rightarrow> None)"

lemma aggregate_found: "aggregate c i readers (Some v) w = (Inr u, w') \<longleftrightarrow> u = v \<and> all_miss c i readers w = Some w'"
  by (induction readers arbitrary: w) (auto split: prod.splits sum.splits option.splits)

lemma aggregate_none:
  "aggregate c i readers None w = (Inr v, w') \<longleftrightarrow>
     (\<exists>before reader after w\<^sub>1 w\<^sub>2. readers = before @ reader # after \<and> all_miss c i before w = Some w\<^sub>1 \<and>
        reader c i w\<^sub>1 = (Inr v, w\<^sub>2) \<and> View_Validate v = None \<and> vw_OperationID v = i \<and> all_miss c i after w\<^sub>2 = Some w')"
    (is "_ \<longleftrightarrow> ?split readers w")
proof (induction readers arbitrary: w)
  case (Cons reader readers)
  have "?split (reader # readers) w \<longleftrightarrow>
      (\<exists>w\<^sub>2. reader c i w = (Inr v, w\<^sub>2) \<and> View_Validate v = None \<and> vw_OperationID v = i \<and> all_miss c i readers w\<^sub>2 = Some w') \<or>
      (\<exists>e w\<^sub>1. reader c i w = (Inl e, w\<^sub>1) \<and> errors_is e (OperationErr OperationNotFound) \<and> ?split readers w\<^sub>1)"
    (is "_ \<longleftrightarrow> ?here \<or> ?later")
  proof
    assume "?split (reader # readers) w"
    then obtain before r after w\<^sub>1 w\<^sub>2 where h: "reader # readers = before @ r # after" "all_miss c i before w = Some w\<^sub>1"
      "r c i w\<^sub>1 = (Inr v, w\<^sub>2)" "View_Validate v = None" "vw_OperationID v = i" "all_miss c i after w\<^sub>2 = Some w'"
      by blast
    show "?here \<or> ?later"
    proof (cases before)
      case Nil
      with h show ?thesis by simp
    next
      case (Cons b bs)
      with h(2) h(1) obtain e u where "reader c i w = (Inl e, u)" "errors_is e (OperationErr OperationNotFound)"
        "all_miss c i bs u = Some w\<^sub>1"
        by (auto split: prod.splits sum.splits if_splits)
      moreover from this(3) h Cons have "?split readers u" by (intro exI [of _ bs] exI [of _ r] exI [of _ after]) auto
      ultimately show ?thesis by blast
    qed
  next
    assume "?here \<or> ?later"
    then show "?split (reader # readers) w"
    proof
      assume ?here
      then obtain w\<^sub>2 where "reader c i w = (Inr v, w\<^sub>2)" "View_Validate v = None" "vw_OperationID v = i" "all_miss c i readers w\<^sub>2 = Some w'"
        by blast
      then show ?thesis by (intro exI [of _ "[]"] exI [of _ reader] exI [of _ readers]) auto
    next
      assume ?later
      then obtain e u before r after w\<^sub>1 w\<^sub>2 where "reader c i w = (Inl e, u)" "errors_is e (OperationErr OperationNotFound)"
        "readers = before @ r # after" "all_miss c i before u = Some w\<^sub>1" "r c i w\<^sub>1 = (Inr v, w\<^sub>2)" "View_Validate v = None"
        "vw_OperationID v = i" "all_miss c i after w\<^sub>2 = Some w'"
        by blast
      then show ?thesis by (intro exI [of _ "reader # before"] exI [of _ r] exI [of _ after]) auto
    qed
  qed
  moreover have "aggregate c i (reader # readers) None w = (Inr v, w') \<longleftrightarrow> ?here \<or> ?later"
    using Cons by (auto simp: aggregate_found split: prod.splits sum.splits option.splits)
  ultimately show ?case by simp
qed simp

text \<open>
  C35. An operation is reported exactly when one family owns it. The aggregated read returns a view if and only
  if one of the readers returned it, valid and under the operation asked for, and every other reader missed. A
  second owner, an error, an invalid view or another operation's view is never passed on as an answer.
\<close>

theorem operation_has_one_owner:
  "Aggregator_ReadOperation readers c i w = (Inr v, w') \<longleftrightarrow>
     i \<noteq> [] \<and> c \<noteq> None \<and>
     (\<exists>before reader after w\<^sub>1 w\<^sub>2. readers = before @ reader # after \<and> all_miss c i before w = Some w\<^sub>1 \<and>
        reader c i w\<^sub>1 = (Inr v, w\<^sub>2) \<and> View_Validate v = None \<and> vw_OperationID v = i \<and> all_miss c i after w\<^sub>2 = Some w')"
  unfolding aggregate_none [symmetric] by (simp add: Aggregator_ReadOperation_def)

lemma positive_token:
  fixes t :: u64
  assumes "t \<noteq> 0"
  shows "1 \<le> sint t \<longleftrightarrow> uint t < 2 ^ 63"
proof
  assume "1 \<le> sint t"
  then have "uint t = sint t" using sint_lt [of t] by (simp add: uint_sint take_bit_int_eq_self)
  then show "uint t < 2 ^ 63" using sint_lt [of t] by simp
next
  assume "uint t < 2 ^ 63"
  then have "signed_take_bit 63 (uint t) = uint t"
    by (intro signed_take_bit_int_eq_self) (use uint_ge_0 [of t] in linarith)+
  then have "sint t = uint t" by (simp add: sint_uint)
  moreover have "uint t \<noteq> 0" using assms by (simp add: uint_0_iff)
  ultimately show "1 \<le> sint t" using uint_ge_0 [of t] by linarith
qed

text \<open>
  C36. A lifecycle operation can be read exactly while its token fits a signed integer. The lifecycle accepts
  every 64-bit token; the view holds a signed one, so a valid operation has a valid view if and only if its
  token is below \<open>2 ^ 63\<close>. Above that the read fails for as long as the operation exists.
\<close>

theorem lifecycle_view_bounds:
  assumes "Operation_Validate p = None"
  shows "View_Validate (lifecycle_view p) = None \<longleftrightarrow> uint (op_FencingToken p) < 2 ^ 63"
proof -
  have p: "identifierPattern (op_ID p)" "identifierPattern (op_AttemptID p)" "identifierPattern (op_SandboxID p)"
    "OperationType_valid (op_Type p)" "OperationState_valid (op_State p)" "op_ObservedAt p \<noteq> 0" "op_FencingToken p \<noteq> 0"
    "failure_ok (op_State p) (op_Failure p)"
    using assms by (simp_all add: Operation_Validate_None)
  have "ViewType_known (lifecycle_type (op_Type p))" "ViewStatus_known (lifecycle_status (op_State p))"
    using p(4,5) by (cases "op_Type p"; simp) (cases "op_State p"; use p(5) in simp)
  moreover have "op_Failure p \<noteq> None \<Longrightarrow> lifecycle_status (op_State p) = StatusFailed \<or> lifecycle_status (op_State p) = StatusOutcomeUnknown"
    using p(8) by (auto simp: failure_ok_def split: option.splits)
  moreover have "op_ID p \<noteq> []" "op_AttemptID p \<noteq> []" "op_SandboxID p \<noteq> []"
    using p(1-3) by (auto simp: identifierPattern_def)
  ultimately have "View_Validate (lifecycle_view p) = None \<longleftrightarrow> 1 \<le> sint (op_FencingToken p)"
    using p(6) by (auto simp: View_Validate_def lifecycle_view_def)
  also have "\<dots> \<longleftrightarrow> uint (op_FencingToken p) < 2 ^ 63" using p(7) by (rule positive_token)
  finally show ?thesis .
qed

text \<open>Operations with the greatest token that can be read, and the next one.\<close>

definition operation_token :: "u64 \<Rightarrow> Operation" where
  "operation_token t =
     \<lparr>op_ID = ''op'', op_AttemptID = ''at'', op_FencingToken = t, op_SandboxID = ''sbx'', op_Type = OperationTerminate,
      op_State = OperationAccepted, op_Deadline = 9, op_ObservedAt = 1, op_CancelRequested = False, op_Failure = None,
      op_IdempotencyKey = [], op_RequestDigest = []\<rparr>"

theorem lifecycle_view_bounds_witness:
  "View_Validate (lifecycle_view (operation_token (2 ^ 63 - 1))) = None \<and>
   View_Validate (lifecycle_view (operation_token (2 ^ 63))) \<noteq> None"
proof -
  have "Operation_Validate (operation_token t) = None" if "t \<noteq> 0" for t
    using that by (simp add: Operation_Validate_def operation_token_def ValidateIdentifier_def identifierPattern_def
        identifier_char_def upper_def lower_def digit_def byte_def is_zero_time_def)
  from lifecycle_view_bounds [OF this] show ?thesis by (simp add: operation_token_def)
qed

end
