(* ===== verification/Exec_Application.thy ===== *)
theory Exec_Application
  imports Exec_Coordinator Provider_Operation
begin

text \<open>
  The exec application (\<^verbatim>\<open>src/provider/exec/application/vertical.go\<close>): it checks the sandbox's authority, calls
  the coordinator and reports views of operations. The sandbox reader and the support check are interfaces; what
  they answer is a parameter, a function of the moment and the question. The application's clock is read by tick,
  like the coordinator's. The direct dispatch of \<^verbatim>\<open>application.go\<close> is modelled as well.
\<close>

section \<open>The application\<close>

record 'r Vertical =
  ve_Coordinator :: "'r ExecCoordinator"
  ve_Sandboxes :: "nat \<Rightarrow> string \<Rightarrow> error + Sandbox"
  ve_Support :: "(nat \<Rightarrow> Request \<Rightarrow> error option) option"

definition NewVerticalWithSupport :: "bool \<Rightarrow> 'r Vertical \<Rightarrow> error + 'r Vertical" where
  "NewVerticalWithSupport complete a = (if \<not> complete then Inl [ExecErr ExecInvalidApplication] else Inr a)"

definition terminalPersistenceTimeout :: int where
  "terminalPersistenceTimeout = 5 * nanos_per_second"

abbreviation ve_now :: "'r Vertical \<Rightarrow> (time \<Rightarrow> ('r, 'b) exec_call) \<Rightarrow> ('r, 'b) exec_call" where
  "ve_now a \<equiv> clock_now (xc_Env (ve_Coordinator a))"

text \<open>A question to an oracle: time passes.\<close>

definition ask :: "(nat \<Rightarrow> 'a) \<Rightarrow> ('a \<Rightarrow> ('r, 'b) exec_call) \<Rightarrow> ('r, 'b) exec_call" where
  "ask answer k w = k (answer (w_Tick w)) (w\<lparr>w_Tick := Suc (w_Tick w)\<rparr>)"

definition terminal_context :: "'r Vertical \<Rightarrow> (ctx option \<Rightarrow> ('r, 'b) exec_call) \<Rightarrow> ('r, 'b) exec_call" where
  "terminal_context a k w =
     k (Some (with_timeout (en_Timer (xc_Env (ve_Coordinator a)) (w_Tick w)) (\<lambda>_. None) (w_Tick w) terminalPersistenceTimeout)) w"

section \<open>Views\<close>

fun terminal_status :: "ResultStatus \<Rightarrow> ViewStatus \<Rightarrow> ViewStatus" where
  "terminal_status ResultCompleted _ = StatusSucceeded"
| "terminal_status ResultFailed _ = StatusFailed"
| "terminal_status ResultCancelled _ = StatusCancelled"
| "terminal_status ResultOutcomeUnknown _ = StatusOutcomeUnknown"
| "terminal_status (OtherStatus _) status = status"

fun outcome_string :: "ErrorOutcome \<Rightarrow> string" where
  "outcome_string ErrorOutcomeKnown = ''known_failed''"
| "outcome_string ErrorOutcomeUnknown = ''outcome_unknown''"
| "outcome_string (OtherOutcome s) = s"

definition execution_projection :: "ExecutionRecord \<Rightarrow> View" where
  "execution_projection r =
     (let view = \<lparr>vw_OperationID = rq_OperationID (xr_Request r), vw_AttemptID = rq_AttemptID (xr_Request r),
          vw_FencingToken = rq_FencingToken (xr_Request r), vw_SandboxID = rq_SandboxID (xr_Request r), vw_Type = TypeExec,
          vw_Status = StatusAccepted, vw_ProviderOperationID = rq_OperationID (xr_Request r),
          vw_ResultReference = ''ref:exec/'' @ rq_OperationID (xr_Request r) @ ''/result'',
          vw_ObservedAt = xr_ReservedAt r, vw_Failure = None\<rparr>;
        view = (if xr_Attached r then view\<lparr>vw_Status := StatusRunning, vw_ObservedAt := di_AcceptedAt (xr_Dispatch r)\<rparr> else view)
      in case xr_Terminal r of
           None \<Rightarrow> view
         | Some t \<Rightarrow> view\<lparr>vw_ObservedAt := ts_CompletedAt t, vw_Status := terminal_status (ts_Status t) (vw_Status view),
             vw_Failure := map_option (\<lambda>e. \<lparr>vf_Code = er_Code e, vf_Retryable = er_Retryable e,
               vf_Outcome = outcome_string (er_Outcome e)\<rparr>) (ts_Error t)\<rparr>)"

definition executionView :: "ExecutionRecord \<Rightarrow> error + View" where
  "executionView r =
     (if rq_OperationID (xr_Request r) = [] \<or> xr_ReservedAt r = 0 then Inl [OperationErr OperationInvalidView]
      else unless_err (View_Validate (execution_projection r)) (Inr (execution_projection r)))"

definition cancellationView :: "CancellationReservation \<Rightarrow> CancellationStatus \<Rightarrow> error + View" where
  "cancellationView v status =
     (let view = \<lparr>vw_OperationID = ci_OperationID (cv_Intent v), vw_AttemptID = ci_AttemptID (cv_Intent v),
          vw_FencingToken = ci_FencingToken (cv_Intent v), vw_SandboxID = ci_SandboxID (cv_Intent v), vw_Type = TypeCancelExec,
          vw_Status = (if status = CancellationConfirmed then StatusSucceeded else StatusAccepted),
          vw_ProviderOperationID = ci_OperationID (cv_Intent v), vw_ResultReference = [],
          vw_ObservedAt = cv_ReservedAt v, vw_Failure = None\<rparr>
      in unless_err (View_Validate view) (Inr view))"

definition knownDispatchFailure :: ResultOutcome where
  "knownDispatchFailure =
     \<lparr>ou_Status = ResultFailed, ou_ExitCode = None, ou_Signal = [], ou_StdoutReference = [], ou_StderrReference = [],
      ou_Error = Some \<lparr>er_Code = ''SANDBOX_EXEC_FAILED'', er_Message = ''execution could not be started'',
        er_Retryable = False, er_Outcome = ErrorOutcomeKnown\<rparr>\<rparr>"

definition unknownDispatchFailure :: ResultOutcome where
  "unknownDispatchFailure =
     \<lparr>ou_Status = ResultOutcomeUnknown, ou_ExitCode = None, ou_Signal = [], ou_StdoutReference = [], ou_StderrReference = [],
      ou_Error = Some \<lparr>er_Code = ''SANDBOX_EXEC_OUTCOME_UNKNOWN'', er_Message = ''execution outcome requires reconciliation'',
        er_Retryable = True, er_Outcome = ErrorOutcomeUnknown\<rparr>\<rparr>"

section \<open>Authority\<close>

definition sandbox_authority :: "string \<Rightarrow> int \<Rightarrow> time \<Rightarrow> Sandbox \<Rightarrow> error option" where
  "sandbox_authority sandboxID expectedGeneration now sb = first_err
     [fail_if (sb_ID sb \<noteq> sandboxID \<or> uint (sb_Generation sb) > 2 ^ 63 - 1 \<or> uint (sb_Generation sb) \<noteq> expectedGeneration)
        [ErrGenerationConflict],
      fail_if (sb_DesiredState sb \<noteq> DesiredReady \<or> sb_ObservedState sb \<noteq> ObservedReady \<or>
        sb_ObservedGeneration sb \<noteq> sb_Generation sb) [ExecErr ExecSandboxNotReady],
      fail_if (\<not> now < sb_LeaseExpiresAt sb) [ExecErr ExecSandboxExpired]]"

definition checkSandbox ::
    "'r Vertical \<Rightarrow> string \<Rightarrow> int \<Rightarrow> (error option \<Rightarrow> ('r, 'b) exec_call) \<Rightarrow> ('r, 'b) exec_call" where
  "checkSandbox a sandboxID expectedGeneration k =
     ask (\<lambda>n. ve_Sandboxes a n sandboxID) (\<lambda>answer.
       case answer of
         Inl e \<Rightarrow> k (Some e)
       | Inr sb \<Rightarrow> ve_now a (\<lambda>now. k (sandbox_authority sandboxID expectedGeneration now sb)))"

definition check_support :: "'r Vertical \<Rightarrow> Request \<Rightarrow> (error option \<Rightarrow> ('r, 'b) exec_call) \<Rightarrow> ('r, 'b) exec_call" where
  "check_support a request k =
     (case ve_Support a of None \<Rightarrow> k None | Some check \<Rightarrow> ask (\<lambda>n. check n request) k)"

section \<open>Operations\<close>

definition expireResult :: "'r Vertical \<Rightarrow> ctx option \<Rightarrow> ExecutionRecord \<Rightarrow> (ExecutionRecord option \<Rightarrow> error option \<Rightarrow> ('r, 'b) exec_call) \<Rightarrow> ('r, 'b) exec_call" where
  "expireResult a c r k =
     (case xr_Result r of
        None \<Rightarrow> k (Some r) None
      | Some result \<Rightarrow>
          ve_now a (\<lambda>now.
            if now < re_RetainedUntil result then k (Some r) None
            else ve_now a (\<lambda>later.
              after_call (exec_GetResult (ve_Coordinator a) c (rq_OperationID (xr_Request r)) later) (\<lambda>_ err.
                case err of
                  Some e \<Rightarrow>
                    if \<not> errors_is e (ExecErr ExecExpired) then k None (Some e)
                    else after_call (exec_GetExecution (ve_Coordinator a) c (rq_OperationID (xr_Request r))) k
                | None \<Rightarrow> after_call (exec_GetExecution (ve_Coordinator a) c (rq_OperationID (xr_Request r))) k))))"

text \<open>The unknown outcome that is recorded when the runtime does not know an execution.\<close>

definition store_unknown :: "'r Vertical \<Rightarrow> string \<Rightarrow> time \<Rightarrow> (ExecResult option \<Rightarrow> error option \<Rightarrow> ('r, 'b) exec_call) \<Rightarrow> ('r, 'b) exec_call" where
  "store_unknown a i reservedAt k =
     terminal_context a (\<lambda>writeCtx. ve_now a (\<lambda>now.
       after_call (StoreOutcome (ve_Coordinator a) writeCtx i reservedAt now unknownDispatchFailure) k))"

definition reconcileExecutionView :: "'r Vertical \<Rightarrow> ctx option \<Rightarrow> ExecutionRecord \<Rightarrow> ('r, View) exec_call" where
  "reconcileExecutionView a c record =
     expireResult a c record (\<lambda>r err.
       case (err, r) of
         (Some e, _) \<Rightarrow> return_err e
       | (None, None) \<Rightarrow> return_err [OperationErr OperationInvalidView]
       | (None, Some r) \<Rightarrow>
           if xr_Result r = None \<and> \<not> xr_ResultExpired r
           then after_call (exec_Reconcile (ve_Coordinator a) c (rq_OperationID (xr_Request r))) (\<lambda>reconciled err.
             case err of
               None \<Rightarrow> (case reconciled of None \<Rightarrow> return_err [OperationErr OperationInvalidView]
                        | Some r' \<Rightarrow> or_return (executionView r') return)
             | Some e \<Rightarrow>
                 if errors_is e (ExecErr ExecExecutionNotFound)
                 then store_unknown a (rq_OperationID (xr_Request r)) (xr_ReservedAt r) (\<lambda>_ err.
                   case err of
                     Some e \<Rightarrow> return_err e
                   | None \<Rightarrow>
                       after_call (exec_GetExecution (ve_Coordinator a) c (rq_OperationID (xr_Request r))) (\<lambda>r' err.
                         case (err, r') of
                           (Some e, _) \<Rightarrow> return_err e
                         | (None, None) \<Rightarrow> return_err [OperationErr OperationInvalidView]
                         | (None, Some r') \<Rightarrow> or_return (executionView r') return))
                 else return_err e)
           else or_return (executionView r) return)"

definition acceptExecReplay :: "'r Vertical \<Rightarrow> ctx option \<Rightarrow> Request \<Rightarrow> ExecutionRecord \<Rightarrow> ('r, View) exec_call" where
  "acceptExecReplay a c request existing =
     after_call (exec_Start (ve_Coordinator a) c request) (\<lambda>reservation err.
       case (err, reservation) of
         (Some e, _) \<Rightarrow> return_err e
       | (None, None) \<Rightarrow> return_err [ExecErr ExecConflict]
       | (None, Some v) \<Rightarrow>
           if \<not> ev_Replayed v \<or> rq_OperationID (xr_Request (ev_Execution v)) \<noteq> rq_OperationID (xr_Request existing)
           then return_err [ExecErr ExecConflict]
           else reconcileExecutionView a c (ev_Execution v))"

text \<open>A dispatch that failed after the reservation is recorded as failed or unknown before it is reported.\<close>

definition dispatch_failed :: "'r Vertical \<Rightarrow> Request \<Rightarrow> ExecutionReservation \<Rightarrow> error \<Rightarrow> ('r, View) exec_call" where
  "dispatch_failed a request v dispatchErr =
     terminal_context a (\<lambda>writeCtx. ve_now a (\<lambda>now.
       after_call (StoreOutcome (ve_Coordinator a) writeCtx (rq_OperationID request) (xr_ReservedAt (ev_Execution v)) now
           (if errors_is dispatchErr (ExecErr ExecDispatchUnknown) then unknownDispatchFailure else knownDispatchFailure)) (\<lambda>_ err.
         case err of
           Some storeErr \<Rightarrow> return_err (dispatchErr @ storeErr)
         | None \<Rightarrow>
             after_call (exec_GetExecution (ve_Coordinator a) live (rq_OperationID request)) (\<lambda>r err.
               case (err, r) of
                 (Some readErr, _) \<Rightarrow> return_err (dispatchErr @ readErr)
               | (None, None) \<Rightarrow> return_err [OperationErr OperationInvalidView]
               | (None, Some r) \<Rightarrow> or_return (executionView r) return))))"

definition start_and_view :: "'r Vertical \<Rightarrow> ctx option \<Rightarrow> Request \<Rightarrow> ('r, View) exec_call" where
  "start_and_view a c request =
     after_call (exec_Start (ve_Coordinator a) c request) (\<lambda>reservation err.
       case (err, reservation) of
         (Some e, None) \<Rightarrow> return_err e
       | (Some e, Some v) \<Rightarrow>
           if rq_OperationID (xr_Request (ev_Execution v)) \<noteq> [] then dispatch_failed a request v e else return_err e
       | (None, None) \<Rightarrow> return_err [OperationErr OperationInvalidView]
       | (None, Some v) \<Rightarrow> or_return (executionView (ev_Execution v)) return)"

definition AcceptExec :: "'r Vertical \<Rightarrow> ctx option \<Rightarrow> Request \<Rightarrow> ('r, View) exec_call" where
  "AcceptExec a c request =
     poll c (\<lambda>err. case err of Some e \<Rightarrow> return_err e | None \<Rightarrow>
       ve_now a (\<lambda>now. case Request_Validate request now of Some e \<Rightarrow> return_err e | None \<Rightarrow>
         after_call (exec_GetExecution (ve_Coordinator a) c (rq_OperationID request)) (\<lambda>existing err.
           case (err, existing) of
             (None, Some r) \<Rightarrow> acceptExecReplay a c request r
           | (None, None) \<Rightarrow> return_err [OperationErr OperationInvalidView]
           | (Some e, _) \<Rightarrow>
               if \<not> errors_is e (ExecErr ExecNotFound) then return_err e
               else check_support a request (\<lambda>err. case err of Some e \<Rightarrow> return_err e | None \<Rightarrow>
                 checkSandbox a (rq_SandboxID request) (rq_ExpectedGeneration request) (\<lambda>err.
                   case err of Some e \<Rightarrow> return_err e | None \<Rightarrow> start_and_view a c request)))))"

definition cancel_and_view :: "'r Vertical \<Rightarrow> ctx option \<Rightarrow> CancellationIntent \<Rightarrow> ('r, View) exec_call" where
  "cancel_and_view a c intent =
     after_call (exec_Cancel (ve_Coordinator a) c intent) (\<lambda>result err.
       case (err, result) of
         (Some e, _) \<Rightarrow> return_err e
       | (None, None) \<Rightarrow> return_err [OperationErr OperationInvalidView]
       | (None, Some x) \<Rightarrow> or_return (cancellationView (cx_Reservation x) (cx_Status x)) return)"

definition cancel_live :: "'r Vertical \<Rightarrow> ctx option \<Rightarrow> CancellationIntent \<Rightarrow> ('r, View) exec_call" where
  "cancel_live a c intent =
     after_call (exec_Reconcile (ve_Coordinator a) c (ci_TargetOperationID intent)) (\<lambda>target err.
       case err of
         Some e \<Rightarrow>
           if errors_is e (ExecErr ExecExecutionNotFound)
           then store_unknown a (case target of None \<Rightarrow> [] | Some r \<Rightarrow> rq_OperationID (xr_Request r))
               (case target of None \<Rightarrow> 0 | Some r \<Rightarrow> xr_ReservedAt r) (\<lambda>_ err.
                 case err of Some e \<Rightarrow> return_err e | None \<Rightarrow> return_err [ExecErr ExecAlreadyExists])
           else return_err e
       | None \<Rightarrow>
           (case target of
              None \<Rightarrow> return_err [OperationErr OperationInvalidView]
            | Some r \<Rightarrow>
                if xr_Terminal r \<noteq> None then return_err [ExecErr ExecAlreadyExists] else cancel_and_view a c intent))"

definition AcceptCancellation :: "'r Vertical \<Rightarrow> ctx option \<Rightarrow> CancellationIntent \<Rightarrow> ('r, View) exec_call" where
  "AcceptCancellation a c intent =
     poll c (\<lambda>err. case err of Some e \<Rightarrow> return_err e | None \<Rightarrow>
       ve_now a (\<lambda>now. case CancellationIntent_Validate intent now of Some e \<Rightarrow> return_err e | None \<Rightarrow>
         after_call (exec_GetCancellationReservation (ve_Coordinator a) c (ci_OperationID intent)) (\<lambda>_ err.
           case err of
             None \<Rightarrow> cancel_and_view a c intent
           | Some e \<Rightarrow>
               if \<not> errors_is e (ExecErr ExecNotFound) then return_err e
               else checkSandbox a (ci_SandboxID intent) (ci_ExpectedGeneration intent) (\<lambda>err.
                 case err of Some e \<Rightarrow> return_err e | None \<Rightarrow>
                   after_call (exec_GetExecution (ve_Coordinator a) c (ci_TargetOperationID intent)) (\<lambda>target err.
                     case (err, target) of
                       (Some e, _) \<Rightarrow> return_err e
                     | (None, None) \<Rightarrow> return_err [OperationErr OperationInvalidView]
                     | (None, Some target) \<Rightarrow>
                         expireResult a c target (\<lambda>target err.
                           case (err, target) of
                             (Some e, _) \<Rightarrow> return_err e
                           | (None, None) \<Rightarrow> return_err [OperationErr OperationInvalidView]
                           | (None, Some target) \<Rightarrow>
                               if xr_Terminal target \<noteq> None then return_err [ExecErr ExecAlreadyExists]
                               else cancel_live a c intent))))))"

definition Vertical_GetResult :: "'r Vertical \<Rightarrow> ctx option \<Rightarrow> string \<Rightarrow> ('r, ExecResult) exec_call" where
  "Vertical_GetResult a c i =
     poll c (\<lambda>err. case err of Some e \<Rightarrow> return_err e | None \<Rightarrow>
       after_call (exec_Reconcile (ve_Coordinator a) c i) (\<lambda>_ err.
         case err of
           None \<Rightarrow> ve_now a (\<lambda>now. exec_GetResult (ve_Coordinator a) c i now)
         | Some e \<Rightarrow>
             if errors_is e (ExecErr ExecExecutionNotFound)
             then after_call (exec_GetExecution (ve_Coordinator a) c i) (\<lambda>r err.
               case (err, r) of
                 (Some e, _) \<Rightarrow> return_err e
               | (None, None) \<Rightarrow> return_err [OperationErr OperationInvalidView]
               | (None, Some r) \<Rightarrow>
                   store_unknown a i (xr_ReservedAt r) (\<lambda>_ err.
                     case err of Some e \<Rightarrow> return_err e
                     | None \<Rightarrow> ve_now a (\<lambda>now. exec_GetResult (ve_Coordinator a) c i now)))
             else return_err e))"

text \<open>Reading an operation: an execution is reconciled first, a cancellation is read off its target.\<close>

definition read_execution :: "'r Vertical \<Rightarrow> ctx option \<Rightarrow> string \<Rightarrow> ExecutionRecord \<Rightarrow> ('r, View) exec_call" where
  "read_execution a c i execution =
     expireResult a c execution (\<lambda>r err.
       case (err, r) of
         (Some e, _) \<Rightarrow> return_err e
       | (None, None) \<Rightarrow> return_err [OperationErr OperationInvalidView]
       | (None, Some r) \<Rightarrow>
           if xr_Result r = None \<and> \<not> xr_ResultExpired r
           then after_call (exec_Reconcile (ve_Coordinator a) c i) (\<lambda>reconciled err.
             case err of
               None \<Rightarrow> (case reconciled of None \<Rightarrow> return_err [OperationErr OperationInvalidView]
                        | Some r' \<Rightarrow> or_return (executionView r') return)
             | Some e \<Rightarrow>
                 if errors_is e (ExecErr ExecExecutionNotFound)
                 then store_unknown a i (xr_ReservedAt r) (\<lambda>result err.
                   case (err, result) of
                     (Some e, _) \<Rightarrow> return_err e
                   | (None, None) \<Rightarrow> return_err [ExecErr ExecInvalidResult]
                   | (None, Some x) \<Rightarrow>
                       or_return (NewTerminalSummary x) (\<lambda>terminal.
                         or_return (executionView (r\<lparr>xr_Result := Some x, xr_Terminal := Some terminal\<rparr>)) return))
                 else return_err e)
           else or_return (executionView r) return)"

definition read_cancellation :: "'r Vertical \<Rightarrow> ctx option \<Rightarrow> CancellationReservation \<Rightarrow> ('r, View) exec_call" where
  "read_cancellation a c v =
     after_call (exec_GetExecution (ve_Coordinator a) c (ci_TargetOperationID (cv_Intent v))) (\<lambda>target err.
       case (err, target) of
         (Some e, _) \<Rightarrow> return_err e
       | (None, None) \<Rightarrow> return_err [OperationErr OperationInvalidView]
       | (None, Some target) \<Rightarrow>
           expireResult a c target (\<lambda>target err.
             case (err, target) of
               (Some e, _) \<Rightarrow> return_err e
             | (None, None) \<Rightarrow> return_err [OperationErr OperationInvalidView]
             | (None, Some target) \<Rightarrow>
                 or_return (cancellationView v
                   (if (case xr_Terminal target of None \<Rightarrow> False | Some t \<Rightarrow> ts_Status t = ResultCancelled)
                    then CancellationConfirmed else CancellationPending)) return))"

definition Vertical_ReadOperation :: "'r Vertical \<Rightarrow> ctx option \<Rightarrow> string \<Rightarrow> ('r, View) exec_call" where
  "Vertical_ReadOperation a c i =
     poll c (\<lambda>err. case err of Some e \<Rightarrow> return_err e | None \<Rightarrow>
       after_call (exec_GetExecution (ve_Coordinator a) c i) (\<lambda>execution executionErr.
         after_call (exec_GetCancellationReservation (ve_Coordinator a) c i) (\<lambda>cancellation cancellationErr.
           case (executionErr, cancellationErr) of
             (None, None) \<Rightarrow> return_err [OperationErr OperationConflict]
           | (None, Some _) \<Rightarrow>
               (case execution of None \<Rightarrow> return_err [OperationErr OperationInvalidView]
                | Some r \<Rightarrow> read_execution a c i r)
           | (Some _, None) \<Rightarrow>
               (case cancellation of None \<Rightarrow> return_err [OperationErr OperationInvalidView]
                | Some v \<Rightarrow> read_cancellation a c v)
           | (Some e, Some e') \<Rightarrow>
               if \<not> errors_is e (ExecErr ExecNotFound) then return_err e
               else if \<not> errors_is e' (ExecErr ExecNotFound) then return_err e'
               else return_err [OperationErr OperationNotFound])))"

definition Vertical_Recover :: "'r Vertical \<Rightarrow> ctx option \<Rightarrow> ('r, unit) exec_call" where
  "Vertical_Recover a c =
     poll c (\<lambda>err. case err of Some e \<Rightarrow> return_err e | None \<Rightarrow>
       after_call (exec_Recover (ve_Coordinator a) c) (\<lambda>_ err. case err of Some e \<Rightarrow> return_err e | None \<Rightarrow> return ()))"

section \<open>Direct dispatch\<close>

text \<open>\<^verbatim>\<open>application.go\<close>: a dispatch that nothing is recorded of.\<close>

definition Application_Start :: "'r ExecCoordinator \<Rightarrow> ctx option \<Rightarrow> Request \<Rightarrow> ('r, Dispatch) exec_call" where
  "Application_Start co c request =
     (if c = None then return_err [ContextCanceled]
      else clock_now (xc_Env co) (\<lambda>now.
        case Request_Validate request now of Some e \<Rightarrow> return_err e | None \<Rightarrow>
          with_deadline co c (rq_Deadline request) (\<lambda>operationContext.
            poll operationContext (\<lambda>err. case err of Some e \<Rightarrow> return_err e | None \<Rightarrow>
              runtime (StartCall \<lparr>iv_Request = request, iv_StartedAt = now\<rparr>)
                (\<lambda>n. ru_Executor (xc_Runtime co) n \<lparr>iv_Request = request, iv_StartedAt = now\<rparr>) (\<lambda>answer.
                case answer of
                  Inl e \<Rightarrow> return_err (if errors_is e ContextCanceled \<or> errors_is e ContextDeadlineExceeded
                    then [ExecErr ExecDispatchUnknown] else e)
                | Inr reference \<Rightarrow>
                    let dispatch = \<lparr>di_ExecutionReference = reference, di_AcceptedAt = now\<rparr>
                    in if Dispatch_Validate dispatch \<noteq> None then return_err [ExecErr ExecInvalidDispatch]
                       else return dispatch)))))"

section \<open>The application is a client of the coordinator\<close>

definition serves :: "'r ExecCoordinator \<Rightarrow> ('r, 'a) exec_call \<Rightarrow> bool" where
  "serves co m \<longleftrightarrow> (\<forall>w. exec_served co (\<lambda>_ _. False) w (snd (m w)))"

lemma exec_served_trans:
  "exec_served co reopens v w \<Longrightarrow> exec_served co reopens u v \<Longrightarrow> exec_served co reopens u w"
  by (induction rule: exec_served.induct) (auto intro: exec_served.intros)

lemma exec_served_mono: "exec_served co (\<lambda>_ _. False) u v \<Longrightarrow> exec_served co reopens u v"
  by (induction rule: exec_served.induct) (auto intro: exec_served.intros)

named_theorems serves_intros

lemma serves_return [serves_intros]: "serves co (return x)" "serves co (return_err e)" "serves co (return_both x e)"
  by (simp_all add: serves_def return_def return_err_def return_both_def exec_served.none)

lemma serves_or_return [serves_intros]: "(\<And>x. serves co (k x)) \<Longrightarrow> serves co (or_return r k)"
  by (cases r) (simp_all add: serves_def or_return_def return_err_def exec_served.none)

lemma serves_if [serves_intros]: "serves co f \<Longrightarrow> serves co g \<Longrightarrow> serves co (if b then f else g)"
  by simp

lemma serves_option [serves_intros]:
  "serves co f \<Longrightarrow> (\<And>y. serves co (g y)) \<Longrightarrow> serves co (case x of None \<Rightarrow> f | Some y \<Rightarrow> g y)"
  by (simp split: option.split)

lemma serves_sum [serves_intros]:
  "(\<And>e. serves co (f e)) \<Longrightarrow> (\<And>y. serves co (g y)) \<Longrightarrow> serves co (case x of Inl e \<Rightarrow> f e | Inr y \<Rightarrow> g y)"
  by (simp split: sum.split)

lemma serves_tick:
  assumes "\<And>w. \<exists>x n. m w = k x (w\<lparr>w_Tick := n\<rparr>)" and "\<And>x. serves co (k x)"
  shows "serves co m"
  unfolding serves_def
proof
  fix w
  obtain x n where "m w = k x (w\<lparr>w_Tick := n\<rparr>)" using assms(1) by blast
  moreover have "exec_served co (\<lambda>_ _. False) (w\<lparr>w_Tick := n\<rparr>) (snd (k x (w\<lparr>w_Tick := n\<rparr>)))"
    using assms(2) by (simp add: serves_def)
  ultimately show "exec_served co (\<lambda>_ _. False) w (snd (m w))"
    using exec_served_trans exec_served.time [OF exec_served.none] by metis
qed

lemma serves_poll [serves_intros]: "(\<And>x. serves co (k x)) \<Longrightarrow> serves co (poll c k)"
  by (rule serves_tick [of _ k]) (auto simp: poll_def)

lemma serves_clock [serves_intros]: "(\<And>x. serves co (k x)) \<Longrightarrow> serves co (clock_now env k)"
  by (rule serves_tick [of _ k]) (auto simp: clock_now_def)

lemma serves_ask [serves_intros]: "(\<And>x. serves co (k x)) \<Longrightarrow> serves co (ask answer k)"
  by (rule serves_tick [of _ k]) (auto simp: ask_def)

lemma serves_terminal_context [serves_intros]: "(\<And>x. serves co (k x)) \<Longrightarrow> serves co (terminal_context a k)"
  by (simp add: serves_def terminal_context_def)

lemma serves_after_call [serves_intros]:
  assumes "serves co m" and "\<And>x e. serves co (k x e)"
  shows "serves co (after_call m k)"
  unfolding serves_def
proof
  fix w
  obtain x e w' where m: "m w = ((x, e), w')" by (metis surj_pair)
  have "exec_served co (\<lambda>_ _. False) w w'" using assms(1) m unfolding serves_def by (metis snd_conv)
  moreover have "exec_served co (\<lambda>_ _. False) w' (snd (k x e w'))" using assms(2) by (simp add: serves_def)
  ultimately show "exec_served co (\<lambda>_ _. False) w (snd (after_call m k w))"
    using exec_served_trans by (fastforce simp: after_call_def m)
qed

lemma serves_calls [serves_intros]:
  "serves co (exec_Start co c q)" "serves co (exec_GetExecution co c i)" "serves co (exec_GetCancellationReservation co c i)"
  "serves co (exec_GetResult co c i t)" "serves co (StoreOutcome co c i t u x)" "serves co (exec_Reconcile co c i)"
  "serves co (exec_Recover co c)" "serves co (exec_Cancel co c intent)"
  unfolding serves_def by (blast intro: exec_served.intros)+

lemmas vertical_defs = AcceptExec_def AcceptCancellation_def Vertical_GetResult_def Vertical_ReadOperation_def Vertical_Recover_def
  start_and_view_def dispatch_failed_def acceptExecReplay_def reconcileExecutionView_def cancel_and_view_def cancel_live_def
  read_execution_def read_cancellation_def expireResult_def store_unknown_def checkSandbox_def check_support_def prod.case

lemma vertical_serves:
  "serves (ve_Coordinator a) (AcceptExec a c request)" "serves (ve_Coordinator a) (AcceptCancellation a c intent)"
  "serves (ve_Coordinator a) (Vertical_GetResult a c i)" "serves (ve_Coordinator a) (Vertical_ReadOperation a c i)"
  "serves (ve_Coordinator a) (Vertical_Recover a c)"
  unfolding vertical_defs by (intro serves_intros)+

section \<open>Only a sandbox with authority is given a process\<close>

lemma leads_ask [leads_intros]: "(\<And>x. leads sound view P Q (k x)) \<Longrightarrow> leads sound view P Q (ask answer k)"
  by (simp add: leads_def ask_def)

lemma leads_terminal_context [leads_intros]:
  "(\<And>x. leads sound view P Q (k x)) \<Longrightarrow> leads sound view P Q (terminal_context a k)"
  by (simp add: leads_def terminal_context_def)

lemma GetExecution_tick: "w_Tick w \<le> w_Tick (snd (exec_GetExecution co c i w))"
  by (simp add: exec_GetExecution_def poll_def read_or_return_def repo_read_def repo_write_def or_return_def return_def return_err_def
      split: option.split sum.split)

text \<open>A call that starts a process went through the check of the sandbox, at a later moment of the same call.\<close>

definition sandbox_seen :: "'r Vertical \<Rightarrow> Request \<Rightarrow> nat \<Rightarrow> bool" where
  "sandbox_seen a request t \<longleftrightarrow>
     (\<exists>n m sb. t \<le> n \<and> n \<le> m \<and> ve_Sandboxes a n (rq_SandboxID request) = Inr sb \<and>
        sandbox_authority (rq_SandboxID request) (rq_ExpectedGeneration request) (en_Clock (xc_Env (ve_Coordinator a)) m) sb = None)"

lemma unseen_checkSandbox:
  assumes "\<not> sandbox_seen a request t" and "t \<le> w_Tick w"
  shows "\<exists>e w'. checkSandbox a (rq_SandboxID request) (rq_ExpectedGeneration request) k w = k (Some e) w' \<and> w_Driver w' = w_Driver w"
proof (cases "ve_Sandboxes a (w_Tick w) (rq_SandboxID request)")
  case (Inr sb)
  with assms have "sandbox_authority (rq_SandboxID request) (rq_ExpectedGeneration request)
      (en_Clock (xc_Env (ve_Coordinator a)) (Suc (w_Tick w))) sb \<noteq> None"
    unfolding sandbox_seen_def by (metis le_SucI order_refl)
  with Inr show ?thesis by (force simp: checkSandbox_def ask_def clock_now_def)
qed (force simp: checkSandbox_def ask_def)

lemma unseen_check_support:
  assumes "\<not> sandbox_seen a request t" and "t \<le> w_Tick w"
  shows "w_Driver (snd (check_support a request (\<lambda>err. case err of Some e \<Rightarrow> return_err e | None \<Rightarrow>
    checkSandbox a (rq_SandboxID request) (rq_ExpectedGeneration request) (\<lambda>err.
      case err of Some e \<Rightarrow> return_err e | None \<Rightarrow> k)) w)) = w_Driver w"
proof -
  have "w_Driver (snd (checkSandbox a (rq_SandboxID request) (rq_ExpectedGeneration request) (\<lambda>err.
      case err of Some e \<Rightarrow> return_err e | None \<Rightarrow> k) u)) = w_Driver u" if "t \<le> w_Tick u" for u
    using unseen_checkSandbox [OF assms(1) that, of "\<lambda>err. case err of Some e \<Rightarrow> return_err e | None \<Rightarrow> k"]
    by (auto simp: return_err_def)
  with assms(2) show ?thesis
    by (simp add: check_support_def ask_def return_err_def split: option.split)
qed

context exec_repository
begin

lemma leads_reconcile_view:
  assumes "exec_others sound view (ve_Coordinator a)" and "xc_Repository (ve_Coordinator a) = port" and "steady P"
  shows "leads sound view P P (reconcileExecutionView a c r)"
  unfolding reconcileExecutionView_def expireResult_def store_unknown_def prod.case
  by (intro leads_intros leads_calls assms)

lemma leads_replay:
  assumes "exec_others sound view (ve_Coordinator a)" and "xc_Repository (ve_Coordinator a) = port" and "i = rq_OperationID request"
  defines "P \<equiv> \<lambda>n s trace. i |\<in>| executions s \<and> starts i trace = n"
  shows "leads sound view (P n) (P n) (acceptExecReplay a c request r)"
  unfolding acceptExecReplay_def prod.case P_def
  by (intro leads_intros leads_reconcile_view leads_Start_held steady_held assms)

text \<open>What follows the start of an execution in its request starts nothing more.\<close>

lemma starts_view:
  assumes "exec_others sound view (ve_Coordinator a)" and "xc_Repository (ve_Coordinator a) = port"
    and "sound (w_Repository (snd (exec_Start (ve_Coordinator a) c request w)))"
  shows "starts i (w_Driver (snd (start_and_view a c request w))) = starts i (w_Driver (snd (exec_Start (ve_Coordinator a) c request w)))"
proof -
  obtain x e u where u: "exec_Start (ve_Coordinator a) c request w = ((x, e), u)" by (metis surj_pair)
  have "leads sound view (\<lambda>_ trace. starts i trace = starts i (w_Driver u)) (\<lambda>_ trace. starts i trace = starts i (w_Driver u))
      (dispatch_failed a request v d)" for v d
    unfolding dispatch_failed_def prod.case by (intro leads_intros leads_calls assms(1,2) steady_starts)
  then have "starts i (w_Driver (snd (dispatch_failed a request v d u))) = starts i (w_Driver u)" for v d
    using assms(3) u unfolding leads_def by simp
  with u show ?thesis
    by (auto simp: start_and_view_def after_call_def return_err_def or_return_def return_def split: option.split sum.split)
qed

lemma GetExecution_held:
  assumes "exec_GetExecution co c i w = ((Some r, None), w')" and "xc_Repository co = port"
  shows "i |\<in>| executions (view (w_Repository w'))"
proof -
  have "\<exists>c. xo_GetExecution port c i (w_Repository w') = Inr r"
    using assms
    by (auto simp: exec_GetExecution_def poll_def read_or_return_def repo_read_def repo_write_def or_return_def return_def
        return_err_def split: option.splits sum.splits)
  then have "GetExecution i (view (w_Repository w')) = Inr r" using GetExecution_law unfolding exec_reads_def by blast
  then show ?thesis by (auto simp: GetExecution_def executions_def intro: fmdomI split: option.splits)
qed

lemma unseen_not_started:
  assumes "exec_others sound view (ve_Coordinator a)" and "xc_Repository (ve_Coordinator a) = port"
    and "sound (w_Repository w)" and "i = rq_OperationID request" and "\<not> sandbox_seen a request (w_Tick w)"
  shows "starts i (w_Driver (snd (AcceptExec a c request w))) = starts i (w_Driver w)"
proof -
  let ?u = "w\<lparr>w_Tick := Suc (Suc (w_Tick w))\<rparr>"
  obtain x e v where v: "exec_GetExecution (ve_Coordinator a) c i ?u = ((x, e), v)" by (metis surj_pair)
  have sound: "sound (w_Repository v)" and same: "starts i (w_Driver v) = starts i (w_Driver w)"
    using leads_queries(1) [OF assms(1) steady_starts [of i "starts i (w_Driver w)"], of c i] assms(3) v
    unfolding leads_def by (metis (no_types, lifting) World.select_convs World.surjective World.update_convs snd_conv)+
  have tick: "w_Tick w \<le> w_Tick v" using GetExecution_tick [of ?u "ve_Coordinator a" c i] v by simp
  have replay: "starts i (w_Driver (snd (acceptExecReplay a c request r v))) = starts i (w_Driver v)"
    if "x = Some r" "e = None" for r
    using leads_replay [OF assms(1,2,4), of "starts i (w_Driver v)" c r] GetExecution_held [OF v [unfolded that] assms(2)] sound
    unfolding leads_def by blast
  note checked = unseen_check_support [OF assms(5) tick, of "start_and_view a c request"]
  show ?thesis
    using v same replay checked
    by (auto simp: AcceptExec_def poll_def clock_now_def after_call_def return_err_def assms(4) split: option.split)
qed

end

section \<open>What a view needs\<close>

lemma result_reference:
  assumes "identifierPattern i"
  shows "resultReferencePattern (''ref:exec/'' @ i @ ''/result'')"
proof -
  have "length i \<le> 200" "list_all (\<lambda>d. alphanumeric d \<or> d \<in> set ''._:/-'') i"
    using identifier_length [OF assms] identifier_chars [OF assms]
    by (auto simp: MaxIdentifierLength_def list_all_iff identifier_char_def alphanumeric_def)
  then show ?thesis
    by (simp add: resultReferencePattern_def prefixed_def alphanumeric_def upper_def lower_def digit_def byte_def)
qed

lemma terminal_known: "ViewStatus_known status \<Longrightarrow> ViewStatus_known (terminal_status x status)"
  by (cases x) simp_all

section \<open>Samples\<close>

definition exec_sandbox1 :: Sandbox where
  "exec_sandbox1 =
     \<lparr>sb_ID = ''sbx'', sb_TenantID = ''t'', sb_WorkOrderID = ''w'', sb_WorkspaceID = ''ws'', sb_ProviderRevisionID = ''rev'',
      sb_RuntimeProfile = ''shell'', sb_Network = \<lparr>np_Mode = NetworkNone, np_PolicyReference = [], np_EgressGatewayRequired = False\<rparr>,
      sb_SandboxSlotKey = ''slot'', sb_DesiredState = DesiredReady, sb_ObservedState = ObservedReady, sb_Generation = 1,
      sb_ObservedGeneration = 1, sb_LeaseExpiresAt = 9000, sb_CreatedAt = 100, sb_UpdatedAt = 100\<rparr>"

definition vertical1 :: "ExecFile Vertical" where
  "vertical1 = \<lparr>ve_Coordinator = exec_co1, ve_Sandboxes = (\<lambda>_ _. Inr exec_sandbox1), ve_Support = None\<rparr>"

lemma vertical1_simps [simp]:
  "ve_Coordinator vertical1 = exec_co1" "ve_Support vertical1 = None" "ve_Sandboxes vertical1 n i = Inr exec_sandbox1"
  by (simp_all add: vertical1_def)

lemma accept1_check:
  "AcceptExec vertical1 live request1 (exec_world1 Exec_NewState) =
     start_and_view vertical1 live request1 ((exec_world1 Exec_NewState)\<lparr>w_Tick := 10\<rparr>)"
  using request1_valid
  by (simp add: AcceptExec_def exec_run after_call_def exec_GetExecution_def read_or_return_def check_support_def checkSandbox_def
      ask_def sandbox_authority_def exec_sandbox1_def exec_co1_def exec_world1_def exec_file1_def ExecFile_GetExecution_def
      GetExecution_def Exec_NewState_def return_err_def errors_is_def request1_def)

definition result_with_error :: ExecResult where
  "result_with_error = result1\<lparr>re_Error := Some \<lparr>er_Code = ''E10'', er_Message = ''m'', er_Retryable = False, er_Outcome = ErrorOutcomeKnown\<rparr>\<rparr>"

lemma store_with_error: "\<exists>s r. StoreResult result_with_error exec_state1 = Inr s \<and> GetExecution ''op1'' s = Inr r \<and>
    xr_Terminal r = Some (summary1\<lparr>ts_Error := re_Error result_with_error\<rparr>)"
proof -
  have "fmlookup (xs_Executions exec_state1) ''op1'' = Some (new_record request1 100 [dispatch1])"
    by (simp add: exec_state1_def admitted_state_def request1_def)
  moreover have valid: "Result_Validate result_with_error = None"
    by (simp add: Result_Validate_def result_with_error_def result1_def exec_eval optional_reference_def error_valid_def
        unknown_explained_def nanos_per_second_def resultCodePattern_def)
  moreover have "NewTerminalSummary result_with_error = Inr (summary1\<lparr>ts_Error := re_Error result_with_error\<rparr>)"
    using valid by (simp add: NewTerminalSummary_def summary1_def result1_def result_with_error_def)
  ultimately show ?thesis
    by (simp add: StoreResult_def GetExecution_def new_record_def request1_def) (simp add: result_with_error_def result1_def)
qed

section \<open>Properties\<close>


text \<open>
  C5. A process is started only in a sandbox that is ready. When a request makes the executor start its operation,
  the sandbox was read during this very call and was the one of the request, at the generation the request
  expects, wanted and observed ready at that generation, and its lease had not expired at a clock reading taken
  after the read. Replays and recoveries start nothing.
\<close>

theorem exec_needs_authority:
  assumes "starts (rq_OperationID request) (w_Driver (snd (AcceptExec a c request w))) \<noteq> starts (rq_OperationID request) (w_Driver w)"
    and "xc_Repository (ve_Coordinator a) = exec_file_port" and "exec_others exec_durable file_State (ve_Coordinator a)"
    and "exec_durable (w_Repository w)"
  shows "\<exists>n m sb. w_Tick w \<le> n \<and> n \<le> m \<and> ve_Sandboxes a n (rq_SandboxID request) = Inr sb \<and>
    sb_ID sb = rq_SandboxID request \<and> uint (sb_Generation sb) = rq_ExpectedGeneration request \<and>
    sb_DesiredState sb = DesiredReady \<and> sb_ObservedState sb = ObservedReady \<and> sb_ObservedGeneration sb = sb_Generation sb \<and>
    en_Clock (xc_Env (ve_Coordinator a)) m < sb_LeaseExpiresAt sb"
proof -
  have "sandbox_seen a request (w_Tick w)"
    using exec_file.unseen_not_started [OF assms(3,2,4)] assms(1) by blast
  then show ?thesis unfolding sandbox_seen_def sandbox_authority_def by (auto split: if_splits)
qed

theorem exec_needs_authority_witness:
  "starts ''op1'' (w_Driver (snd (AcceptExec vertical1 live request1 (exec_world1 Exec_NewState)))) = 1 \<and>
   (\<exists>sb. ve_Sandboxes vertical1 0 ''sbx'' = Inr sb \<and> sb_ObservedState sb = ObservedReady)"
proof -
  let ?w = "exec_world1 Exec_NewState"
  have w: "exec_durable (w_Repository ?w)" using exec_world1_durable [OF exec_inv_NewState] .
  have co: "xc_Repository exec_co1 = exec_file_port" "w_Driver ?w = []" by (simp_all add: exec_co1_def exec_world1_def)
  have "exec_served exec_co1 exec_reopens ?w (snd (exec_Start exec_co1 live request1 (?w\<lparr>w_Tick := 10\<rparr>)))"
    by (intro exec_served.intros)
  then have "exec_durable (w_Repository (snd (exec_Start exec_co1 live request1 (?w\<lparr>w_Tick := 10\<rparr>))))"
    using exec_file.served_once [OF _ exec_co1_others co(1) w co(2)] by blast
  then have one: "starts ''op1'' (w_Driver (snd (AcceptExec vertical1 live request1 ?w))) = 1"
    using exec_file.starts_view [of vertical1 live request1 "?w\<lparr>w_Tick := 10\<rparr>" "''op1''"] exec_co1_others co(1) exec_start1 [of 10]
    by (simp add: accept1_check) (simp add: request1_def)
  have "rq_OperationID request1 = ''op1''" "rq_SandboxID request1 = ''sbx''" by (simp_all add: request1_def)
  with exec_needs_authority [of request1 vertical1 live ?w] one w co exec_co1_others show ?thesis by auto
qed

text \<open>
  C37. Which executions can be reported. A recorded execution has a valid view exactly when no failure is recorded
  with it, or it is recorded as failed or as unknown. A completed or a cancelled execution may be recorded with
  an error: the result's validation allows it, the view's refuses it, so such an operation is accepted and
  stored, and every later read of it fails.
\<close>

theorem execution_readable:
  assumes "exec_inv s" and "GetExecution i s = Inr r"
  shows "(\<exists>v. executionView r = Inr v) \<longleftrightarrow>
    (case xr_Terminal r of None \<Rightarrow> True
     | Some t \<Rightarrow> ts_Error t = None \<or> ts_Status t = ResultFailed \<or> ts_Status t = ResultOutcomeUnknown)"
proof -
  let ?v = "execution_projection r"
  have r: "record_ok r" using assms by (auto simp: GetExecution_def dest: exec_inv_recordD split: option.splits)
  then have q: "identifierPattern (rq_OperationID (xr_Request r))" "identifierPattern (rq_AttemptID (xr_Request r))"
    "identifierPattern (rq_SandboxID (xr_Request r))" "1 \<le> rq_FencingToken (xr_Request r)" "xr_ReservedAt r \<noteq> 0"
    by (auto simp: record_ok_def validPersistedRequest_def Request_Validate_def split: if_splits)
  have reference: "resultReferencePattern (vw_ResultReference ?v)" using result_reference [OF q(1)]
    by (simp add: execution_projection_def Let_def split: option.split)
  have observed: "vw_ObservedAt ?v \<noteq> 0"
    using r by (auto simp: execution_projection_def Let_def record_ok_def Dispatch_Validate_def TerminalSummary_Validate_def
        split: option.split if_splits)
  have known: "ViewStatus_known (vw_Status ?v)" "ViewType_known (vw_Type ?v)"
    by (auto simp: execution_projection_def Let_def intro: terminal_known split: option.split)
  have "(\<exists>v. executionView r = Inr v) \<longleftrightarrow> View_Validate ?v = None"
    using q identifier_nonempty by (auto simp: executionView_def split: option.splits)
  also have "\<dots> \<longleftrightarrow> vw_Failure ?v = None \<or> vw_Status ?v = StatusFailed \<or> vw_Status ?v = StatusOutcomeUnknown"
    using reference observed known q identifier_nonempty
    by (auto simp: View_Validate_def execution_projection_def Let_def split: option.splits)
  also have "\<dots> \<longleftrightarrow> (case xr_Terminal r of None \<Rightarrow> True
     | Some t \<Rightarrow> ts_Error t = None \<or> ts_Status t = ResultFailed \<or> ts_Status t = ResultOutcomeUnknown)"
    using r by (auto simp: execution_projection_def Let_def record_ok_def TerminalSummary_Validate_def
        elim!: terminal_status.elims split: option.splits)
  finally show ?thesis .
qed

theorem execution_readable_witness:
  "(\<exists>v. executionView record1 = Inr v) \<and>
   (\<exists>s r. StoreResult result_with_error exec_state1 = Inr s \<and> GetExecution ''op1'' s = Inr r \<and> (\<nexists>v. executionView r = Inr v))"
proof -
  obtain s r where s: "StoreResult result_with_error exec_state1 = Inr s" "GetExecution ''op1'' s = Inr r"
    "xr_Terminal r = Some (summary1\<lparr>ts_Error := re_Error result_with_error\<rparr>)"
    using store_with_error by blast
  have "exec_inv exec_state1" using ReserveExecutionAt_inv [OF exec_admit1 exec_inv_NewState] .
  with s(1) have "exec_inv s" by (rule StoreResult_inv)
  then have "\<nexists>v. executionView r = Inr v"
    using execution_readable [OF _ s(2)] s(3) by (simp add: summary1_def result_with_error_def)
  moreover have "exec_inv exec_state2" using exec_evolves_inv [OF exec_state2_reachable exec_inv_NewState] .
  then have "\<exists>v. executionView record1 = Inr v"
    using execution_readable [of exec_state2 "''op1''" record1] exec_state2_record
    by (simp add: GetExecution_def record1_def summary1_def)
  ultimately show ?thesis using s by blast
qed

end
