(* ===== verification/Usage_Evidence.thy ===== *)
theory Usage_Evidence
  imports Exec_Model Go_File
begin

text \<open>
  Usage evidence: its values and validation (\<^verbatim>\<open>src/provider/usage/model.go\<close>), the aggregation over families
  (\<^verbatim>\<open>port.go\<close>), and the two stores (\<^verbatim>\<open>memory/repository.go\<close>, \<^verbatim>\<open>repository/file/repository.go\<close>), with
  the contract they share. A store reads its clock once in a call; the reading is an argument. The patterns of the
  package are those of the lifecycle and the exec packages.
\<close>

section \<open>Values\<close>

datatype Meter =
    MeterWallTime | MeterCPU | MeterMemory | MeterNetworkIngress | MeterNetworkEgress | MeterStorageRead
  | MeterStorageWrite | MeterWorkspacePeak | MeterExecCount | MeterBrowserSession | MeterDesktopSession
  | OtherMeter string

datatype MeterSource = SourcePlatform | SourceRuntime | SourceReconciled | OtherSource string

datatype ReconciliationStatus =
  ReconciliationComplete | ReconciliationPartial | ReconciliationUnknown | OtherReconciliation string

record Entry =
  ue_EntryID :: string
  ue_SandboxID :: string
  ue_OperationID :: string
  ue_Meter :: Meter
  ue_Quantity :: int
  ue_Unit :: string
  ue_MeterSource :: MeterSource
  ue_EvidenceReference :: string
  ue_OccurredAt :: time

record Evidence =
  us_EvidenceID :: string
  us_SandboxID :: string
  us_OperationID :: string
  us_AttemptID :: string
  us_FencingToken :: int
  us_Entries :: "Entry list"
  us_ReconciliationStatus :: ReconciliationStatus
  us_ObservedAt :: time
  us_RetainedUntil :: time
  us_EvidenceDigest :: string

definition MaxEntries :: nat where "MaxEntries = 16"

fun meterUnit :: "Meter \<Rightarrow> string option" where
  "meterUnit MeterWallTime = Some ''milliseconds''"
| "meterUnit MeterBrowserSession = Some ''milliseconds''"
| "meterUnit MeterDesktopSession = Some ''milliseconds''"
| "meterUnit MeterCPU = Some ''nanoseconds''"
| "meterUnit MeterMemory = Some ''byte-milliseconds''"
| "meterUnit MeterNetworkIngress = Some ''bytes''"
| "meterUnit MeterNetworkEgress = Some ''bytes''"
| "meterUnit MeterStorageRead = Some ''bytes''"
| "meterUnit MeterStorageWrite = Some ''bytes''"
| "meterUnit MeterWorkspacePeak = Some ''bytes''"
| "meterUnit MeterExecCount = Some ''count''"
| "meterUnit (OtherMeter _) = None"

definition Entry_Validate :: "Entry \<Rightarrow> error option" where
  "Entry_Validate e = first_err
     [fail_if (\<not> identifierPattern (ue_EntryID e) \<or> \<not> identifierPattern (ue_SandboxID e) \<or>
        ue_OperationID e \<noteq> [] \<and> \<not> identifierPattern (ue_OperationID e) \<or> ue_Quantity e < 0 \<or>
        \<not> referencePattern (ue_EvidenceReference e) \<or> ue_OccurredAt e = 0) [UsageErr UsageInvalidEvidence],
      fail_if (ue_MeterSource e \<noteq> SourcePlatform \<and> ue_MeterSource e \<noteq> SourceRuntime \<and> ue_MeterSource e \<noteq> SourceReconciled)
        [UsageErr UsageInvalidEvidence],
      fail_if (meterUnit (ue_Meter e) \<noteq> Some (ue_Unit e)) [UsageErr UsageInvalidEvidence]]"

definition Evidence_Validate :: "Evidence \<Rightarrow> time \<Rightarrow> error option" where
  "Evidence_Validate e now = first_err
     [fail_if (\<not> identifierPattern (us_EvidenceID e) \<or> \<not> identifierPattern (us_SandboxID e) \<or>
        \<not> identifierPattern (us_OperationID e) \<or> \<not> identifierPattern (us_AttemptID e) \<or> us_FencingToken e < 1 \<or>
        us_Entries e = [] \<or> length (us_Entries e) > MaxEntries \<or> \<not> digestPattern (us_EvidenceDigest e) \<or>
        us_ObservedAt e = 0 \<or> us_RetainedUntil e = 0 \<or> \<not> us_ObservedAt e < us_RetainedUntil e) [UsageErr UsageInvalidEvidence],
      fail_if (us_ReconciliationStatus e \<noteq> ReconciliationComplete \<and> us_ReconciliationStatus e \<noteq> ReconciliationPartial \<and>
        us_ReconciliationStatus e \<noteq> ReconciliationUnknown) [UsageErr UsageInvalidEvidence],
      fail_if (list_ex (\<lambda>x. Entry_Validate x \<noteq> None \<or> ue_SandboxID x \<noteq> us_SandboxID e \<or>
        ue_OperationID x \<noteq> [] \<and> ue_OperationID x \<noteq> us_OperationID e) (us_Entries e)) [UsageErr UsageInvalidEvidence],
      fail_if (\<not> now < us_RetainedUntil e) [UsageErr UsageEvidenceExpired]]"

section \<open>Aggregation\<close>

type_synonym 'w EvidenceReader = "ctx option \<Rightarrow> string \<Rightarrow> time \<Rightarrow> 'w \<Rightarrow> (error + Evidence) \<times> 'w"

fun aggregate_evidence ::
    "ctx option \<Rightarrow> string \<Rightarrow> time \<Rightarrow> 'w EvidenceReader list \<Rightarrow> Evidence option \<Rightarrow> bool \<Rightarrow> 'w \<Rightarrow> (error + Evidence) \<times> 'w" where
  "aggregate_evidence c i now [] found expired w =
     ((case found of
         Some e \<Rightarrow> Inr e
       | None \<Rightarrow> Inl [UsageErr (if expired then UsageEvidenceExpired else UsageEvidenceNotFound)]), w)"
| "aggregate_evidence c i now (reader # readers) found expired w =
     (case reader c i now w of
        (Inl e, w') \<Rightarrow>
          if errors_is e (UsageErr UsageEvidenceNotFound) then aggregate_evidence c i now readers found expired w'
          else if errors_is e (UsageErr UsageEvidenceExpired)
          then (if found \<noteq> None \<or> expired then (Inl [UsageErr UsageEvidenceUnavailable], w')
                else aggregate_evidence c i now readers found True w')
          else (Inl e, w')
      | (Inr x, w') \<Rightarrow>
          if us_OperationID x \<noteq> i \<or> Evidence_Validate x now \<noteq> None \<or> found \<noteq> None \<or> expired
          then (Inl [UsageErr UsageEvidenceUnavailable], w')
          else aggregate_evidence c i now readers (Some x) expired w')"

definition Aggregator_GetEvidence :: "'w EvidenceReader list \<Rightarrow> 'w EvidenceReader" where
  "Aggregator_GetEvidence readers c i now w =
     (if c = None then (Inl [ContextCanceled], w)
      else if i = [] \<or> now = 0 then (Inl [UsageErr UsageEvidenceUnavailable], w)
      else aggregate_evidence c i now readers None False w)"

section \<open>Stores\<close>

record UsageState =
  ut_Values :: "(string, Evidence) fmap"
  ut_Index :: "(string, string) fmap"

definition usage_NewState :: UsageState where
  "usage_NewState = \<lparr>ut_Values = fmempty, ut_Index = fmempty\<rparr>"

text \<open>Whether evidence is new, is there already, or conflicts with what is there.\<close>

datatype placement = Fresh | Present | Conflicting

definition usage_place :: "Evidence \<Rightarrow> UsageState \<Rightarrow> placement" where
  "usage_place e s =
     (case fmlookup (ut_Values s) (us_EvidenceID e) of
        Some previous \<Rightarrow> if previous = e then Present else Conflicting
      | None \<Rightarrow>
          (case fmlookup (ut_Index s) (us_OperationID e) of
             None \<Rightarrow> Fresh
           | Some i \<Rightarrow> if fmlookup (ut_Values s) i = Some e then Present else Conflicting))"

definition usage_insert :: "Evidence \<Rightarrow> UsageState \<Rightarrow> UsageState" where
  "usage_insert e s =
     \<lparr>ut_Values = fmupd (us_EvidenceID e) e (ut_Values s), ut_Index = fmupd (us_OperationID e) (us_EvidenceID e) (ut_Index s)\<rparr>"

definition usage_delete :: "Evidence \<Rightarrow> UsageState \<Rightarrow> UsageState" where
  "usage_delete e s =
     \<lparr>ut_Values = fmdrop (us_EvidenceID e) (ut_Values s), ut_Index = fmdrop (us_OperationID e) (ut_Index s)\<rparr>"

definition usage_find :: "error \<Rightarrow> string \<Rightarrow> time \<Rightarrow> UsageState \<Rightarrow> error + Evidence" where
  "usage_find corrupt operationID now s =
     (case fmlookup (ut_Index s) operationID of
        None \<Rightarrow> Inl [UsageErr UsageEvidenceNotFound]
      | Some i \<Rightarrow>
          (case fmlookup (ut_Values s) i of
             None \<Rightarrow> Inl corrupt
           | Some e \<Rightarrow>
               if us_OperationID e \<noteq> operationID then Inl corrupt
               else if now = 0 \<or> \<not> now < us_RetainedUntil e then Inl [UsageErr UsageEvidenceExpired]
               else Inr e))"

record 'r UsagePort =
  up_Put :: "ctx option \<Rightarrow> time \<Rightarrow> Evidence \<Rightarrow> 'r \<Rightarrow> error option \<times> 'r"
  up_GetEvidence :: "ctx option \<Rightarrow> string \<Rightarrow> time \<Rightarrow> 'r \<Rightarrow> error + Evidence"

subsection \<open>Memory\<close>

record UsageMemory =
  um_State :: UsageState
  um_Closed :: bool

definition UsageMemory_NewRepository :: "bool \<Rightarrow> error + UsageMemory" where
  "UsageMemory_NewRepository clock =
     (if \<not> clock then Inl [ErrOther] else Inr \<lparr>um_State = usage_NewState, um_Closed = False\<rparr>)"

definition UsageMemory_Put :: "ctx option \<Rightarrow> time \<Rightarrow> Evidence \<Rightarrow> UsageMemory \<Rightarrow> error option \<times> UsageMemory" where
  "UsageMemory_Put c now e r =
     (case first_err [contextError c 0, fail_if (um_Closed r) [UsageErr UsageClosed], Evidence_Validate e now] of
        Some err \<Rightarrow> (Some err, r)
      | None \<Rightarrow>
          (case usage_place e (um_State r) of
             Present \<Rightarrow> (None, r)
           | Conflicting \<Rightarrow> (Some [UsageErr UsageConflict], r)
           | Fresh \<Rightarrow> (None, r\<lparr>um_State := usage_insert e (um_State r)\<rparr>)))"

definition UsageMemory_GetEvidence :: "ctx option \<Rightarrow> string \<Rightarrow> time \<Rightarrow> UsageMemory \<Rightarrow> error + Evidence" where
  "UsageMemory_GetEvidence c operationID now r =
     unless_err (first_err [contextError c 0, fail_if (um_Closed r) [UsageErr UsageClosed]])
       (usage_find [UsageErr UsageConflict] operationID now (um_State r))"

text \<open>\<^verbatim>\<open>GetByOperation\<close> and \<^verbatim>\<open>Get\<close> take the time from the clock of the store.\<close>

definition UsageMemory_Get :: "ctx option \<Rightarrow> string \<Rightarrow> time \<Rightarrow> UsageMemory \<Rightarrow> error + Evidence" where
  "UsageMemory_Get c evidenceID now r =
     unless_err (first_err [contextError c 0, fail_if (um_Closed r) [UsageErr UsageClosed]])
       (case fmlookup (ut_Values (um_State r)) evidenceID of
          None \<Rightarrow> Inl [UsageErr UsageEvidenceNotFound]
        | Some e \<Rightarrow> if \<not> now < us_RetainedUntil e then Inl [UsageErr UsageEvidenceExpired] else Inr e)"

definition UsageMemory_GetByOperation :: "ctx option \<Rightarrow> string \<Rightarrow> time \<Rightarrow> UsageMemory \<Rightarrow> error + Evidence" where
  "UsageMemory_GetByOperation c operationID now = UsageMemory_GetEvidence c operationID now"

definition UsageMemory_Close :: "UsageMemory \<Rightarrow> UsageMemory" where
  "UsageMemory_Close r = r\<lparr>um_Closed := True\<rparr>"

definition usage_memory_port :: "UsageMemory UsagePort" where
  "usage_memory_port = \<lparr>up_Put = UsageMemory_Put, up_GetEvidence = UsageMemory_GetEvidence\<rparr>"

subsection \<open>File\<close>

record UsageSnapshot =
  uz_Version :: int
  uz_Evidence :: "Evidence list"

definition usage_snapshotVersion :: int where "usage_snapshotVersion = 1"

definition usage_maxFileSize :: int where "usage_maxFileSize = 2 ^ 25"

text \<open>The values come out of the map in any order and are sorted by operation, which no two share.\<close>

definition usage_export :: "UsageState \<Rightarrow> UsageSnapshot" where
  "usage_export s = \<lparr>uz_Version = usage_snapshotVersion, uz_Evidence = sort_key us_OperationID (fmvals (ut_Values s))\<rparr>"

definition usage_load_evidence :: "Evidence \<Rightarrow> UsageState \<Rightarrow> error + UsageState" where
  "usage_load_evidence e s =
     unless_err (first_err
       [fail_if (Evidence_Validate e (us_ObservedAt e) \<noteq> None) [UsageErr UsageCorrupt],
        fail_if (fmlookup (ut_Values s) (us_EvidenceID e) \<noteq> None) [UsageErr UsageCorrupt],
        fail_if (fmlookup (ut_Index s) (us_OperationID e) \<noteq> None) [UsageErr UsageCorrupt]])
      (Inr (usage_insert e s))"

definition usage_import :: "UsageSnapshot \<Rightarrow> error + UsageState" where
  "usage_import z =
     (if uz_Version z \<noteq> usage_snapshotVersion then Inl [UsageErr UsageCorrupt]
      else fold_res usage_load_evidence (uz_Evidence z) usage_NewState)"

definition usage_format :: "(UsageState, UsageSnapshot) FileFormat" where
  "usage_format =
     \<lparr>ff_NewState = usage_NewState, ff_Export = usage_export, ff_Import = usage_import, ff_MaxFileSize = usage_maxFileSize,
      ff_MakesDirectory = False, ff_ErrClosed = [UsageErr UsageClosed], ff_ErrDurability = [UsageErr UsageDurability],
      ff_ErrCorrupt = [UsageErr UsageCorrupt], ff_ErrStat = [UsageErr UsageCorrupt], ff_ImportError = (\<lambda>e. e)\<rparr>"

type_synonym UsageFile = "(UsageState, UsageSnapshot) FileStore"

definition usage_persist :: "ctx option \<Rightarrow> UsageFile \<Rightarrow> (bool \<times> error option) \<times> UsageFile" where
  "usage_persist c = store_persist usage_format c 1"

definition UsageFile_Put :: "ctx option \<Rightarrow> time \<Rightarrow> Evidence \<Rightarrow> UsageFile \<Rightarrow> error option \<times> UsageFile" where
  "UsageFile_Put c now e r =
     (case first_err [contextError c 0, fail_if (file_Closed r) [UsageErr UsageClosed], Evidence_Validate e now] of
        Some err \<Rightarrow> (Some err, r)
      | None \<Rightarrow>
          (case usage_place e (file_State r) of
             Present \<Rightarrow> (None, r)
           | Conflicting \<Rightarrow> (Some [UsageErr UsageConflict], r)
           | Fresh \<Rightarrow>
               (case usage_persist c (r\<lparr>file_State := usage_insert e (file_State r)\<rparr>) of
                  ((_, None), r') \<Rightarrow> (None, r')
                | ((committed, Some err), r') \<Rightarrow>
                    (Some err, if committed then r' else r'\<lparr>file_State := usage_delete e (file_State r')\<rparr>))))"

definition UsageFile_GetEvidence :: "ctx option \<Rightarrow> string \<Rightarrow> time \<Rightarrow> UsageFile \<Rightarrow> error + Evidence" where
  "UsageFile_GetEvidence c operationID now = store_read usage_format c 0 (usage_find [UsageErr UsageCorrupt] operationID now)"

definition UsageFile_Close :: "UsageFile \<Rightarrow> error option \<times> UsageFile" where
  "UsageFile_Close = store_close"

definition usage_load :: "LoadEnv \<Rightarrow> UsageFile \<Rightarrow> error + UsageFile" where
  "usage_load = store_load usage_format"

definition UsageFile_NewRepository ::
    "string \<Rightarrow> bool \<Rightarrow> LoadEnv \<Rightarrow> UsageSnapshot DiskFile option \<Rightarrow> (nat \<Rightarrow> UsageSnapshot PersistEnv) \<Rightarrow> bool \<Rightarrow> error + UsageFile" where
  "UsageFile_NewRepository path clock env disk writes release =
     (if \<not> clock then Inl [ErrOther] else store_open usage_format path env disk writes release)"

definition usage_file_port :: "UsageFile UsagePort" where
  "usage_file_port = \<lparr>up_Put = UsageFile_Put, up_GetEvidence = UsageFile_GetEvidence\<rparr>"

section \<open>Saving and loading\<close>

text \<open>Every value is valid, filed under its identifier and indexed by its operation, and the index has nothing else.\<close>

definition usage_inv :: "UsageState \<Rightarrow> bool" where
  "usage_inv s \<longleftrightarrow>
     (\<forall>i e. fmlookup (ut_Values s) i = Some e \<longrightarrow>
        us_EvidenceID e = i \<and> Evidence_Validate e (us_ObservedAt e) = None \<and> fmlookup (ut_Index s) (us_OperationID e) = Some i) \<and>
     (\<forall>p i. fmlookup (ut_Index s) p = Some i \<longrightarrow> (\<exists>e. fmlookup (ut_Values s) i = Some e \<and> us_OperationID e = p))"

lemma usage_inv_NewState: "usage_inv usage_NewState"
  by (simp add: usage_inv_def usage_NewState_def)

lemma usage_invD:
  assumes "usage_inv s"
  shows "fmlookup (ut_Values s) i = Some e \<Longrightarrow> us_EvidenceID e = i"
    and "fmlookup (ut_Values s) i = Some e \<Longrightarrow> Evidence_Validate e (us_ObservedAt e) = None"
    and "fmlookup (ut_Values s) i = Some e \<Longrightarrow> fmlookup (ut_Index s) (us_OperationID e) = Some i"
    and "fmlookup (ut_Index s) p = Some i \<Longrightarrow> \<exists>e. fmlookup (ut_Values s) i = Some e \<and> us_OperationID e = p"
  using assms by (auto simp: usage_inv_def)

lemma usage_load_all:
  assumes "distinct (map us_EvidenceID es)" and "distinct (map us_OperationID es)"
    and "\<forall>e \<in> set es. Evidence_Validate e (us_ObservedAt e) = None \<and>
      fmlookup (ut_Values s) (us_EvidenceID e) = None \<and> fmlookup (ut_Index s) (us_OperationID e) = None"
  shows "fold_res usage_load_evidence es s = Inr (fold usage_insert es s)"
  using assms
proof (induction es arbitrary: s)
  case (Cons e es)
  then have "fold_res usage_load_evidence es (usage_insert e s) = Inr (fold usage_insert es (usage_insert e s))"
    by (intro Cons.IH) (auto simp: usage_insert_def)
  moreover have "usage_load_evidence e s = Inr (usage_insert e s)" using Cons.prems(3) by (simp add: usage_load_evidence_def)
  ultimately show ?case by simp
qed simp

lemma usage_insert_all_values:
  "distinct (map us_EvidenceID es) \<Longrightarrow> fmlookup (ut_Values (fold usage_insert es s)) i = Some e \<longleftrightarrow>
     e \<in> set es \<and> us_EvidenceID e = i \<or> i \<notin> us_EvidenceID ` set es \<and> fmlookup (ut_Values s) i = Some e"
proof (induction es arbitrary: s)
  case (Cons x es)
  then show ?case by (cases "us_EvidenceID x = i") (auto simp: usage_insert_def)
qed simp

lemma usage_insert_all_index:
  "distinct (map us_OperationID es) \<Longrightarrow> fmlookup (ut_Index (fold usage_insert es s)) p = Some i \<longleftrightarrow>
     (\<exists>e \<in> set es. us_OperationID e = p \<and> us_EvidenceID e = i) \<or> p \<notin> us_OperationID ` set es \<and> fmlookup (ut_Index s) p = Some i"
proof (induction es arbitrary: s)
  case (Cons x es)
  then show ?case by (cases "us_OperationID x = p") (auto simp: usage_insert_def)
qed simp

lemma fmap_eqI: "(\<And>k v. fmlookup m k = Some v \<longleftrightarrow> fmlookup n k = Some v) \<Longrightarrow> m = n"
  by (intro fmap_ext) (metis not_None_eq)

lemma fmdrop_fresh: "fmlookup m k = None \<Longrightarrow> fmdrop k (fmupd k v m) = m"
  by (intro fmap_ext) simp

lemma usage_import_export:
  assumes "usage_inv s"
  shows "usage_import (usage_export s) = Inr s"
proof -
  define es where "es = sort_key us_OperationID (fmvals (ut_Values s))"
  define t where "t = fold usage_insert es usage_NewState"
  have es: "e \<in> set es \<longleftrightarrow> fmlookup (ut_Values s) (us_EvidenceID e) = Some e" for e
    using usage_invD(1) [OF assms] by (auto simp: es_def set_fmvals)
  have "distinct (map us_EvidenceID (fmvals (ut_Values s)))"
    by (simp add: map_key_fmvals [OF usage_invD(1) [OF assms]] sorted_list_of_fset.rep_eq)
  then have d: "distinct es" "inj_on us_EvidenceID (set es)" by (simp_all add: distinct_map es_def)
  moreover have "inj_on us_OperationID (set es)"
  proof (rule inj_onI)
    fix x y
    assume x: "x \<in> set es" and y: "y \<in> set es" and same: "us_OperationID x = us_OperationID y"
    have "us_EvidenceID x = us_EvidenceID y" using usage_invD(3) [OF assms x [unfolded es]] usage_invD(3) [OF assms y [unfolded es]] same by simp
    with d(2) show "x = y" using x y by (rule inj_onD)
  qed
  ultimately have dis: "distinct (map us_EvidenceID es)" "distinct (map us_OperationID es)" by (simp_all only: distinct_map)
  have "fold_res usage_load_evidence es usage_NewState = Inr t"
    unfolding t_def by (rule usage_load_all [OF dis]) (use usage_invD(2) [OF assms] es in \<open>auto simp: usage_NewState_def\<close>)
  moreover have "fmlookup (ut_Values t) i = Some e \<longleftrightarrow> fmlookup (ut_Values s) i = Some e" for i e
    unfolding t_def usage_insert_all_values [OF dis(1)] es using usage_invD(1) [OF assms, of i e] by (auto simp: usage_NewState_def)
  moreover have "fmlookup (ut_Index t) p = Some i \<longleftrightarrow> fmlookup (ut_Index s) p = Some i" for p i
  proof -
    have "fmlookup (ut_Index t) p = Some i \<longleftrightarrow>
        (\<exists>e. fmlookup (ut_Values s) (us_EvidenceID e) = Some e \<and> us_OperationID e = p \<and> us_EvidenceID e = i)"
      unfolding t_def usage_insert_all_index [OF dis(2)] Bex_def es by (simp add: usage_NewState_def)
    also have "\<dots> \<longleftrightarrow> fmlookup (ut_Index s) p = Some i"
      using usage_invD(1) [OF assms, of i] usage_invD(3) [OF assms, of i] usage_invD(4) [OF assms, of p i] by auto
    finally show ?thesis .
  qed
  ultimately show ?thesis by (simp add: usage_import_def usage_export_def es_def [symmetric] fmap_eqI UsageState.equality)
qed

section \<open>The contract of a store\<close>

lemma usage_place_Present:
  assumes "usage_inv s"
  shows "usage_place e s = Present \<longleftrightarrow> fmlookup (ut_Values s) (us_EvidenceID e) = Some e"
proof -
  have "us_EvidenceID e = i" if "fmlookup (ut_Values s) i = Some e" for i using usage_invD(1) [OF assms that] .
  then show ?thesis unfolding usage_place_def by (auto split: option.split)
qed

lemma usage_place_Fresh:
  "usage_place e s = Fresh \<longleftrightarrow>
     fmlookup (ut_Values s) (us_EvidenceID e) = None \<and> fmlookup (ut_Index s) (us_OperationID e) = None"
  by (simp add: usage_place_def split: option.split)

lemma Evidence_Validate_observed: "Evidence_Validate e now = None \<Longrightarrow> Evidence_Validate e (us_ObservedAt e) = None"
  by (simp add: Evidence_Validate_def)

lemma usage_insert_inv:
  assumes "usage_inv s" and "usage_place e s = Fresh" and "Evidence_Validate e now = None"
  shows "usage_inv (usage_insert e s)"
  using assms(1,2) Evidence_Validate_observed [OF assms(3)] unfolding usage_place_Fresh
  by (fastforce simp: usage_inv_def usage_insert_def)

lemma usage_delete_insert:
  assumes "usage_inv s" and "usage_place e s = Fresh"
  shows "usage_delete e (usage_insert e s) = s"
  using assms(2) unfolding usage_place_Fresh
  by (cases s) (simp add: usage_delete_def usage_insert_def fmdrop_fresh)

text \<open>
  What a call of \<^verbatim>\<open>Put\<close> may do to the state: nothing, or insert valid evidence that is new. Without an error the
  evidence is in the store afterwards; evidence that is there is accepted unless the store refuses every call.
\<close>

definition put_follows :: "time \<Rightarrow> Evidence \<Rightarrow> error option \<Rightarrow> UsageState \<Rightarrow> UsageState \<Rightarrow> bool" where
  "put_follows now e err s t \<longleftrightarrow>
     (t = s \<or> usage_place e s = Fresh \<and> Evidence_Validate e now = None \<and> t = usage_insert e s) \<and>
     (err = None \<longrightarrow> fmlookup (ut_Values t) (us_EvidenceID e) = Some e)"

locale usage_store =
  fixes port :: "'r UsagePort"
    and view :: "'r \<Rightarrow> UsageState"
    and sound :: "'r \<Rightarrow> bool"
    and reopens :: "'r \<Rightarrow> 'r \<Rightarrow> bool"
  assumes sound_inv: "sound r \<Longrightarrow> usage_inv (view r)"
    and Put_law: "sound r \<Longrightarrow> up_Put port c now e r = (err, r') \<Longrightarrow> sound r' \<and> put_follows now e err (view r) (view r')"
    and Get_law: "up_GetEvidence port c p now r = Inr e \<Longrightarrow> \<exists>corrupt. usage_find corrupt p now (view r) = Inr e"
    and reopen_law: "sound r \<Longrightarrow> reopens r r' \<Longrightarrow> sound r' \<and> view r' = view r"

inductive usage_history :: "'r UsagePort \<Rightarrow> ('r \<Rightarrow> 'r \<Rightarrow> bool) \<Rightarrow> 'r \<Rightarrow> 'r \<Rightarrow> bool" for port reopens r where
  start: "usage_history port reopens r r"
| put: "usage_history port reopens r u \<Longrightarrow> up_Put port c now e u = (err, u') \<Longrightarrow> usage_history port reopens r u'"
| reopen: "usage_history port reopens r u \<Longrightarrow> reopens u u' \<Longrightarrow> usage_history port reopens r u'"

context usage_store
begin

lemma history_keeps:
  assumes "usage_history port reopens r r'" and "sound r"
  shows "sound r' \<and> (\<forall>i e. fmlookup (ut_Values (view r)) i = Some e \<longrightarrow> fmlookup (ut_Values (view r')) i = Some e)"
  using assms(1)
proof induction
  case (put u c now e err u')
  then have u: "sound u" by simp
  have f: "sound u'" "put_follows now e err (view u) (view u')" using Put_law [OF u put.hyps(2)] by simp_all
  then have "fmlookup (ut_Values (view u')) i = Some x" if "fmlookup (ut_Values (view u)) i = Some x" for i x
    using that unfolding put_follows_def usage_place_Fresh by (auto simp: usage_insert_def)
  with f put.IH show ?case by blast
next
  case (reopen u u')
  with reopen_law [of u u'] show ?case by simp
qed (use assms(2) in simp)

lemma evidence_immutable:
  assumes "up_Put port c now e r = (None, r\<^sub>1)" and "sound r" and "usage_history port reopens r\<^sub>1 r\<^sub>2"
  shows "(\<forall>c t x. up_GetEvidence port c (us_OperationID e) t r\<^sub>2 = Inr x \<longrightarrow> x = e \<and> t < us_RetainedUntil e) \<and>
    (\<forall>c t x. fst (up_Put port c t x r\<^sub>2) = None \<and> (us_OperationID x = us_OperationID e \<or> us_EvidenceID x = us_EvidenceID e) \<longrightarrow> x = e)"
proof -
  have r1: "sound r\<^sub>1" "fmlookup (ut_Values (view r\<^sub>1)) (us_EvidenceID e) = Some e"
    using Put_law [OF assms(2,1)] by (simp_all add: put_follows_def)
  note kept = history_keeps [OF _ r1(1)]
  have s2: "sound r\<^sub>2" "fmlookup (ut_Values (view r\<^sub>2)) (us_EvidenceID e) = Some e" using kept [OF assms(3)] r1(2) by blast+
  have ix: "fmlookup (ut_Index (view r\<^sub>2)) (us_OperationID e) = Some (us_EvidenceID e)"
    using usage_invD(3) [OF sound_inv [OF s2(1)] s2(2)] .
  have "x = e \<and> t < us_RetainedUntil e" if "up_GetEvidence port c (us_OperationID e) t r\<^sub>2 = Inr x" for c t x
    using Get_law [OF that] ix s2(2) by (auto simp: usage_find_def split: if_splits)
  moreover have "x = e" if put: "fst (up_Put port c t x r\<^sub>2) = None"
    and same: "us_OperationID x = us_OperationID e \<or> us_EvidenceID x = us_EvidenceID e" for c t x
  proof -
    obtain r\<^sub>3 where r3: "up_Put port c t x r\<^sub>2 = (None, r\<^sub>3)" using put by (metis prod.collapse)
    have s3: "sound r\<^sub>3" "fmlookup (ut_Values (view r\<^sub>3)) (us_EvidenceID x) = Some x"
      using Put_law [OF s2(1) r3] by (simp_all add: put_follows_def)
    moreover have "fmlookup (ut_Values (view r\<^sub>3)) (us_EvidenceID e) = Some e"
      using kept [OF usage_history.put [OF assms(3) r3]] r1(2) by blast
    ultimately show ?thesis using same usage_invD(3) [OF sound_inv [OF s3(1)]] by (metis option.inject)
  qed
  ultimately show ?thesis by blast
qed

end

section \<open>The stores keep the contract\<close>

lemma put_follows_refused: "put_follows now e (Some err) s s"
  by (simp add: put_follows_def)

lemma put_follows_present: "usage_inv s \<Longrightarrow> usage_place e s = Present \<Longrightarrow> put_follows now e None s s"
  by (simp add: put_follows_def usage_place_Present)

lemma put_follows_inserted:
  "usage_place e s = Fresh \<Longrightarrow> Evidence_Validate e now = None \<Longrightarrow> put_follows now e err s (usage_insert e s)"
  by (simp add: put_follows_def usage_insert_def)

lemmas put_follows_intros = put_follows_refused put_follows_present put_follows_inserted

lemma UsageMemory_Put_follows:
  assumes "UsageMemory_Put c now e r = (err, r')" and inv: "usage_inv (um_State r)"
  shows "usage_inv (um_State r') \<and> put_follows now e err (um_State r) (um_State r')"
proof (cases "first_err [contextError c 0, fail_if (um_Closed r) [UsageErr UsageClosed], Evidence_Validate e now]")
  case (Some x)
  then have "err = Some x \<and> r' = r" using assms(1) by (simp add: UsageMemory_Put_def del: first_err.simps)
  with assms(2) show ?thesis by (simp add: put_follows_refused)
next
  case None
  then have "Evidence_Validate e now = None" by simp
  with None assms(1) inv show ?thesis
    by (cases "usage_place e (um_State r)")
      (auto simp: UsageMemory_Put_def intro: put_follows_intros usage_insert_inv)
qed

text \<open>Memory is lost with its process and never reopened.\<close>

interpretation usage_memory: usage_store usage_memory_port um_State "\<lambda>r. usage_inv (um_State r)" "\<lambda>_ _. False"
proof
  fix c now e r err r'
  assume "usage_inv (um_State r)" "up_Put usage_memory_port c now e r = (err, r')"
  then show "usage_inv (um_State r') \<and> put_follows now e err (um_State r) (um_State r')"
    by (intro UsageMemory_Put_follows) (simp_all add: usage_memory_port_def)
next
  fix c p now r e
  assume "up_GetEvidence usage_memory_port c p now r = Inr e"
  then show "\<exists>corrupt. usage_find corrupt p now (um_State r) = Inr e"
    by (intro exI [of _ "[UsageErr UsageConflict]"]) (simp add: usage_memory_port_def UsageMemory_GetEvidence_def)
qed simp_all

lemma usage_format_simps [simp]:
  "ff_NewState usage_format = usage_NewState" "ff_Export usage_format = usage_export" "ff_Import usage_format = usage_import"
  "ff_MaxFileSize usage_format = usage_maxFileSize"
  by (simp_all add: usage_format_def)

interpretation usage_disk: file_format usage_format usage_inv
  by unfold_locales (simp_all add: usage_inv_NewState usage_import_export)

abbreviation usage_durable :: "UsageFile \<Rightarrow> bool" where
  "usage_durable \<equiv> store_durable usage_format usage_inv"

definition usage_reopens :: "UsageFile \<Rightarrow> UsageFile \<Rightarrow> bool" where
  "usage_reopens r r' \<longleftrightarrow> (\<exists>path env writes release. UsageFile_NewRepository path True env (file_Disk r) writes release = Inr r')"

text \<open>A write that is undone by deleting what it inserted leaves the state, and the file, as they were.\<close>

lemma usage_persist_fresh:
  assumes "usage_durable r" and "usage_place e (file_State r) = Fresh" and "Evidence_Validate e now = None"
    and "usage_persist c (r\<lparr>file_State := usage_insert e (file_State r)\<rparr>) = ((committed, err), q)"
  shows "if committed then usage_durable q \<and> file_State q = usage_insert e (file_State r)
    else err \<noteq> None \<and> usage_delete e (file_State q) = file_State r \<and> file_Disk q = file_Disk r"
proof -
  have inv: "usage_inv (file_State r)" using assms(1) by (simp add: store_durable_def)
  note new = usage_insert_inv [OF inv assms(2,3)] and undo = usage_delete_insert [OF inv assms(2)]
  show ?thesis
  proof (cases "store_replace usage_format c 1 (file_Env r (file_Writes r)) (usage_export (usage_insert e (file_State r)))")
    case None
    with assms(4) new store_replace_size [OF None] show ?thesis
      by (auto simp: usage_persist_def store_persist_def store_durable_def stored_def Let_def)
  next
    case (Some x)
    have "committed = False" "err = Some x" "file_Disk q = file_Disk r" "file_State q = usage_insert e (file_State r)"
      using assms(4) by (auto simp: usage_persist_def store_persist_def Let_def Some [simplified])
    with undo show ?thesis by simp
  qed
qed

lemma UsageFile_Put_follows:
  assumes "UsageFile_Put c now e r = (err, r')" and d: "usage_durable r"
  shows "usage_durable r' \<and> put_follows now e err (file_State r) (file_State r')"
proof (cases "first_err [contextError c 0, fail_if (file_Closed r) [UsageErr UsageClosed], Evidence_Validate e now]")
  case (Some x)
  then have "err = Some x \<and> r' = r" using assms(1) by (simp add: UsageFile_Put_def del: first_err.simps)
  with assms(2) show ?thesis by (simp add: put_follows_refused)
next
  case None
  then have valid: "Evidence_Validate e now = None" by simp
  have inv: "usage_inv (file_State r)" using d by (simp add: store_durable_def)
  show ?thesis
  proof (cases "usage_place e (file_State r)")
    case Fresh
    obtain committed x q where q: "usage_persist c (r\<lparr>file_State := usage_insert e (file_State r)\<rparr>) = ((committed, x), q)"
      by (metis surj_pair)
    note cases = usage_persist_fresh [OF d Fresh valid q]
    have r': "(err, r') = (case x of None \<Rightarrow> (None, q)
        | Some y \<Rightarrow> (Some y, if committed then q else q\<lparr>file_State := usage_delete e (file_State q)\<rparr>))"
      using assms(1) None Fresh q by (cases x) (auto simp: UsageFile_Put_def)
    from cases r' d put_follows_inserted [OF Fresh valid] show ?thesis
      by (cases x; cases committed) (auto simp: store_durable_def put_follows_refused)
  qed (use assms None inv d in \<open>auto simp: UsageFile_Put_def intro: put_follows_intros\<close>)
qed

interpretation usage_file: usage_store usage_file_port file_State usage_durable usage_reopens
proof
  fix c now e r err r'
  assume "usage_durable r" "up_Put usage_file_port c now e r = (err, r')"
  then show "usage_durable r' \<and> put_follows now e err (file_State r) (file_State r')"
    by (intro UsageFile_Put_follows) (simp_all add: usage_file_port_def)
next
  fix c p now r e
  assume "up_GetEvidence usage_file_port c p now r = Inr e"
  then show "\<exists>corrupt. usage_find corrupt p now (file_State r) = Inr e"
    by (intro exI [of _ "[UsageErr UsageCorrupt]"]) (simp add: usage_file_port_def UsageFile_GetEvidence_def store_read_def)
next
  fix r r'
  assume "usage_durable r" "usage_reopens r r'"
  then show "usage_durable r' \<and> file_State r' = file_State r"
    using usage_disk.open_durable by (auto simp: usage_reopens_def UsageFile_NewRepository_def)
qed (simp add: store_durable_def)

section \<open>One owner\<close>

text \<open>What the readers answer, one after the other, and the world after all of them.\<close>

fun evidence_answers ::
    "ctx option \<Rightarrow> string \<Rightarrow> time \<Rightarrow> 'w EvidenceReader list \<Rightarrow> 'w \<Rightarrow> (error + Evidence) list \<times> 'w" where
  "evidence_answers c i now [] w = ([], w)"
| "evidence_answers c i now (reader # readers) w =
     (case reader c i now w of (x, w') \<Rightarrow> case evidence_answers c i now readers w' of (xs, w'') \<Rightarrow> (x # xs, w''))"

definition no_evidence :: "error + Evidence \<Rightarrow> bool" where
  "no_evidence x \<longleftrightarrow> (case x of Inl e \<Rightarrow> errors_is e (UsageErr UsageEvidenceNotFound) | Inr _ \<Rightarrow> False)"

lemma no_evidence_simps [simp]:
  "no_evidence (Inl e) \<longleftrightarrow> errors_is e (UsageErr UsageEvidenceNotFound)" "\<not> no_evidence (Inr x)"
  by (simp_all add: no_evidence_def)

lemma aggregate_evidence_expired: "aggregate_evidence c i now readers None True w \<noteq> (Inr x, w')"
  by (induction readers arbitrary: w) (auto split: prod.split sum.split)

lemma aggregate_evidence_found:
  "aggregate_evidence c i now readers (Some v) False w = (Inr x, w') \<longleftrightarrow>
     x = v \<and> (case evidence_answers c i now readers w of (xs, u) \<Rightarrow> list_all no_evidence xs \<and> w' = u)"
  by (induction readers arbitrary: w) (auto split: prod.split sum.split)

lemma aggregate_evidence_none:
  "aggregate_evidence c i now readers None False w = (Inr x, w') \<longleftrightarrow>
     us_OperationID x = i \<and> Evidence_Validate x now = None \<and>
     (case evidence_answers c i now readers w of (xs, u) \<Rightarrow>
        w' = u \<and> (\<exists>before after. xs = before @ Inr x # after \<and> list_all no_evidence before \<and> list_all no_evidence after))"
proof (induction readers arbitrary: w)
  case (Cons reader readers)
  obtain y u where y: "reader c i now w = (y, u)" by force
  obtain xs t where t: "evidence_answers c i now readers u = (xs, t)" by force
  have split: "(\<exists>before after. y # xs = before @ Inr x # after \<and> list_all no_evidence before \<and> list_all no_evidence after) \<longleftrightarrow>
      y = Inr x \<and> list_all no_evidence xs \<or>
      no_evidence y \<and> (\<exists>before after. xs = before @ Inr x # after \<and> list_all no_evidence before \<and> list_all no_evidence after)"
    (is "?l \<longleftrightarrow> ?here \<or> ?later")
  proof
    show "?l \<Longrightarrow> ?here \<or> ?later" by (auto simp: Cons_eq_append_conv)
    show "?here \<or> ?later \<Longrightarrow> ?l" by (metis append_Cons append_Nil list.pred_inject(1,2))
  qed
  show ?case
  proof (cases y)
    case (Inl e)
    with y t Cons [of u] show ?thesis by (auto simp: split [unfolded Inl] aggregate_evidence_expired)
  next
    case (Inr v)
    with y t show ?thesis by (auto simp: split [unfolded Inr] aggregate_evidence_found)
  qed
qed simp

text \<open>
  C40. Evidence of an operation is reported exactly when one family has it. The aggregated read returns evidence if
  and only if one reader answered it, valid at that time and of the operation asked for, and all others answered
  that they have none. Expired evidence of a second family, or any other error, is never passed over.
\<close>

theorem usage_has_one_owner:
  "Aggregator_GetEvidence readers c i now w = (Inr x, w') \<longleftrightarrow>
     c \<noteq> None \<and> i \<noteq> [] \<and> now \<noteq> 0 \<and> us_OperationID x = i \<and> Evidence_Validate x now = None \<and>
     (\<exists>before after. evidence_answers c i now readers w = (before @ Inr x # after, w') \<and>
        list_all no_evidence before \<and> list_all no_evidence after)"
  by (auto simp: Aggregator_GetEvidence_def aggregate_evidence_none split: prod.split)

end
