(* ===== verification/Usage_Application.thy ===== *)
theory Usage_Application
  imports Usage_Evidence Provider_Operation Exec_Invariant Go_Hash
begin

text \<open>
  Usage evidence of executions (\<^verbatim>\<open>src/provider/usage/application/application.go\<close>): the collector derives evidence
  from a stored result, the reader collects on demand. The digest is over the JSON encoding of the evidence. The
  reader's exec source is an interface; its answers are functions of a world of its own.
\<close>

section \<open>JSON\<close>

text \<open>
  \<^verbatim>\<open>json.Marshal\<close> of a string, with HTML escapes. Beyond ASCII a byte is kept as it is; the encoder escapes
  line separators and repairs invalid UTF-8 there, but the strings of evidence are identifiers and references.
\<close>

definition json_char :: "char \<Rightarrow> string" where
  "json_char c =
     (if c = CHR 0x22 then [CHR 0x5C, CHR 0x22] else if c = CHR 0x5C then [CHR 0x5C, CHR 0x5C]
      else if byte c = 8 then [CHR 0x5C, CHR ''b''] else if byte c = 12 then [CHR 0x5C, CHR ''f'']
      else if byte c = 10 then [CHR 0x5C, CHR ''n''] else if byte c = 13 then [CHR 0x5C, CHR ''r'']
      else if byte c = 9 then [CHR 0x5C, CHR ''t'']
      else if byte c < 32 \<or> c \<in> set ''<>&'' then [CHR 0x5C] @ ''u00'' @ format_x [byte c]
      else [c])"

definition json_string :: "string \<Rightarrow> string" where
  "json_string s = [CHR 0x22] @ concat (map json_char s) @ [CHR 0x22]"

text \<open>A time is encoded only if its year has four digits.\<close>

definition json_time :: "time \<Rightarrow> string option" where
  "json_time t =
     (let s = format_RFC3339Nano t in if s ! 4 = CHR ''-'' then Some ([CHR 0x22] @ s @ [CHR 0x22]) else None)"

definition json_join :: "string list \<Rightarrow> string" where
  "json_join xs = (case xs of [] \<Rightarrow> [] | x # xs \<Rightarrow> x @ concat (map (\<lambda>y. CHR '','' # y) xs))"

definition json_object :: "(string \<times> string option) list \<Rightarrow> string option" where
  "json_object members =
     (if list_ex (\<lambda>f. snd f = None) members then None
      else Some (''{'' @ json_join (map (\<lambda>(name, v). json_string name @ '':'' @ the v) members) @ ''}''))"

definition json_array :: "string option list \<Rightarrow> string option" where
  "json_array xs = (if None \<in> set xs then None else Some (''['' @ json_join (map the xs) @ '']''))"

fun meter_string :: "Meter \<Rightarrow> string" where
  "meter_string MeterWallTime = ''sandbox.wall_time_milliseconds''"
| "meter_string MeterCPU = ''sandbox.cpu_nanoseconds''"
| "meter_string MeterMemory = ''sandbox.memory_byte_milliseconds''"
| "meter_string MeterNetworkIngress = ''sandbox.network_ingress_bytes''"
| "meter_string MeterNetworkEgress = ''sandbox.network_egress_bytes''"
| "meter_string MeterStorageRead = ''sandbox.storage_read_bytes''"
| "meter_string MeterStorageWrite = ''sandbox.storage_write_bytes''"
| "meter_string MeterWorkspacePeak = ''sandbox.workspace_peak_bytes''"
| "meter_string MeterExecCount = ''sandbox.exec_count''"
| "meter_string MeterBrowserSession = ''sandbox.browser_session_milliseconds''"
| "meter_string MeterDesktopSession = ''sandbox.desktop_session_milliseconds''"
| "meter_string (OtherMeter s) = s"

fun source_string :: "MeterSource \<Rightarrow> string" where
  "source_string SourcePlatform = ''platform_metered''"
| "source_string SourceRuntime = ''runtime_metered''"
| "source_string SourceReconciled = ''reconciled''"
| "source_string (OtherSource s) = s"

fun reconciliation_string :: "ReconciliationStatus \<Rightarrow> string" where
  "reconciliation_string ReconciliationComplete = ''complete''"
| "reconciliation_string ReconciliationPartial = ''partial''"
| "reconciliation_string ReconciliationUnknown = ''unknown''"
| "reconciliation_string (OtherReconciliation s) = s"

definition json_entry :: "Entry \<Rightarrow> string option" where
  "json_entry e = json_object
     [(''EntryID'', Some (json_string (ue_EntryID e))), (''SandboxID'', Some (json_string (ue_SandboxID e))),
      (''OperationID'', Some (json_string (ue_OperationID e))), (''Meter'', Some (json_string (meter_string (ue_Meter e)))),
      (''Quantity'', Some (format_int 0 (ue_Quantity e))), (''Unit'', Some (json_string (ue_Unit e))),
      (''MeterSource'', Some (json_string (source_string (ue_MeterSource e)))),
      (''EvidenceReference'', Some (json_string (ue_EvidenceReference e))), (''OccurredAt'', json_time (ue_OccurredAt e))]"

definition json_evidence :: "Evidence \<Rightarrow> string option" where
  "json_evidence e = json_object
     [(''EvidenceID'', Some (json_string (us_EvidenceID e))), (''SandboxID'', Some (json_string (us_SandboxID e))),
      (''OperationID'', Some (json_string (us_OperationID e))), (''AttemptID'', Some (json_string (us_AttemptID e))),
      (''FencingToken'', Some (format_int 0 (us_FencingToken e))), (''Entries'', json_array (map json_entry (us_Entries e))),
      (''ReconciliationStatus'', Some (json_string (reconciliation_string (us_ReconciliationStatus e)))),
      (''ObservedAt'', json_time (us_ObservedAt e)), (''RetainedUntil'', json_time (us_RetainedUntil e)),
      (''EvidenceDigest'', Some (json_string (us_EvidenceDigest e)))]"

section \<open>Evidence of a result\<close>

definition evidenceKey :: "string \<Rightarrow> string \<Rightarrow> string" where
  "evidenceKey operationID attemptID = format_x (sha256 (operationID @ [CHR 0x00] @ attemptID))"

text \<open>The error of the encoder is discarded: what it could not encode is hashed as the empty string.\<close>

definition digestEvidence :: "Evidence \<Rightarrow> string" where
  "digestEvidence e =
     ''sha256:'' @ format_x (sha256 (case json_evidence (e\<lparr>us_EvidenceDigest := []\<rparr>) of None \<Rightarrow> [] | Some s \<Rightarrow> s))"

text \<open>\<^verbatim>\<open>Duration.Milliseconds\<close> truncates towards zero.\<close>

definition milliseconds :: "int \<Rightarrow> int" where
  "milliseconds d = (if d < 0 then - (- d div 1000000) else d div 1000000)"

definition usage_entry :: "ExecResult \<Rightarrow> string \<Rightarrow> Meter \<Rightarrow> int \<Rightarrow> string \<Rightarrow> MeterSource \<Rightarrow> Entry" where
  "usage_entry result name meter quantity meter_unit source =
     (let key = evidenceKey (re_OperationID result) (re_AttemptID result)
      in \<lparr>ue_EntryID = name @ ''-'' @ key, ue_SandboxID = re_SandboxID result, ue_OperationID = re_OperationID result,
          ue_Meter = meter, ue_Quantity = quantity, ue_Unit = meter_unit, ue_MeterSource = source,
          ue_EvidenceReference = ''ref:usage/'' @ key @ ''/'' @ name, ue_OccurredAt = re_CompletedAt result\<rparr>)"

definition result_evidence :: "ExecResult \<Rightarrow> Evidence" where
  "result_evidence result =
     (let key = evidenceKey (re_OperationID result) (re_AttemptID result);
          evidence =
            \<lparr>us_EvidenceID = ''usage-'' @ key, us_SandboxID = re_SandboxID result, us_OperationID = re_OperationID result,
             us_AttemptID = re_AttemptID result, us_FencingToken = re_FencingToken result,
             us_Entries =
               [usage_entry result ''wall'' MeterWallTime
                  (milliseconds (time_sub (re_CompletedAt result) (re_StartedAt result))) ''milliseconds'' SourceRuntime,
                usage_entry result ''count'' MeterExecCount 1 ''count'' SourceReconciled],
             us_ReconciliationStatus = ReconciliationPartial, us_ObservedAt = re_CompletedAt result,
             us_RetainedUntil = re_RetainedUntil result, us_EvidenceDigest = []\<rparr>
      in evidence\<lparr>us_EvidenceDigest := digestEvidence evidence\<rparr>)"

section \<open>Collector\<close>

text \<open>Whether a result proves that an execution ran.\<close>

definition proves_usage :: "ExecResult \<Rightarrow> bool" where
  "proves_usage result \<longleftrightarrow>
     \<not> (re_Status result = ResultOutcomeUnknown \<or>
        re_Status result = ResultFailed \<and> re_ExitCode result = None \<and> re_Signal result = [])"

text \<open>The collector's clock reads \<open>now\<close>, that of the store \<open>later\<close>.\<close>

definition ObserveResult :: "'r UsagePort \<Rightarrow> ctx option \<Rightarrow> time \<Rightarrow> time \<Rightarrow> ExecResult \<Rightarrow> 'r \<Rightarrow> error option \<times> 'r" where
  "ObserveResult port c now later result r =
     (if c = None then (Some [ContextCanceled], r)
      else case Result_Validate result of
        Some e \<Rightarrow> (Some (UsageErr UsageEvidenceUnavailable # e), r)
      | None \<Rightarrow>
          if \<not> proves_usage result \<or> \<not> now < re_RetainedUntil result then (None, r)
          else case Evidence_Validate (result_evidence result) (re_CompletedAt result) of
            Some e \<Rightarrow> (Some (UsageErr UsageEvidenceUnavailable # e), r)
          | None \<Rightarrow> up_Put port c later (result_evidence result) r)"

section \<open>Reader\<close>

text \<open>
  What happens around a read: where in its context the k-th callee begins, what the clocks read, and what others
  have done to the store before each access.
\<close>

record 'r ReadEnv =
  rd_Moment :: "nat \<Rightarrow> nat"
  rd_Clock :: "nat \<Rightarrow> time"
  rd_Others :: "nat \<Rightarrow> 'r \<Rightarrow> 'r"

record 'w ExecEvidenceSource =
  ex_ReadOperation :: "ctx option \<Rightarrow> string \<Rightarrow> 'w \<Rightarrow> (error + View) \<times> 'w"
  ex_GetResult :: "ctx option \<Rightarrow> string \<Rightarrow> 'w \<Rightarrow> (error + ExecResult) \<times> 'w"

definition collect_and_read ::
    "'r UsagePort \<Rightarrow> 'r ReadEnv \<Rightarrow> ctx option \<Rightarrow> string \<Rightarrow> time \<Rightarrow> ExecResult \<Rightarrow> 'r \<Rightarrow> (error + Evidence) \<times> 'r" where
  "collect_and_read port env c operationID now result r =
     (case ObserveResult port (from_now (rd_Moment env 3) c) (rd_Clock env 0) (rd_Clock env 1) result (rd_Others env 1 r) of
        (Some e, r') \<Rightarrow> (Inl (UsageErr UsageEvidenceUnavailable # e), r')
      | (None, r') \<Rightarrow>
          let r'' = rd_Others env 2 r'
          in (case up_GetEvidence port (from_now (rd_Moment env 4) c) operationID now r'' of
                Inl e \<Rightarrow> Inl (if errors_is e (UsageErr UsageEvidenceNotFound) then [UsageErr UsageEvidenceUnavailable] else e)
              | Inr x \<Rightarrow> Inr x, r''))"

definition Reader_GetEvidence ::
    "'r UsagePort \<Rightarrow> 'w ExecEvidenceSource \<Rightarrow> 'r ReadEnv \<Rightarrow> ctx option \<Rightarrow> string \<Rightarrow> time \<Rightarrow> 'r \<times> 'w \<Rightarrow> (error + Evidence) \<times> 'r \<times> 'w" where
  "Reader_GetEvidence port source env c operationID now state =
     (case state of (r, w) \<Rightarrow>
        if c = None then (Inl [ContextCanceled], r, w)
        else if now = 0 then (Inl [UsageErr UsageEvidenceUnavailable], r, w)
        else let r = rd_Others env 0 r
        in case up_GetEvidence port (from_now (rd_Moment env 0) c) operationID now r of
             Inr x \<Rightarrow> (Inr x, r, w)
           | Inl e \<Rightarrow>
               if errors_is e (UsageErr UsageEvidenceExpired) then (Inl e, r, w)
               else if \<not> errors_is e (UsageErr UsageEvidenceNotFound) then (Inl (UsageErr UsageEvidenceUnavailable # e), r, w)
               else case ex_ReadOperation source (from_now (rd_Moment env 1) c) operationID w of
                 (Inl e, w) \<Rightarrow>
                   (Inl (if errors_is e (OperationErr OperationNotFound) then [UsageErr UsageEvidenceNotFound]
                         else UsageErr UsageEvidenceUnavailable # e), r, w)
               | (Inr v, w) \<Rightarrow>
                   if vw_Status v = StatusAccepted \<or> vw_Status v = StatusRunning then (Inl [UsageErr UsageEvidenceUnavailable], r, w)
                   else case ex_GetResult source (from_now (rd_Moment env 2) c) operationID w of
                     (Inl e, w) \<Rightarrow> (Inl (UsageErr UsageEvidenceUnavailable # e), r, w)
                   | (Inr result, w) \<Rightarrow>
                       (case collect_and_read port env c operationID now result r of (x, r) \<Rightarrow> (x, r, w)))"

section \<open>Evidence is valid\<close>

lemma hex_digit_hex_char: "n < 16 \<Longrightarrow> hex_digit (hex_char n)"
proof -
  have "\<forall>n \<in> {..<16}. hex_digit (hex_char n)"
    unfolding lessThan_nat_numeral by (simp add: hex_char_def hex_digit_def digit_def byte_def)
  then show "n < 16 \<Longrightarrow> hex_digit (hex_char n)" by blast
qed

lemma format_x_hex: "(\<And>b. b \<in> set bs \<Longrightarrow> b < 256) \<Longrightarrow> list_all hex_digit (format_x bs)"
proof (induction bs)
  case (Cons b bs)
  have "b < 256" by (simp add: Cons.prems)
  then have "b div 16 < 16" "b mod 16 < 16" by auto
  with Cons show ?case by (simp add: format_x_def hex_digit_hex_char)
qed (simp add: format_x_def)

lemma evidenceKey_hex: "list_all hex_digit (evidenceKey i a)" "length (evidenceKey i a) = 64"
  unfolding evidenceKey_def
  by (intro format_x_hex) (simp_all add: sha256_less length_format_x sha256_length)

lemma hex_digit_chars: "hex_digit c \<Longrightarrow> identifier_char c" "hex_digit c \<Longrightarrow> alphanumeric c"
  by (auto simp: hex_digit_def identifier_char_def alphanumeric_def lower_def)

lemma evidenceKey_chars:
  "list_all identifier_char (evidenceKey i a)" "list_all (\<lambda>d. alphanumeric d \<or> d \<in> set ''._:/-'') (evidenceKey i a)"
  using evidenceKey_hex(1) [of i a] by (auto simp: list_all_iff hex_digit_chars)

lemma digestEvidence_digest: "digestPattern (digestEvidence e)"
proof -
  have "list_all hex_digit (format_x (sha256 s))" for s by (intro format_x_hex) (simp add: sha256_less)
  then show ?thesis by (simp add: digestEvidence_def digestPattern_def length_format_x sha256_length)
qed

lemmas evidence_patterns = identifierPattern_def referencePattern_def prefixed_def evidenceKey_hex(2) evidenceKey_chars

lemma usage_entry_valid:
  assumes "Result_Validate x = None" and "name = ''wall'' \<or> name = ''count''" and "0 \<le> q" and "meterUnit m = Some u"
    and "source = SourceRuntime \<or> source = SourceReconciled"
  shows "Entry_Validate (usage_entry x name m q u source) = None"
proof -
  have "identifierPattern (re_SandboxID x)" "identifierPattern (re_OperationID x)" "re_CompletedAt x \<noteq> 0"
    using assms(1) by (simp_all add: Result_Validate_def)
  moreover have "identifierPattern (name @ ''-'' @ evidenceKey i a)" "referencePattern (''ref:usage/'' @ evidenceKey i a @ ''/'' @ name)" for i a
    using assms(2) evidenceKey_chars(2) [of i a]
    by (auto simp: evidence_patterns identifier_char_def alphanumeric_def upper_def lower_def digit_def byte_def)
  ultimately show ?thesis using assms(3-5) by (auto simp: Entry_Validate_def usage_entry_def Let_def)
qed

lemma milliseconds_nonneg: "0 \<le> d \<Longrightarrow> 0 \<le> milliseconds d"
  by (simp add: milliseconds_def)

lemma result_evidence_valid:
  assumes "Result_Validate x = None"
  shows "Evidence_Validate (result_evidence x) t = None \<longleftrightarrow> t < re_RetainedUntil x"
proof -
  have x: "identifierPattern (re_SandboxID x)" "identifierPattern (re_OperationID x)" "identifierPattern (re_AttemptID x)"
    "1 \<le> re_FencingToken x" "re_StartedAt x \<le> re_CompletedAt x" "re_CompletedAt x < re_RetainedUntil x"
    "re_CompletedAt x \<noteq> 0" "re_RetainedUntil x \<noteq> 0"
    using assms by (simp_all add: Result_Validate_def)
  have "0 \<le> milliseconds (time_sub (re_CompletedAt x) (re_StartedAt x))"
    using x(5) by (intro milliseconds_nonneg) (simp add: time_sub_def)
  then have entries: "\<forall>e \<in> set (us_Entries (result_evidence x)). Entry_Validate e = None \<and> ue_SandboxID e = re_SandboxID x \<and>
      ue_OperationID e = re_OperationID x"
    using usage_entry_valid [OF assms] by (auto simp: result_evidence_def Let_def) (auto simp: usage_entry_def Let_def)
  have "identifierPattern (''usage-'' @ evidenceKey i a)" for i a
    by (simp add: evidence_patterns identifier_char_def upper_def lower_def digit_def byte_def)
  moreover have "us_SandboxID (result_evidence x) = re_SandboxID x" "us_OperationID (result_evidence x) = re_OperationID x"
    "us_AttemptID (result_evidence x) = re_AttemptID x" "us_FencingToken (result_evidence x) = re_FencingToken x"
    "length (us_Entries (result_evidence x)) = 2" "us_ReconciliationStatus (result_evidence x) = ReconciliationPartial"
    "us_ObservedAt (result_evidence x) = re_CompletedAt x" "us_RetainedUntil (result_evidence x) = re_RetainedUntil x"
    "us_EvidenceID (result_evidence x) = ''usage-'' @ evidenceKey (re_OperationID x) (re_AttemptID x)"
    "digestPattern (us_EvidenceDigest (result_evidence x))"
    by (simp_all add: result_evidence_def Let_def digestEvidence_digest)
  ultimately show ?thesis using x entries by (auto simp: Evidence_Validate_def MaxEntries_def list_ex_iff)
qed

section \<open>Collecting twice\<close>

lemma usage_file_port_simps: "up_Put usage_file_port = UsageFile_Put" "up_GetEvidence usage_file_port = UsageFile_GetEvidence"
  by (simp_all add: usage_file_port_def)

lemma result_evidence_fields [simp]:
  "us_OperationID (result_evidence x) = re_OperationID x" "us_RetainedUntil (result_evidence x) = re_RetainedUntil x"
  by (simp_all add: result_evidence_def Let_def)

lemma ObserveResult_puts:
  assumes "Result_Validate x = None" and "proves_usage x" and "now < re_RetainedUntil x" and "c \<noteq> None"
  shows "ObserveResult port c now later x r = up_Put port c later (result_evidence x) r"
proof -
  have "re_CompletedAt x < re_RetainedUntil x" using assms(1) by (simp add: Result_Validate_def)
  then have "Evidence_Validate (result_evidence x) (re_CompletedAt x) = None" using result_evidence_valid [OF assms(1)] by blast
  with assms show ?thesis by (auto simp: ObserveResult_def)
qed

lemma UsageFile_Put_present:
  assumes "usage_durable r" and "fmlookup (ut_Values (file_State r)) (us_EvidenceID e) = Some e"
  shows "snd (UsageFile_Put c now e r) = r"
    and "\<not> file_Closed r \<Longrightarrow> Evidence_Validate e now = None \<Longrightarrow> UsageFile_Put live now e r = (None, r)"
proof -
  have "usage_place e (file_State r) = Present" using assms by (simp add: usage_place_Present store_durable_def)
  then show "snd (UsageFile_Put c now e r) = r"
    and "\<not> file_Closed r \<Longrightarrow> Evidence_Validate e now = None \<Longrightarrow> UsageFile_Put live now e r = (None, r)"
    by (simp_all add: UsageFile_Put_def live_def contextError_def split: option.split)
qed

lemma ObserveResult_present:
  assumes "usage_durable r" and "fmlookup (ut_Values (file_State r)) (us_EvidenceID (result_evidence x)) = Some (result_evidence x)"
  shows "snd (ObserveResult usage_file_port c now later x r) = r"
  using UsageFile_Put_present(1) [OF assms] by (simp add: ObserveResult_def usage_file_port_def split: option.split)

lemma UsageFile_GetEvidence_present:
  assumes "usage_durable r" and "fmlookup (ut_Values (file_State r)) (us_EvidenceID e) = Some e"
    and "\<not> file_Closed r" and "t \<noteq> 0" and "t < us_RetainedUntil e"
  shows "UsageFile_GetEvidence live (us_OperationID e) t r = Inr e"
  using assms usage_invD(3) [of "file_State r" "us_EvidenceID e" e]
  by (simp add: UsageFile_GetEvidence_def store_read_def usage_find_def store_durable_def live_def contextError_def)

section \<open>Samples\<close>

definition usage_file1 :: UsageFile where
  "usage_file1 =
     \<lparr>file_State = usage_NewState, file_Closed = False, file_Disk = None,
      file_Env = (\<lambda>_. \<lparr>pe_MkdirAll = False, pe_CreateTemp = False, pe_Chmod = False, pe_Encode = False, pe_Stat = False,
        pe_Size = \<lambda>_. 4096, pe_Sync = False, pe_Close = False, pe_Rename = False, pe_OpenDirectory = False,
        pe_SyncDirectory = False, pe_CloseDirectory = False\<rparr>),
      file_Writes = 0, file_ReleaseFails = False\<rparr>"

lemma usage_file1_durable: "usage_durable usage_file1"
  by (simp add: usage_file1_def store_durable_def stored_def usage_inv_NewState)

lemma result1_proves: "proves_usage result1" "300 < re_RetainedUntil result1" "re_OperationID result1 = ''op1''"
  by (simp_all add: proves_usage_def result1_def nanos_per_second_def)

lemma usage_put1:
  "\<exists>r. UsageFile_Put live 300 (result_evidence result1) usage_file1 = (None, r) \<and> \<not> file_Closed r"
proof -
  have "Evidence_Validate (result_evidence result1) 300 = None" using result_evidence_valid [OF result1_valid] result1_proves(2) by simp
  moreover have "usage_place e usage_NewState = Fresh" for e by (simp add: usage_place_Fresh usage_NewState_def)
  ultimately show ?thesis
    by (simp add: UsageFile_Put_def usage_persist_def store_persist_def store_replace_def store_sync_def usage_file1_def
        usage_maxFileSize_def live_def contextError_def Let_def)
qed

section \<open>Properties\<close>

text \<open>
  C38. Usage evidence never changes. Once a store has accepted evidence, then after any further calls, failing system
  calls and restarts, a read of its operation returns that evidence or an error, and only before its retention
  has passed; and no other evidence for the operation, or under the same identifier, is ever accepted.
\<close>

theorem usage_evidence_immutable:
  assumes "UsageFile_Put c now e r = (None, r\<^sub>1)" and "usage_durable r" and "usage_history usage_file_port usage_reopens r\<^sub>1 r\<^sub>2"
  shows "(\<forall>c t x. UsageFile_GetEvidence c (us_OperationID e) t r\<^sub>2 = Inr x \<longrightarrow> x = e \<and> t < us_RetainedUntil e) \<and>
    (\<forall>c t x. fst (UsageFile_Put c t x r\<^sub>2) = None \<and> (us_OperationID x = us_OperationID e \<or> us_EvidenceID x = us_EvidenceID e) \<longrightarrow> x = e)"
  using usage_file.evidence_immutable [of c now e r r\<^sub>1 r\<^sub>2] assms unfolding usage_file_port_simps by blast

theorem usage_evidence_immutable_witness:
  "\<exists>r. UsageFile_Put live 300 (result_evidence result1) usage_file1 = (None, r) \<and>
     (\<forall>x. UsageFile_GetEvidence live ''op1'' 300 r = Inr x \<longrightarrow> x = result_evidence result1)"
proof -
  obtain r where r: "UsageFile_Put live 300 (result_evidence result1) usage_file1 = (None, r)" using usage_put1 by blast
  from usage_evidence_immutable [OF r usage_file1_durable usage_history.start] r result1_proves(3) show ?thesis by auto
qed

text \<open>
  C39. Collecting the evidence of a result is idempotent. When the evidence of a result that proves an execution has
  been collected, then after any further calls and restarts collecting it again changes nothing, whatever the
  clocks read; on an open store and within the retention it succeeds, and the evidence can be read.
\<close>

theorem usage_collected_once:
  assumes "ObserveResult usage_file_port c now later x r = (None, r\<^sub>1)" and "usage_durable r"
    and "Result_Validate x = None" and "proves_usage x" and "now < re_RetainedUntil x"
    and "usage_history usage_file_port usage_reopens r\<^sub>1 r\<^sub>2"
  shows "(\<forall>c t u. snd (ObserveResult usage_file_port c t u x r\<^sub>2) = r\<^sub>2) \<and>
    (\<not> file_Closed r\<^sub>2 \<longrightarrow> (\<forall>t u. u < re_RetainedUntil x \<longrightarrow> ObserveResult usage_file_port live t u x r\<^sub>2 = (None, r\<^sub>2)) \<and>
       (\<forall>t. t \<noteq> 0 \<and> t < re_RetainedUntil x \<longrightarrow> UsageFile_GetEvidence live (re_OperationID x) t r\<^sub>2 = Inr (result_evidence x)))"
proof -
  let ?e = "result_evidence x"
  have "c \<noteq> None" using assms(1) by (cases c) (simp_all add: ObserveResult_def)
  then have "up_Put usage_file_port c later ?e r = (None, r\<^sub>1)" using ObserveResult_puts [OF assms(3,4,5), where port = usage_file_port] assms(1) by simp
  then have "usage_durable r\<^sub>1" "fmlookup (ut_Values (file_State r\<^sub>1)) (us_EvidenceID ?e) = Some ?e"
    using usage_file.Put_law [OF assms(2)] by (auto simp: put_follows_def)
  then have r2: "usage_durable r\<^sub>2" "fmlookup (ut_Values (file_State r\<^sub>2)) (us_EvidenceID ?e) = Some ?e"
    using usage_file.history_keeps [OF assms(6)] by auto
  have "ObserveResult usage_file_port live t u x r\<^sub>2 = (None, r\<^sub>2)" if "\<not> file_Closed r\<^sub>2" "u < re_RetainedUntil x" for t u
  proof (cases "t < re_RetainedUntil x")
    case True
    with that UsageFile_Put_present(2) [OF r2] result_evidence_valid [OF assms(3)] ObserveResult_puts [OF assms(3,4) True, where port = usage_file_port]
    show ?thesis by (simp add: usage_file_port_simps live_def)
  qed (use assms(3) in \<open>simp add: ObserveResult_def live_def\<close>)
  with ObserveResult_present [OF r2] UsageFile_GetEvidence_present [OF r2] show ?thesis by simp
qed

theorem usage_collected_once_witness:
  "\<exists>r. ObserveResult usage_file_port live 300 300 result1 usage_file1 = (None, r) \<and>
     ObserveResult usage_file_port live 400 400 result1 r = (None, r) \<and>
     UsageFile_GetEvidence live ''op1'' 500 r = Inr (result_evidence result1)"
proof -
  obtain r where r: "UsageFile_Put live 300 (result_evidence result1) usage_file1 = (None, r)" "\<not> file_Closed r"
    using usage_put1 by blast
  have o: "ObserveResult usage_file_port live 300 300 result1 usage_file1 = (None, r)"
    using ObserveResult_puts [OF result1_valid result1_proves(1,2), where port = usage_file_port] r by (simp add: usage_file_port_simps live_def)
  have "500 < re_RetainedUntil result1" by (simp add: result1_def nanos_per_second_def)
  with usage_collected_once [OF o usage_file1_durable result1_valid result1_proves(1,2) usage_history.start] r o result1_proves(3)
  show ?thesis by auto
qed

end
