(* ===== verification/Spec2Isabelle.thy ===== *)
theory Spec2Isabelle
  imports Lifecycle_Recovery Lifecycle_Application Gateway_Limiter Gateway_Capacity Exec_Application Usage_Application
begin

text \<open>
  A verification library of the provider of the sandbox runtime, the Go module under \<^verbatim>\<open>src\<close>.

  \<^bold>\<open>The program.\<close> The provider runs sandboxes for callers that retry, crash and compete. The lifecycle part
  (\<^verbatim>\<open>src/provider/lifecycle\<close>) accepts requests to create, suspend, resume, extend and terminate a sandbox. It
  records each as an operation in a repository, drives the runtime through a driver and records the outcome. The
  exec part (\<^verbatim>\<open>src/provider/exec\<close>) runs processes in sandboxes in the same way: reserve, dispatch, attach the
  receipt, store the result. Both keep their state in one file that is replaced atomically. Fencing tokens refuse
  callers that have been superseded; idempotency keys answer retries from the record. The operations of all
  families are read through one aggregated view (\<^verbatim>\<open>src/provider/operation\<close>). The gateway
  (\<^verbatim>\<open>src/gateway\<close>) bounds the connections to the sandboxes.

  \<^bold>\<open>Conventions.\<close> A Go function keeps its name; the fields of a struct carry a prefix for their struct. Errors
  are lists of sentinels (\<open>Go_Prelude\<close>), messages are left out. Unsigned 64-bit integers are words, signed ones
  are integers whose range is checked where it matters, times are integers of nanoseconds with the zero time at
  \<open>0\<close>, strings are lists of bytes, maps are finite maps. Copies that the source makes against aliasing are the
  identity, since the model's values are not shared. A method that runs under a mutex is one step.

  \<^bold>\<open>Shared theories.\<close>
  \<^item> \<open>Go_Prelude\<close>: errors, chains of checks, folds that stop at an error, finite maps and sorting.
  \<^item> \<open>Go_World\<close>: how a call of a coordinator runs. The world is the repository, the runtime and a tick;
    what the clock reads, when a context ends and what other callers do to the repository between two accesses
    are functions of the tick. The theorems hold for all of them.
  \<^item> \<open>Go_File\<close>: the atomically replaced file, once for the three repositories that use it: writing with every failing
    system call, rollback, loading, closing. The locale \<open>file_format\<close> asks of a state that saving and loading it
    is a round trip, and gives that memory and file agree after every call and every crash.
  \<^item> \<open>Go_Hash\<close>: SHA-256 and the encodings from which identifiers are derived.

  \<^bold>\<open>Lifecycle.\<close>
  \<^item> \<open>Lifecycle_Model\<close> (\<^verbatim>\<open>model.go\<close>), \<open>Lifecycle_Transition\<close> (\<^verbatim>\<open>transition.go\<close>): values,
    validation and transitions. Transitions keep values valid, ended sandboxes and operations are frozen, a
    sandbox that winds down never comes back, renewals stay within the horizon.
  \<^item> \<open>Lifecycle_State\<close>, \<open>Lifecycle_Invariant\<close>, \<open>Lifecycle_Safety\<close>, \<open>Lifecycle_Events\<close>, \<open>Lifecycle_Snapshot\<close>
    (\<^verbatim>\<open>repository/state.go\<close>): the state of the repository, its invariant over any history, fencing and
    idempotency for ever, the bounded event log as a refinement of the unbounded history, and the snapshot.
  \<^item> \<open>Lifecycle_Repository\<close> (\<^verbatim>\<open>repository/memory\<close>, \<^verbatim>\<open>repository/file\<close>): the two repositories and
    the contract of their port, durability and atomicity of the file.
  \<^item> \<open>Lifecycle_Coordinator\<close> (\<^verbatim>\<open>coordinator\<close>), \<open>Lifecycle_Driver\<close> (\<^verbatim>\<open>driver/fake\<close>): the operations
    of the coordinator over any repository and driver, and the driver's contract. \<open>Lifecycle_Reconcile\<close>: they only
    follow legal histories. \<open>Lifecycle_Outcome\<close>: a reported success is true. \<open>Lifecycle_Superseded\<close>: a
    superseded operation is not dispatched, and blocks the sweep. \<open>Lifecycle_Recovery\<close>: an interrupted create
    is completed.
  \<^item> \<open>Lifecycle_Application\<close> (\<^verbatim>\<open>application\<close>): workers, sweeps and \<^verbatim>\<open>Close\<close> as interleaved threads;
    one worker for each operation, closing is final and makes progress.
  \<^item> \<open>Lifecycle_Samples\<close>: the inputs at which the witnesses are evaluated.

  \<^bold>\<open>Exec.\<close>
  \<^item> \<open>Exec_Model\<close> (\<^verbatim>\<open>model.go\<close>, \<^verbatim>\<open>result.go\<close>, \<^verbatim>\<open>ledger.go\<close>), \<open>Exec_State\<close>, \<open>Exec_Invariant\<close>
    (\<^verbatim>\<open>repository/state.go\<close>): values, state and its histories; what is recorded of an execution is permanent,
    and every reachable state can be saved and loaded.
  \<^item> \<open>Exec_Repository\<close> (\<^verbatim>\<open>repository/memory\<close>, \<^verbatim>\<open>repository/file\<close>): the two repositories and the
    locale \<open>exec_repository\<close>, which both interpret.
  \<^item> \<open>Exec_Coordinator\<close> (\<^verbatim>\<open>coordinator\<close>): the executor, observer, canceler and cleaner are functions
    of the tick and every call of them is recorded. The executor is called at most once for an operation, also
    over restarts, and a confirmed cancellation is true.
  \<^item> \<open>Exec_Application\<close> (\<^verbatim>\<open>application\<close>): requests with the check of the sandbox's authority, views,
    recovery. The application is a client of the coordinator, starts processes only with authority, and can
    report exactly the executions that \<open>execution_readable\<close> names.

  \<^bold>\<open>Operation views and gateway.\<close>
  \<^item> \<open>Provider_Operation\<close> (\<^verbatim>\<open>provider/operation\<close>): the view, the aggregation over any readers, the
    lifecycle reader. An operation is reported exactly when one family owns it.
  \<^item> \<open>Gateway_Limiter\<close> (\<^verbatim>\<open>gateway/edge/limiter.go\<close>), \<open>Gateway_Capacity\<close>
    (\<^verbatim>\<open>gateway/capacity.go\<close>): rate and connection bounds, leases counted exactly, equivalence of the two
    capacities.

  \<^bold>\<open>Usage.\<close>
  \<^item> \<open>Usage_Evidence\<close> (\<^verbatim>\<open>provider/usage\<close>, \<^verbatim>\<open>memory\<close>, \<^verbatim>\<open>repository/file\<close>): evidence,
    its aggregation, the two stores and the locale \<open>usage_store\<close>, which both interpret. Accepted evidence never
    changes, and is reported exactly when one family has it.
  \<^item> \<open>Usage_Application\<close> (\<^verbatim>\<open>application\<close>): the evidence of a result, with its key and digest, is valid
    and depends on the result alone, so that collecting it again changes nothing.

  \<^bold>\<open>Bounds and fuel.\<close> No definition needs fuel: loops run over lists that are given, and every function is total.
  Bounds of the source (file sizes, page sizes, retained events, timeouts) are the source's constants. Theorems
  about event sequence numbers assume histories shorter than \<open>2 ^ 64\<close> events where a number could wrap.

  \<^bold>\<open>Not modelled.\<close> Encoding and decoding the JSON of files (a file holds decoded documents or malformed ones), the advisory
  file lock (its failure is a parameter), error texts, and the memory model below mutexes. The Docker driver, the
  session, browser, desktop and artifact families, admission, the rest of the gateway (socket pumps, TLS,
  Redis scripts), the HTTP APIs, the product control plane with its database, the guest agent and the tools
  beside the service are not modelled: they are mostly calls of systems outside the module, or families whose
  repositories repeat the pattern that is verified here for lifecycle and exec.
\<close>

end
